(* ===== verification/Elf_Prelude.thy ===== *)
theory Elf_Prelude
  imports Main
begin

text \<open>
  Shared vocabulary of the development: the Python exceptions the repository's code can
  raise, the result type \<open>'a py_result\<close> (\<open>Inl\<close> an exception, \<open>Inr\<close> a value), its
  bind \<open>py_bind\<close>, and Python's list indexing \<open>xs[i]\<close> and assignment \<open>xs[i] = v\<close>
  with negative indices counting from the end (\<open>py_index\<close>, \<open>py_get\<close>, \<open>py_set\<close>).
  The lemmas here are the facts every component proof uses about these primitives; they
  are collected in \<open>py_simps\<close>.
\<close>

named_theorems py_simps "evaluation rules of the Python primitives"

section \<open>Exceptions and results\<close>

datatype py_error =
  IndexError
| KeyError
| TypeError
| ValueError
| ZeroDivisionError
| AttributeError
| Exception string

type_synonym 'a py_result = "py_error + 'a"

text \<open>
  How a loop of the source ends: normally, or by an exception that propagates to the
  caller while the object keeps the state it had reached.
\<close>

datatype 's run_result = Completed 's | Failed py_error 's

fun py_bind :: "'a py_result \<Rightarrow> ('a \<Rightarrow> 'b py_result) \<Rightarrow> 'b py_result" where
  "py_bind (Inl e) f = Inl e"
| "py_bind (Inr x) f = f x"

text \<open>
  A list comprehension \<^verbatim>\<open>[f(x) for x in xs]\<close> whose \<open>f\<close> may raise: the first
  exception, left to right, propagates.
\<close>

fun py_map :: "('a \<Rightarrow> 'b py_result) \<Rightarrow> 'a list \<Rightarrow> 'b list py_result" where
  "py_map f [] = Inr []"
| "py_map f (x # xs) = py_bind (f x) (\<lambda>y. py_bind (py_map f xs) (\<lambda>ys. Inr (y # ys)))"

section \<open>Python list indexing\<close>

text \<open>
  \<open>xs[i]\<close> for an \<open>int\<close> index \<open>i\<close>: a negative index counts from the end, and an index
  outside \<open>[-len(xs), len(xs))\<close> raises \<open>IndexError\<close>. \<open>py_index n i\<close> is the position
  an index resolves to in a list of length \<open>n\<close>.
\<close>

definition py_index :: "nat \<Rightarrow> int \<Rightarrow> nat option" where
  "py_index n i =
     (let j = (if i < 0 then int n + i else i)
      in if 0 \<le> j \<and> j < int n then Some (nat j) else None)"

definition py_get :: "'a list \<Rightarrow> int \<Rightarrow> 'a py_result" where
  "py_get xs i = (case py_index (length xs) i of None \<Rightarrow> Inl IndexError | Some j \<Rightarrow> Inr (xs ! j))"

definition py_set :: "'a list \<Rightarrow> int \<Rightarrow> 'a \<Rightarrow> 'a list py_result" where
  "py_set xs i v = (case py_index (length xs) i of None \<Rightarrow> Inl IndexError | Some j \<Rightarrow> Inr (xs[j := v]))"

text \<open>
  Slicing \<open>xs[i:j]\<close>: each bound is resolved like an index (negative counts from the end)
  and then clamped to \<open>[0, len(xs)]\<close>; slicing never raises.
\<close>

definition py_slice_bound :: "nat \<Rightarrow> int \<Rightarrow> nat" where
  "py_slice_bound n i = (if i < 0 then nat (max 0 (int n + i)) else min n (nat i))"

definition py_slice :: "'a list \<Rightarrow> int \<Rightarrow> int \<Rightarrow> 'a list" where
  "py_slice xs i j =
     (let a = py_slice_bound (length xs) i; b = py_slice_bound (length xs) j in take (b - a) (drop a xs))"

section \<open>Lemmas on results\<close>

lemma py_bind_Inr_iff [py_simps]:
  "py_bind m f = Inr y \<longleftrightarrow> (\<exists>x. m = Inr x \<and> f x = Inr y)"
  by (cases m) auto

lemma py_bind_Inl_iff [py_simps]:
  "py_bind m f = Inl e \<longleftrightarrow> m = Inl e \<or> (\<exists>x. m = Inr x \<and> f x = Inl e)"
  by (cases m) auto

lemma py_bind_Inr_right [simp]: "py_bind m Inr = m"
  by (cases m) auto

section \<open>Lemmas on indexing\<close>

lemma py_index_nonneg [py_simps]:
  "0 \<le> i \<Longrightarrow> py_index n i = (if i < int n then Some (nat i) else None)"
  by (simp add: py_index_def)

lemma py_index_neg [py_simps]:
  "i < 0 \<Longrightarrow> py_index n i = (if - int n \<le> i then Some (nat (int n + i)) else None)"
  by (auto simp: py_index_def)

lemma py_index_None_iff:
  "py_index n i = None \<longleftrightarrow> int n \<le> i \<or> i < - int n"
  by (auto simp: py_index_def Let_def)

lemma py_index_Some_less:
  "py_index n i = Some j \<Longrightarrow> j < n"
  by (auto simp: py_index_def Let_def split: if_splits)

lemma py_index_valid_iff:
  "(\<exists>j. py_index n i = Some j) \<longleftrightarrow> - int n \<le> i \<and> i < int n"
  using py_index_None_iff [of n i] by (cases "py_index n i") auto

lemma py_get_Inr_iff:
  "py_get xs i = Inr x \<longleftrightarrow> (\<exists>j. py_index (length xs) i = Some j \<and> x = xs ! j)"
  by (auto simp: py_get_def split: option.splits)

lemma py_get_Inl_iff:
  "py_get xs i = Inl e \<longleftrightarrow> e = IndexError \<and> py_index (length xs) i = None"
  by (auto simp: py_get_def split: option.splits)

lemma py_set_Inr_iff:
  "py_set xs i v = Inr ys \<longleftrightarrow> (\<exists>j. py_index (length xs) i = Some j \<and> ys = xs[j := v])"
  by (auto simp: py_set_def split: option.splits)

lemma py_set_Inl_iff:
  "py_set xs i v = Inl e \<longleftrightarrow> e = IndexError \<and> py_index (length xs) i = None"
  by (auto simp: py_set_def split: option.splits)

lemma py_get_nonneg [py_simps]:
  "0 \<le> i \<Longrightarrow> py_get xs i = (if i < int (length xs) then Inr (xs ! nat i) else Inl IndexError)"
  by (simp add: py_get_def py_index_nonneg)

lemma py_set_nonneg [py_simps]:
  "0 \<le> i \<Longrightarrow> py_set xs i v = (if i < int (length xs) then Inr (xs[nat i := v]) else Inl IndexError)"
  by (simp add: py_set_def py_index_nonneg)

lemma py_set_length:
  "py_set xs i v = Inr ys \<Longrightarrow> length ys = length xs"
  by (auto simp: py_set_Inr_iff)

lemma py_set_then_get:
  "py_set xs i v = Inr ys \<Longrightarrow> py_get ys i = Inr v"
proof -
  assume "py_set xs i v = Inr ys"
  then obtain j where j: "py_index (length xs) i = Some j" and ys: "ys = xs[j := v]"
    by (auto simp: py_set_Inr_iff)
  from j have "j < length xs" by (rule py_index_Some_less)
  with j ys show ?thesis by (simp add: py_get_def)
qed

lemma py_set_other:
  "py_set xs i v = Inr ys \<Longrightarrow> py_index (length xs) i \<noteq> Some k \<Longrightarrow> ys ! k = xs ! k"
  by (auto simp: py_set_Inr_iff)

lemma py_set_succeeds_iff:
  "(\<exists>ys. py_set xs i v = Inr ys) \<longleftrightarrow> (\<exists>x. py_get xs i = Inr x)"
  by (auto simp: py_set_def py_get_def split: option.splits)

section \<open>Lemmas on lists\<close>

lemma py_map_inverse: "(\<And>x. x \<in> set xs \<Longrightarrow> f (h x) = Inr x) \<Longrightarrow> py_map f (map h xs) = Inr xs"
  by (induction xs) auto

lemma py_map_length: "py_map f xs = Inr ys \<Longrightarrow> length ys = length xs"
  by (induction xs arbitrary: ys) (auto simp: py_simps)

lemma py_map_Inr: "(\<And>x. x \<in> set xs \<Longrightarrow> f x = Inr (g x)) \<Longrightarrow> py_map f xs = Inr (map g xs)"
  by (induction xs) auto

lemma list_all2_mem_right: "list_all2 R xs ys \<Longrightarrow> y \<in> set ys \<Longrightarrow> \<exists>x\<in>set xs. R x y"
  by (induction rule: list_all2_induct) auto

lemma count_list_distinct: "distinct xs \<Longrightarrow> count_list xs y = (if y \<in> set xs then 1 else 0)"
  by (induction xs) auto

lemma sum_list_ge_one:
  fixes f :: "'a \<Rightarrow> int"
  assumes "\<forall>x \<in> set xs. 1 \<le> f x"
  shows "int (length xs) \<le> sum_list (map f xs) \<and>
         (sum_list (map f xs) = int (length xs) \<longleftrightarrow> (\<forall>x \<in> set xs. f x = 1))"
  using assms by (induction xs) auto

lemma sum_list_update_group:
  fixes xs :: "'a::ab_group_add list"
  shows "k < length xs \<Longrightarrow> sum_list (xs[k := v]) = sum_list xs - xs ! k + v"
  by (induction xs arbitrary: k) (auto split: nat.splits)

lemma drop_Cons_props:
  "drop i es = e # rest \<Longrightarrow> i < length es \<and> es ! i = e \<and> drop (Suc i) es = rest"
proof -
  assume d: "drop i es = e # rest"
  then have i: "i < length es" by (metis drop_all list.distinct(1) not_le_imp_less)
  from Cons_nth_drop_Suc [OF i] d show ?thesis using i by simp
qed

lemma distinct_concat_filter:
  "distinct (concat xs) \<Longrightarrow> distinct (concat (filter P xs) @ concat (filter (\<lambda>x. \<not> P x) xs))"
  by (induction xs) auto

lemma distinct_map_set:
  "distinct (concat xs) \<Longrightarrow> \<forall>c \<in> set xs. c \<noteq> [] \<Longrightarrow> distinct (map set xs)"
proof (induction xs)
  case (Cons c xs)
  have "set c \<notin> set (map set xs)"
  proof
    assume "set c \<in> set (map set xs)"
    then obtain d where "d \<in> set xs" "set d = set c" by auto
    moreover from Cons.prems obtain x where "x \<in> set c" by (cases c) auto
    ultimately show False using Cons.prems(1) by auto
  qed
  with Cons show ?case by simp
qed simp

lemma py_map_ok:
  "(\<And>x. x \<in> set xs \<Longrightarrow> \<exists>y. f x = Inr y \<and> P y) \<Longrightarrow>
   \<exists>ys. py_map f xs = Inr ys \<and> length ys = length xs \<and> (\<forall>y \<in> set ys. P y)"
proof (induction xs)
  case (Cons x xs)
  then obtain y ys where "f x = Inr y" "P y" "py_map f xs = Inr ys" "length ys = length xs" "\<forall>y \<in> set ys. P y"
    by (metis list.set_intros)
  then show ?case by simp
qed simp

end
