(* ===== verification/Py_Text.thy ===== *)
theory Py_Text
  imports Elf_Prelude
begin

text \<open>
  The Python text primitives the scripts use on their inputs: decimal digits and the
  value of a digit string (\<open>is_digit\<close>, \<open>digits_value\<close>), \<^verbatim>\<open>str(n)\<close> of an int
  (\<open>py_str_int\<close>), \<^verbatim>\<open>s.split()\<close> on whitespace (\<open>py_split\<close>) and
  \<^verbatim>\<open>s.split(c)\<close> on a character (\<open>py_split_on\<close>),
  \<^verbatim>\<open>s.strip()\<close> and \<^verbatim>\<open>s.rstrip()\<close> (\<open>py_strip\<close>, \<open>py_rstrip\<close>) and \<^verbatim>\<open>int(s)\<close> (\<open>py_int\<close>). Characters are
  the ASCII ones; \<^verbatim>\<open>int\<close> also accepts Unicode digits and underscores between
  digits, which the repository's inputs do not contain and the model rejects with
  \<^verbatim>\<open>ValueError\<close>. The lemmas are the round trips the components use: \<^verbatim>\<open>int(str(n))\<close>
  is \<open>n\<close>, and splitting space-terminated words gives the words back.
\<close>

section \<open>Digits\<close>

definition is_digit :: "char \<Rightarrow> bool" where
  "is_digit c \<longleftrightarrow> (48::nat) \<le> of_char c \<and> of_char c \<le> (57::nat)"

definition digits_value :: "string \<Rightarrow> int" where
  "digits_value ds = foldl (\<lambda>n c. 10 * n + (of_char c - 48)) 0 ds"

fun nat_digits :: "nat \<Rightarrow> string" where
  "nat_digits n =
     (if n < 10 then [char_of (48 + n)] else nat_digits (n div 10) @ [char_of (48 + n mod 10)])"

definition py_str_int :: "int \<Rightarrow> string" where
  "py_str_int n = (if n < 0 then CHR ''-'' # nat_digits (nat (- n)) else nat_digits (nat n))"

text \<open>
  Whitespace as \<^verbatim>\<open>str.split()\<close> and \<^verbatim>\<open>str.strip()\<close> see it on ASCII: tab, line
  feed, vertical tab, form feed, carriage return, the four separators 28 to 31 and space.
\<close>

definition is_space :: "char \<Rightarrow> bool" where
  "is_space c \<longleftrightarrow> (9::nat) \<le> of_char c \<and> of_char c \<le> (13::nat) \<or> (28::nat) \<le> of_char c \<and> of_char c \<le> (32::nat)"

fun split_ws :: "string \<Rightarrow> string \<Rightarrow> string list" where
  "split_ws w [] = (if w = [] then [] else [rev w])"
| "split_ws w (c # cs) =
     (if is_space c then (if w = [] then split_ws [] cs else rev w # split_ws [] cs)
      else split_ws (c # w) cs)"

definition py_split :: "string \<Rightarrow> string list" where
  "py_split s = split_ws [] s"

text \<open>\<^verbatim>\<open>s.split(c)\<close> on one separator character: empty fields are kept.\<close>

fun split_sep :: "char \<Rightarrow> string \<Rightarrow> string \<Rightarrow> string list" where
  "split_sep c w [] = [rev w]"
| "split_sep c w (x # xs) = (if x = c then rev w # split_sep c [] xs else split_sep c (x # w) xs)"

definition py_split_on :: "char \<Rightarrow> string \<Rightarrow> string list" where
  "py_split_on c s = split_sep c [] s"

text \<open>\<^verbatim>\<open>c.join(ws)\<close> for a one-character separator.\<close>

fun py_join :: "char \<Rightarrow> string list \<Rightarrow> string" where
  "py_join c [] = []"
| "py_join c [w] = w"
| "py_join c (w # v # vs) = w @ c # py_join c (v # vs)"

definition py_strip :: "string \<Rightarrow> string" where
  "py_strip s = rev (dropWhile is_space (rev (dropWhile is_space s)))"

definition py_rstrip :: "string \<Rightarrow> string" where
  "py_rstrip s = rev (dropWhile is_space (rev s))"

definition py_int :: "string \<Rightarrow> int py_result" where
  "py_int s =
     (case py_strip s of
        [] \<Rightarrow> Inl ValueError
      | c # ds \<Rightarrow>
          if c = CHR ''-'' \<and> ds \<noteq> [] \<and> list_all is_digit ds then Inr (- digits_value ds)
          else if c = CHR ''+'' \<and> ds \<noteq> [] \<and> list_all is_digit ds then Inr (digits_value ds)
          else if list_all is_digit (c # ds) then Inr (digits_value (c # ds))
          else Inl ValueError)"

declare nat_digits.simps [simp del]

section \<open>Lemmas\<close>

lemma of_char_digit:
  assumes "(k::nat) < 10"
  shows "(of_char (char_of (48 + k)) :: 'a::comm_ring_1) = 48 + of_nat k"
proof -
  have "(of_char (char_of (48 + k)) :: nat) = 48 + k" using assms by simp
  then have "(of_nat (of_char (char_of (48 + k)) :: nat) :: 'a) = 48 + of_nat k" by simp
  then show ?thesis by (simp only: of_nat_of_char)
qed

lemma is_digit_char_of: "(k::nat) < 10 \<Longrightarrow> is_digit (char_of (48 + k))"
  by (simp add: is_digit_def of_char_digit)

lemma nat_digits_ne: "nat_digits n \<noteq> []"
  by (subst nat_digits.simps) simp

lemma nat_digits_digits: "\<forall>c \<in> set (nat_digits n). is_digit c"
proof (induction n rule: nat_digits.induct)
  case (1 n)
  then show ?case by (subst nat_digits.simps) (auto simp: is_digit_char_of)
qed

lemma digits_value_snoc: "digits_value (ds @ [c]) = 10 * digits_value ds + (of_char c - 48)"
  by (simp add: digits_value_def)

lemma digits_value_nat_digits: "digits_value (nat_digits n) = int n"
proof (induction n rule: nat_digits.induct)
  case (1 n)
  show ?case
  proof (cases "n < 10")
    case True
    then show ?thesis by (subst nat_digits.simps) (simp add: digits_value_def of_char_digit)
  next
    case False
    with "1.IH" have "digits_value (nat_digits (n div 10)) = int (n div 10)" by simp
    with False show ?thesis
      by (subst nat_digits.simps) (simp add: digits_value_snoc of_char_digit zdiv_int zmod_int)
  qed
qed

lemma py_str_int_nonneg: "0 \<le> n \<Longrightarrow> py_str_int n = nat_digits (nat n)"
  by (simp add: py_str_int_def)

lemma digit_not_space: "is_digit c \<Longrightarrow> \<not> is_space c"
  by (auto simp: is_digit_def is_space_def)

lemma dropWhile_none: "\<forall>c \<in> set xs. \<not> P c \<Longrightarrow> dropWhile P xs = xs"
  by (cases xs) auto

lemma py_strip_id:
  "\<forall>c \<in> set s. \<not> is_space c \<Longrightarrow> py_strip s = s"
  by (simp add: py_strip_def dropWhile_none)

lemma nat_digits_not_sign: "hd (nat_digits n) \<noteq> CHR ''-'' \<and> hd (nat_digits n) \<noteq> CHR ''+''"
proof -
  have "is_digit (hd (nat_digits n))" using nat_digits_digits nat_digits_ne hd_in_set by blast
  then show ?thesis by (auto simp: is_digit_def)
qed

lemma py_int_py_str_int: "py_int (py_str_int n) = Inr n"
proof -
  have sp: "\<forall>c \<in> set (nat_digits k). \<not> is_space c" for k
    using nat_digits_digits digit_not_space by blast
  have all: "list_all is_digit (nat_digits k)" for k
    using nat_digits_digits by (simp add: list_all_iff)
  show ?thesis
  proof (cases "n < 0")
    case True
    have eq: "py_str_int n = CHR ''-'' # nat_digits (nat (- n))"
      using True by (simp add: py_str_int_def)
    have "py_strip (py_str_int n) = py_str_int n"
      using sp by (intro py_strip_id) (simp add: eq is_space_def)
    with True eq show ?thesis
      by (simp add: py_int_def all nat_digits_ne digits_value_nat_digits)
  next
    case False
    obtain c ds where cds: "nat_digits (nat n) = c # ds"
      using nat_digits_ne by (cases "nat_digits (nat n)") auto
    from nat_digits_not_sign [of "nat n"] cds have "c \<noteq> CHR ''-''" "c \<noteq> CHR ''+''" by auto
    moreover have "py_str_int n = c # ds"
      using False cds by (simp add: py_str_int_def)
    moreover from this have "py_strip (py_str_int n) = c # ds"
      using sp [of "nat n"] cds by (simp add: py_strip_id)
    ultimately show ?thesis
      using False all [of "nat n"] digits_value_nat_digits [of "nat n"] cds
      by (simp add: py_int_def)
  qed
qed

lemma py_str_int_word: "py_str_int n \<noteq> [] \<and> (\<forall>c \<in> set (py_str_int n). \<not> is_space c)"
  using nat_digits_ne nat_digits_digits digit_not_space
  by (auto simp: py_str_int_def is_space_def)

lemma split_ws_word:
  "\<forall>c \<in> set w. \<not> is_space c \<Longrightarrow> split_ws acc (w @ rest) = split_ws (rev w @ acc) rest"
  by (induction w arbitrary: acc) auto

lemma py_split_words:
  "\<forall>w \<in> set ws. w \<noteq> [] \<and> (\<forall>c \<in> set w. \<not> is_space c) \<Longrightarrow>
   py_split (concat (map (\<lambda>w. w @ '' '') ws)) = ws"
proof (induction ws)
  case (Cons w ws)
  then have "split_ws [] (w @ CHR '' '' # concat (map (\<lambda>w. w @ '' '') ws)) = w # ws"
    by (simp add: split_ws_word is_space_def py_split_def)
  then show ?case by (simp add: py_split_def)
qed (simp add: py_split_def)

lemma split_sep_append:
  "c \<notin> set w \<Longrightarrow> split_sep c acc (w @ rest) = split_sep c (rev w @ acc) rest"
  by (induction w arbitrary: acc) auto

lemma py_split_on_join:
  "ws \<noteq> [] \<Longrightarrow> \<forall>w \<in> set ws. c \<notin> set w \<Longrightarrow> py_split_on c (py_join c ws) = ws"
proof (induction c ws rule: py_join.induct)
  case (2 c w)
  then show ?case using split_sep_append [of c w "[]" "[]"] by (simp add: py_split_on_def)
next
  case (3 c w v vs)
  then have "py_split_on c (py_join c (v # vs)) = v # vs" by simp
  with 3 show ?case
    using split_sep_append [of c w "[]" "c # py_join c (v # vs)"]
    by (simp add: py_split_on_def)
qed simp

end
