(* ===== verification/Elf_Instruction.thy ===== *)
theory Elf_Instruction
  imports Py_Text
begin

text \<open>
  The instruction component, \<^verbatim>\<open>src/elfsembly/instruction.py\<close>: the
  \<^verbatim>\<open>Instruction\<close> dataclass as the record \<open>instruction\<close>, its two class-level
  dictionaries \<^verbatim>\<open>str_to_int\<close> and \<^verbatim>\<open>int_to_str\<close> as association lists, the
  decoders \<^verbatim>\<open>Instruction.instruction_from_string\<close> (numeric form, day 16) and
  \<^verbatim>\<open>JumpInstruction.instruction_from_string\<close> (mnemonic form with the \<^verbatim>\<open>#ip\<close>
  directive, days 19 and 21), and the printer \<^verbatim>\<open>__str__\<close>. The helper
  \<^verbatim>\<open>number_grabber\<close> (\<^verbatim>\<open>re.findall(r"\d+", s)\<close> converted by \<^verbatim>\<open>int\<close>) is
  modelled on the character level. Its lemmas: the two tables are mutually inverse over
  the sixteen mnemonics, the printed form of an instruction parses back to its operands,
  and every decoding error is the exception the Python code raises.
\<close>

section \<open>The instruction record\<close>

text \<open>
  The dataclass fields are \<^verbatim>\<open>opcode\<close>, \<^verbatim>\<open>a\<close>, \<^verbatim>\<open>b\<close>, \<^verbatim>\<open>output\<close>, all
  defaulting to 0; they are named \<open>opcode\<close>, \<open>arg_a\<close>, \<open>arg_b\<close> and \<open>output_reg\<close> here so
  that they do not capture the variables \<open>a\<close> and \<open>b\<close> of every lemma.
\<close>

record instruction =
  opcode :: int
  arg_a :: int
  arg_b :: int
  output_reg :: int

definition default_instruction :: instruction where
  "default_instruction = \<lparr>opcode = 0, arg_a = 0, arg_b = 0, output_reg = 0\<rparr>"

section \<open>The mnemonic tables\<close>

definition str_to_int_table :: "(string \<times> int) list" where
  "str_to_int_table =
    [(''gtir'', 0), (''mulr'', 1), (''seti'', 2), (''gtrr'', 3),
     (''bori'', 4), (''borr'', 5), (''banr'', 6), (''eqri'', 7),
     (''bani'', 8), (''addr'', 9), (''addi'', 10), (''eqrr'', 11),
     (''gtri'', 12), (''eqir'', 13), (''setr'', 14), (''muli'', 15)]"

definition int_to_str_table :: "(int \<times> string) list" where
  "int_to_str_table =
    [(0, ''gtir''), (1, ''mulr''), (2, ''seti''), (3, ''gtrr''),
     (4, ''bori''), (5, ''borr''), (6, ''banr''), (7, ''eqri''),
     (8, ''bani''), (9, ''addr''), (10, ''addi''), (11, ''eqrr''),
     (12, ''gtri''), (13, ''eqir''), (14, ''setr''), (15, ''muli'')]"

definition str_to_int :: "string \<Rightarrow> int option" where
  "str_to_int s = map_of str_to_int_table s"

definition int_to_str :: "int \<Rightarrow> string option" where
  "int_to_str n = map_of int_to_str_table n"

section \<open>number_grabber\<close>

text \<open>
  \<^verbatim>\<open>[int(s) for s in re.findall(r"\d+", string)]\<close>: the maximal runs of decimal
  digits, left to right, each read as a non-negative integer. A minus sign is not a
  digit, so \<^verbatim>\<open>-5\<close> is read as \<open>5\<close>. The digits are the ASCII ones, which are the only
  digits of the repository's inputs.
\<close>

fun digit_runs :: "string \<Rightarrow> string \<Rightarrow> string list" where
  "digit_runs run [] = (if run = [] then [] else [rev run])"
| "digit_runs run (c # cs) =
     (if is_digit c then digit_runs (c # run) cs
      else if run = [] then digit_runs [] cs
      else rev run # digit_runs [] cs)"

definition number_grabber :: "string \<Rightarrow> int list" where
  "number_grabber s = map digits_value (digit_runs [] s)"

section \<open>Decoding\<close>

text \<open>
  \<^verbatim>\<open>Instruction(*number_grabber(string))\<close>: the numbers fill the fields positionally,
  missing ones keep their default 0, and more than four raise \<^verbatim>\<open>TypeError\<close>.
\<close>

fun instruction_of_args :: "int list \<Rightarrow> instruction py_result" where
  "instruction_of_args [] = Inr default_instruction"
| "instruction_of_args [op] = Inr (default_instruction\<lparr>opcode := op\<rparr>)"
| "instruction_of_args [op, x] = Inr (default_instruction\<lparr>opcode := op, arg_a := x\<rparr>)"
| "instruction_of_args [op, x, y] =
     Inr (default_instruction\<lparr>opcode := op, arg_a := x, arg_b := y\<rparr>)"
| "instruction_of_args [op, x, y, z] = Inr \<lparr>opcode = op, arg_a = x, arg_b = y, output_reg = z\<rparr>"
| "instruction_of_args _ = Inl TypeError"

definition instruction_from_string :: "string \<Rightarrow> instruction py_result" where
  "instruction_from_string s = instruction_of_args (number_grabber s)"

text \<open>
  A program read by the jump-capable device holds \<^verbatim>\<open>Instruction\<close> objects and
  \<^verbatim>\<open>JumpInstruction\<close> objects; the latter are a subclass that adds
  \<^verbatim>\<open>program_register\<close> and inherits the four instruction fields with their defaults.
  The device tells them apart by \<^verbatim>\<open>type(x) == JumpInstruction\<close>.
\<close>

datatype elf_line =
  Plain instruction
| Jump instruction int

fun line_instruction :: "elf_line \<Rightarrow> instruction" where
  "line_instruction (Plain i) = i"
| "line_instruction (Jump i r) = i"

definition is_jump_instruction :: "string \<Rightarrow> bool" where
  "is_jump_instruction line \<longleftrightarrow> take 3 line = ''#ip''"

definition jump_instruction_from_string :: "string \<Rightarrow> elf_line py_result" where
  "jump_instruction_from_string s =
     (if take 3 s = ''#ip''
      then py_bind (py_get (number_grabber s) 0) (\<lambda>r. Inr (Jump default_instruction r))
      else (case str_to_int (take 4 s) of
              None \<Rightarrow> Inl KeyError
            | Some op \<Rightarrow>
                (let numbers = number_grabber s
                 in py_bind (py_get numbers 0) (\<lambda>x.
                    py_bind (py_get numbers 1) (\<lambda>y.
                    py_bind (py_get numbers 2) (\<lambda>z.
                    Inr (Plain \<lparr>opcode = op, arg_a = x, arg_b = y, output_reg = z\<rparr>)))))))"

text \<open>
  The two \<^verbatim>\<open>instructions_from_file\<close> class methods, on the lines of the file: a
  list comprehension and a loop, both stopping at the first exception.
\<close>

fun instructions_from_lines :: "string list \<Rightarrow> instruction list py_result" where
  "instructions_from_lines [] = Inr []"
| "instructions_from_lines (l # ls) =
     py_bind (instruction_from_string l) (\<lambda>i.
     py_bind (instructions_from_lines ls) (\<lambda>is. Inr (i # is)))"

fun jump_instructions_from_lines :: "string list \<Rightarrow> elf_line list py_result" where
  "jump_instructions_from_lines [] = Inr []"
| "jump_instructions_from_lines (l # ls) =
     py_bind (jump_instruction_from_string l) (\<lambda>i.
     py_bind (jump_instructions_from_lines ls) (\<lambda>is. Inr (i # is)))"

section \<open>Printing\<close>

text \<open>
  \<^verbatim>\<open>str(n)\<close> of a Python int and the format \<^verbatim>\<open>{n:3d}\<close>: right-aligned in a field
  of width three, wider numbers printed in full.
\<close>

definition fmt_3d :: "int \<Rightarrow> string" where
  "fmt_3d n = replicate (3 - length (py_str_int n)) CHR '' '' @ py_str_int n"

definition instruction_str :: "instruction \<Rightarrow> string py_result" where
  "instruction_str i =
     (case int_to_str (opcode i) of
        None \<Rightarrow> Inl KeyError
      | Some m \<Rightarrow> Inr (''['' @ m @ '', a='' @ fmt_3d (arg_a i) @ '', b='' @ fmt_3d (arg_b i)
                       @ '', output='' @ fmt_3d (output_reg i) @ '']''))"

text \<open>
  The textual form of an executable line of an elf program (specification, section 6):
  the mnemonic and the three operands separated by single spaces. It is the input format
  of \<^verbatim>\<open>JumpInstruction.instruction_from_string\<close>, used to state its round trip.
\<close>

definition elf_text :: "string \<Rightarrow> int \<Rightarrow> int \<Rightarrow> int \<Rightarrow> string" where
  "elf_text m x y z = m @ '' '' @ py_str_int x @ '' '' @ py_str_int y @ '' '' @ py_str_int z"

section \<open>Lemmas: digits and digit runs\<close>

lemma digit_runs_skip: "\<forall>c \<in> set ws. \<not> is_digit c \<Longrightarrow> digit_runs [] (ws @ rest) = digit_runs [] rest"
  by (induction ws) auto

lemma digit_runs_digits:
  "\<forall>c \<in> set ds. is_digit c \<Longrightarrow> digit_runs run (ds @ rest) = digit_runs (rev ds @ run) rest"
  by (induction ds arbitrary: run) auto

lemma digit_runs_field:
  assumes "\<not> is_digit c"
  shows "digit_runs [] (nat_digits n @ c # rest) = nat_digits n # digit_runs [] rest"
  using assms nat_digits_ne digit_runs_digits [OF nat_digits_digits [of n], of "[]" "c # rest"]
  by (cases "nat_digits n") auto

lemma digit_runs_last:
  "digit_runs [] (nat_digits n) = [nat_digits n]"
  using nat_digits_ne digit_runs_digits [OF nat_digits_digits [of n], of "[]" "[]"] by simp

lemma fmt_3d_nonneg: "0 \<le> n \<Longrightarrow> fmt_3d n = replicate (3 - length (nat_digits (nat n))) CHR '' '' @ nat_digits (nat n)"
  by (simp add: fmt_3d_def py_str_int_def)

lemma spaces_not_digit: "\<forall>c \<in> set (replicate k CHR '' ''). \<not> is_digit c"
  by (simp add: is_digit_def)

lemma mnemonics_not_digit: "int_to_str n = Some m \<Longrightarrow> \<forall>c \<in> set m. \<not> is_digit c"
  by (auto simp: int_to_str_def int_to_str_table_def is_digit_def split: if_splits)

text \<open>
  C11. Printing then grabbing numbers is a round trip: the string \<^verbatim>\<open>__str__\<close> renders
  for an instruction with non-negative operands yields exactly its three operands
  \<open>[a, b, output]\<close> under \<^verbatim>\<open>number_grabber\<close>.
\<close>

theorem instruction_str_roundtrip:
  assumes "instruction_str i = Inr s"
    and "0 \<le> arg_a i" and "0 \<le> arg_b i" and "0 \<le> output_reg i"
  shows "number_grabber s = [arg_a i, arg_b i, output_reg i]"
proof -
  from assms(1) obtain m where m: "int_to_str (opcode i) = Some m"
    and s: "s = ''['' @ m @ '', a='' @ fmt_3d (arg_a i) @ '', b='' @ fmt_3d (arg_b i)
                       @ '', output='' @ fmt_3d (output_reg i) @ '']''"
    by (auto simp: instruction_str_def split: option.splits)
  have nd: "\<forall>c \<in> set m. \<not> is_digit c" using m by (rule mnemonics_not_digit)
  show ?thesis
    using assms(2-4) nd
    by (simp add: s number_grabber_def fmt_3d_nonneg digit_runs_skip spaces_not_digit
        digit_runs_field digits_value_nat_digits is_digit_def)
qed


section \<open>Lemmas: the tables and the decoders\<close>

lemma str_to_int_Some_iff: "str_to_int s = Some n \<longleftrightarrow> (s, n) \<in> set str_to_int_table"
  unfolding str_to_int_def by (rule map_of_eq_Some_iff) (simp add: str_to_int_table_def)

lemma int_to_str_Some_iff: "int_to_str n = Some s \<longleftrightarrow> (n, s) \<in> set int_to_str_table"
  unfolding int_to_str_def by (rule map_of_eq_Some_iff) (simp add: int_to_str_table_def)

lemma int_to_str_table_swap: "set int_to_str_table = (\<lambda>(s, n). (n, s)) ` set str_to_int_table"
  by (simp add: str_to_int_table_def int_to_str_table_def)

text \<open>
  The dictionaries \<^verbatim>\<open>str_to_int\<close> and \<^verbatim>\<open>int_to_str\<close> are inverse to each
  other: a mnemonic maps to a number exactly when that number maps back to the mnemonic.
\<close>

theorem mnemonic_tables_inverse: "str_to_int s = Some n \<longleftrightarrow> int_to_str n = Some s"
  by (auto simp: str_to_int_Some_iff int_to_str_Some_iff int_to_str_table_swap)

lemma str_to_int_shape:
  "str_to_int m = Some op \<Longrightarrow> length m = 4 \<and> take 3 m \<noteq> ''#ip'' \<and> (\<forall>c \<in> set m. \<not> is_digit c)"
  by (auto simp: str_to_int_Some_iff str_to_int_table_def is_digit_def)

text \<open>
  Decoding a mnemonic line is exact: for each of the sixteen mnemonics and
  non-negative operands, \<^verbatim>\<open>JumpInstruction.instruction_from_string\<close> returns the plain
  instruction with the mnemonic's opcode number and the three operands in order.
\<close>

theorem decode_mnemonic_line:
  assumes "str_to_int m = Some op" and "0 \<le> x" and "0 \<le> y" and "0 \<le> z"
  shows "jump_instruction_from_string (elf_text m x y z) =
           Inr (Plain \<lparr>opcode = op, arg_a = x, arg_b = y, output_reg = z\<rparr>)"
proof -
  from assms(1) have len: "length m = 4" and ip: "take 3 m \<noteq> ''#ip''"
    and nd: "\<forall>c \<in> set m. \<not> is_digit c" by (auto dest: str_to_int_shape)
  have "number_grabber (elf_text m x y z) = [x, y, z]"
    using assms(2-4) nd
    by (simp add: elf_text_def number_grabber_def py_str_int_nonneg digit_runs_skip
        digit_runs_field digit_runs_last digits_value_nat_digits is_digit_def)
  moreover have "take 3 (elf_text m x y z) = take 3 m" and "take 4 (elf_text m x y z) = m"
    using len by (simp_all add: elf_text_def)
  ultimately show ?thesis using assms(1) ip by (simp add: jump_instruction_from_string_def py_simps)
qed

text \<open>
  C13. The decoders fail exactly as the Python does: an unknown mnemonic raises
  \<^verbatim>\<open>KeyError\<close>; a directive without a number, or a mnemonic line with fewer than three
  numbers, raises \<^verbatim>\<open>IndexError\<close>; the numeric decoder raises \<^verbatim>\<open>TypeError\<close> on more
  than four numbers and never fails on four or fewer (missing fields stay 0).
\<close>

theorem decode_errors:
  "(take 3 s \<noteq> ''#ip'' \<and> str_to_int (take 4 s) = None \<longrightarrow> jump_instruction_from_string s = Inl KeyError) \<and>
   (take 3 s = ''#ip'' \<and> number_grabber s = [] \<longrightarrow> jump_instruction_from_string s = Inl IndexError) \<and>
   (take 3 s \<noteq> ''#ip'' \<and> str_to_int (take 4 s) \<noteq> None \<and> length (number_grabber s) < 3 \<longrightarrow>
      jump_instruction_from_string s = Inl IndexError) \<and>
   (4 < length (number_grabber s) \<longrightarrow> instruction_from_string s = Inl TypeError) \<and>
   (length (number_grabber s) \<le> 4 \<longrightarrow> (\<exists>i. instruction_from_string s = Inr i))"
proof (intro conjI impI)
  show "length (number_grabber s) \<le> 4 \<Longrightarrow> \<exists>i. instruction_from_string s = Inr i"
    unfolding instruction_from_string_def
    by (cases "number_grabber s" rule: instruction_of_args.cases) auto
  show "4 < length (number_grabber s) \<Longrightarrow> instruction_from_string s = Inl TypeError"
    unfolding instruction_from_string_def
    by (cases "number_grabber s" rule: instruction_of_args.cases) auto
qed (auto simp: jump_instruction_from_string_def py_get_def py_index_def Let_def split: option.splits)

lemmas decode_eval = jump_instruction_from_string_def number_grabber_def is_digit_def
  digits_value_def str_to_int_def str_to_int_table_def default_instruction_def

text \<open>
  \<^verbatim>\<open>number_grabber\<close> drops minus signs: the line \<^verbatim>\<open>addi 0 -1 0\<close> decodes
  with operand B equal to 1, not -1.
\<close>

theorem negative_operand_loses_sign:
  "jump_instruction_from_string ''addi 0 -1 0'' =
     Inr (Plain \<lparr>opcode = 10, arg_a = 0, arg_b = 1, output_reg = 0\<rparr>)"
  by (simp add: decode_eval py_simps)

lemma instruction_str_roundtrip_witness:
  "instruction_str \<lparr>opcode = 10, arg_a = 2, arg_b = 1, output_reg = 2\<rparr> = Inr ''[addi, a=  2, b=  1, output=  2]'' \<and>
   number_grabber ''[addi, a=  2, b=  1, output=  2]'' = [2, 1, 2]"
proof -
  have h: "instruction_str \<lparr>opcode = 10, arg_a = 2, arg_b = 1, output_reg = 2\<rparr> = Inr ''[addi, a=  2, b=  1, output=  2]''"
    by code_simp
  show ?thesis using instruction_str_roundtrip [OF h] h by simp
qed

lemma decode_mnemonic_line_witness:
  "str_to_int ''addi'' = Some 10 \<and>
   jump_instruction_from_string (elf_text ''addi'' 2 1 2) =
     Inr (Plain \<lparr>opcode = 10, arg_a = 2, arg_b = 1, output_reg = 2\<rparr>)"
proof -
  have h: "str_to_int ''addi'' = Some 10" by (simp add: str_to_int_def str_to_int_table_def)
  show ?thesis using decode_mnemonic_line [OF h, of 2 1 2] h by simp
qed

lemma decode_errors_witness:
  "jump_instruction_from_string ''addx 1 2 3'' = Inl KeyError"
proof -
  have "take 3 ''addx 1 2 3'' \<noteq> ''#ip'' \<and> str_to_int (take 4 ''addx 1 2 3'') = None"
    by (simp add: str_to_int_def str_to_int_table_def)
  then show ?thesis using decode_errors [of "''addx 1 2 3''"] by blast
qed

end
