(* ===== verification/Elf_Device.thy ===== *)
theory Elf_Device
  imports Elf_Instruction
begin

unbundle bit_operations_syntax

text \<open>
  The base register machine, class \<^verbatim>\<open>ChronalDevice\<close> of
  \<^verbatim>\<open>src/elfsembly/device.py\<close>. Its state is the record \<open>device\<close>: the register list
  and the class attribute \<^verbatim>\<open>ChronalDevice.MAX\<close> (field \<open>MAX_modulus\<close>), the optional modulus applied by
  \<^verbatim>\<open>set_register\<close> (\<open>None\<close> or \<open>Some 0\<close> disable it, as \<^verbatim>\<open>not MAX\<close> does).
  All operations are stated over \<open>'a device_scheme\<close>, so that they apply unchanged to
  the jump-capable device of \<open>Elf_Jump_Device\<close>, which extends the record as
  \<^verbatim>\<open>ChronalDeviceWithJumps\<close> extends the class. Each of the sixteen opcode methods
  is one definition; \<^verbatim>\<open>opcode_map\<close> is the dictionary from opcode numbers to method
  names (the datatype \<open>opname\<close>), and \<open>execute\<close> dispatches through it.
  Python ints are unbounded, so registers hold \<open>int\<close>; \<^verbatim>\<open>&\<close> and \<^verbatim>\<open>|\<close> are the
  two's complement \<open>AND\<close> and \<open>OR\<close> on \<open>int\<close>, and \<^verbatim>\<open>%\<close> is \<open>mod\<close>.
\<close>

section \<open>State\<close>

record device =
  registers :: "int list"
  MAX_modulus :: "int option"

definition chronal_device :: "int option \<Rightarrow> device" where
  "chronal_device mx = \<lparr>registers = replicate 4 0, MAX_modulus = mx\<rparr>"

datatype opname =
  Addr | Addi | Mulr | Muli | Banr | Bani | Borr | Bori
| Setr | Seti | Gtir | Gtri | Gtrr | Eqir | Eqri | Eqrr

definition opcode_map_table :: "(int \<times> opname) list" where
  "opcode_map_table =
    [(0, Gtir), (1, Mulr), (2, Seti), (3, Gtrr), (4, Bori), (5, Borr), (6, Banr), (7, Eqri),
     (8, Bani), (9, Addr), (10, Addi), (11, Eqrr), (12, Gtri), (13, Eqir), (14, Setr),
     (15, Muli)]"

definition opcode_map :: "int \<Rightarrow> opname option" where
  "opcode_map n = map_of opcode_map_table n"

section \<open>Register writes\<close>

definition wrap_max :: "int option \<Rightarrow> int \<Rightarrow> int" where
  "wrap_max mx v = (case mx of None \<Rightarrow> v | Some m \<Rightarrow> if m = 0 then v else v mod m)"

definition set_register :: "'a device_scheme \<Rightarrow> int \<Rightarrow> int \<Rightarrow> 'a device_scheme py_result" where
  "set_register d r v =
     py_bind (py_set (registers d) r (wrap_max (MAX_modulus d) v)) (\<lambda>rs. Inr (d\<lparr>registers := rs\<rparr>))"

section \<open>The sixteen opcode methods\<close>

definition addr :: "'a device_scheme \<Rightarrow> instruction \<Rightarrow> 'a device_scheme py_result" where
  "addr d i =
     py_bind (py_get (registers d) (arg_a i)) (\<lambda>x.
     py_bind (py_get (registers d) (arg_b i)) (\<lambda>y. set_register d (output_reg i) (x + y)))"

definition addi :: "'a device_scheme \<Rightarrow> instruction \<Rightarrow> 'a device_scheme py_result" where
  "addi d i = py_bind (py_get (registers d) (arg_a i)) (\<lambda>x. set_register d (output_reg i) (x + arg_b i))"

definition mulr :: "'a device_scheme \<Rightarrow> instruction \<Rightarrow> 'a device_scheme py_result" where
  "mulr d i =
     py_bind (py_get (registers d) (arg_a i)) (\<lambda>x.
     py_bind (py_get (registers d) (arg_b i)) (\<lambda>y. set_register d (output_reg i) (x * y)))"

definition muli :: "'a device_scheme \<Rightarrow> instruction \<Rightarrow> 'a device_scheme py_result" where
  "muli d i = py_bind (py_get (registers d) (arg_a i)) (\<lambda>x. set_register d (output_reg i) (x * arg_b i))"

definition banr :: "'a device_scheme \<Rightarrow> instruction \<Rightarrow> 'a device_scheme py_result" where
  "banr d i =
     py_bind (py_get (registers d) (arg_a i)) (\<lambda>x.
     py_bind (py_get (registers d) (arg_b i)) (\<lambda>y. set_register d (output_reg i) (x AND y)))"

definition bani :: "'a device_scheme \<Rightarrow> instruction \<Rightarrow> 'a device_scheme py_result" where
  "bani d i = py_bind (py_get (registers d) (arg_a i)) (\<lambda>x. set_register d (output_reg i) (x AND arg_b i))"

definition borr :: "'a device_scheme \<Rightarrow> instruction \<Rightarrow> 'a device_scheme py_result" where
  "borr d i =
     py_bind (py_get (registers d) (arg_a i)) (\<lambda>x.
     py_bind (py_get (registers d) (arg_b i)) (\<lambda>y. set_register d (output_reg i) (x OR y)))"

definition bori :: "'a device_scheme \<Rightarrow> instruction \<Rightarrow> 'a device_scheme py_result" where
  "bori d i = py_bind (py_get (registers d) (arg_a i)) (\<lambda>x. set_register d (output_reg i) (x OR arg_b i))"

definition setr :: "'a device_scheme \<Rightarrow> instruction \<Rightarrow> 'a device_scheme py_result" where
  "setr d i = py_bind (py_get (registers d) (arg_a i)) (\<lambda>x. set_register d (output_reg i) x)"

definition seti :: "'a device_scheme \<Rightarrow> instruction \<Rightarrow> 'a device_scheme py_result" where
  "seti d i = set_register d (output_reg i) (arg_a i)"

definition gtir :: "'a device_scheme \<Rightarrow> instruction \<Rightarrow> 'a device_scheme py_result" where
  "gtir d i =
     py_bind (py_get (registers d) (arg_b i)) (\<lambda>y.
       if arg_a i > y then set_register d (output_reg i) 1 else set_register d (output_reg i) 0)"

definition gtri :: "'a device_scheme \<Rightarrow> instruction \<Rightarrow> 'a device_scheme py_result" where
  "gtri d i =
     py_bind (py_get (registers d) (arg_a i)) (\<lambda>x.
       if x > arg_b i then set_register d (output_reg i) 1 else set_register d (output_reg i) 0)"

definition gtrr :: "'a device_scheme \<Rightarrow> instruction \<Rightarrow> 'a device_scheme py_result" where
  "gtrr d i =
     py_bind (py_get (registers d) (arg_a i)) (\<lambda>x.
     py_bind (py_get (registers d) (arg_b i)) (\<lambda>y.
       if x > y then set_register d (output_reg i) 1 else set_register d (output_reg i) 0))"

definition eqir :: "'a device_scheme \<Rightarrow> instruction \<Rightarrow> 'a device_scheme py_result" where
  "eqir d i =
     py_bind (py_get (registers d) (arg_b i)) (\<lambda>y.
       if arg_a i = y then set_register d (output_reg i) 1 else set_register d (output_reg i) 0)"

definition eqri :: "'a device_scheme \<Rightarrow> instruction \<Rightarrow> 'a device_scheme py_result" where
  "eqri d i =
     py_bind (py_get (registers d) (arg_a i)) (\<lambda>x.
       if x = arg_b i then set_register d (output_reg i) 1 else set_register d (output_reg i) 0)"

definition eqrr :: "'a device_scheme \<Rightarrow> instruction \<Rightarrow> 'a device_scheme py_result" where
  "eqrr d i =
     py_bind (py_get (registers d) (arg_a i)) (\<lambda>x.
     py_bind (py_get (registers d) (arg_b i)) (\<lambda>y.
       if x = y then set_register d (output_reg i) 1 else set_register d (output_reg i) 0))"

section \<open>Dispatch and execution\<close>

text \<open>The bound method each \<open>opname\<close> stands for.\<close>

fun method_of :: "opname \<Rightarrow> 'a device_scheme \<Rightarrow> instruction \<Rightarrow> 'a device_scheme py_result" where
  "method_of Addr = addr" | "method_of Addi = addi"
| "method_of Mulr = mulr" | "method_of Muli = muli"
| "method_of Banr = banr" | "method_of Bani = bani"
| "method_of Borr = borr" | "method_of Bori = bori"
| "method_of Setr = setr" | "method_of Seti = seti"
| "method_of Gtir = gtir" | "method_of Gtri = gtri" | "method_of Gtrr = gtrr"
| "method_of Eqir = eqir" | "method_of Eqri = eqri" | "method_of Eqrr = eqrr"

text \<open>The \<^verbatim>\<open>__name__\<close> of each method, which day 16 collects as its guesses.\<close>

fun method_name :: "opname \<Rightarrow> string" where
  "method_name Addr = ''addr''" | "method_name Addi = ''addi''"
| "method_name Mulr = ''mulr''" | "method_name Muli = ''muli''"
| "method_name Banr = ''banr''" | "method_name Bani = ''bani''"
| "method_name Borr = ''borr''" | "method_name Bori = ''bori''"
| "method_name Setr = ''setr''" | "method_name Seti = ''seti''"
| "method_name Gtir = ''gtir''" | "method_name Gtri = ''gtri''" | "method_name Gtrr = ''gtrr''"
| "method_name Eqir = ''eqir''" | "method_name Eqri = ''eqri''" | "method_name Eqrr = ''eqrr''"

definition execute :: "'a device_scheme \<Rightarrow> instruction \<Rightarrow> 'a device_scheme py_result" where
  "execute d i = (case opcode_map (opcode i) of None \<Rightarrow> Inl KeyError | Some m \<Rightarrow> method_of m d i)"

fun execute_instructions :: "'a device_scheme \<Rightarrow> instruction list \<Rightarrow> 'a device_scheme run_result" where
  "execute_instructions d [] = Completed d"
| "execute_instructions d (i # ins) =
     (case execute d i of Inl e \<Rightarrow> Failed e d | Inr d' \<Rightarrow> execute_instructions d' ins)"

section \<open>The opcode table of the specification\<close>

text \<open>
  The abstract contract of the sixteen opcodes: seven families, each reading operand A
  and (except the two assignments) operand B as a register or an immediate, and writing
  one result to register C. \<open>opcode_spec\<close> is this table read as a program; the lemma
  \<open>method_of_spec\<close> below shows that every hand-written method implements its row.
\<close>

datatype operand_kind = Reg | Imm

fun operand_kinds :: "opname \<Rightarrow> operand_kind \<times> operand_kind option" where
  "operand_kinds Addr = (Reg, Some Reg)" | "operand_kinds Addi = (Reg, Some Imm)"
| "operand_kinds Mulr = (Reg, Some Reg)" | "operand_kinds Muli = (Reg, Some Imm)"
| "operand_kinds Banr = (Reg, Some Reg)" | "operand_kinds Bani = (Reg, Some Imm)"
| "operand_kinds Borr = (Reg, Some Reg)" | "operand_kinds Bori = (Reg, Some Imm)"
| "operand_kinds Setr = (Reg, None)" | "operand_kinds Seti = (Imm, None)"
| "operand_kinds Gtir = (Imm, Some Reg)" | "operand_kinds Gtri = (Reg, Some Imm)"
| "operand_kinds Gtrr = (Reg, Some Reg)"
| "operand_kinds Eqir = (Imm, Some Reg)" | "operand_kinds Eqri = (Reg, Some Imm)"
| "operand_kinds Eqrr = (Reg, Some Reg)"

fun op_result :: "opname \<Rightarrow> int \<Rightarrow> int \<Rightarrow> int" where
  "op_result Addr x y = x + y" | "op_result Addi x y = x + y"
| "op_result Mulr x y = x * y" | "op_result Muli x y = x * y"
| "op_result Banr x y = x AND y" | "op_result Bani x y = x AND y"
| "op_result Borr x y = x OR y" | "op_result Bori x y = x OR y"
| "op_result Setr x y = x" | "op_result Seti x y = x"
| "op_result Gtir x y = (if x > y then 1 else 0)"
| "op_result Gtri x y = (if x > y then 1 else 0)"
| "op_result Gtrr x y = (if x > y then 1 else 0)"
| "op_result Eqir x y = (if x = y then 1 else 0)"
| "op_result Eqri x y = (if x = y then 1 else 0)"
| "op_result Eqrr x y = (if x = y then 1 else 0)"

fun fetch_operand :: "int list \<Rightarrow> operand_kind \<Rightarrow> int \<Rightarrow> int py_result" where
  "fetch_operand regs Reg v = py_get regs v"
| "fetch_operand regs Imm v = Inr v"

fun fetch_b :: "int list \<Rightarrow> operand_kind option \<Rightarrow> int \<Rightarrow> int py_result" where
  "fetch_b regs None v = Inr 0"
| "fetch_b regs (Some k) v = fetch_operand regs k v"

definition opcode_spec :: "opname \<Rightarrow> 'a device_scheme \<Rightarrow> instruction \<Rightarrow> 'a device_scheme py_result" where
  "opcode_spec m d i =
     py_bind (fetch_operand (registers d) (fst (operand_kinds m)) (arg_a i)) (\<lambda>x.
     py_bind (fetch_b (registers d) (snd (operand_kinds m)) (arg_b i)) (\<lambda>y.
     set_register d (output_reg i) (op_result m x y)))"

definition comparison_op :: "opname \<Rightarrow> bool" where
  "comparison_op m \<longleftrightarrow> m \<in> {Gtir, Gtri, Gtrr, Eqir, Eqri, Eqrr}"

section \<open>Lemmas: the methods implement the table\<close>

lemma set_register_if: "(if c then set_register d r 1 else set_register d r 0) = set_register d r (if c then 1 else 0)"
  by simp

lemma method_of_spec: "method_of m d i = opcode_spec m d i"
  by (cases m)
     (simp_all add: opcode_spec_def addr_def addi_def mulr_def muli_def banr_def bani_def
       borr_def bori_def setr_def seti_def gtir_def gtri_def gtrr_def eqir_def eqri_def eqrr_def
       set_register_if)

lemma set_register_Inr_iff:
  "set_register d r v = Inr d' \<longleftrightarrow>
   (\<exists>rs. py_set (registers d) r (wrap_max (MAX_modulus d) v) = Inr rs \<and> d' = d\<lparr>registers := rs\<rparr>)"
  by (cases "py_set (registers d) r (wrap_max (MAX_modulus d) v)") (auto simp: set_register_def)

lemma set_register_Inl_iff:
  "set_register d r v = Inl e \<longleftrightarrow> e = IndexError \<and> py_index (length (registers d)) r = None"
  by (cases "py_set (registers d) r (wrap_max (MAX_modulus d) v)")
     (auto simp: set_register_def py_set_Inl_iff py_set_def split: option.splits)

lemma execute_Inr_iff:
  "execute d i = Inr d' \<longleftrightarrow>
   (\<exists>m x y. opcode_map (opcode i) = Some m \<and>
      fetch_operand (registers d) (fst (operand_kinds m)) (arg_a i) = Inr x \<and>
      fetch_b (registers d) (snd (operand_kinds m)) (arg_b i) = Inr y \<and>
      set_register d (output_reg i) (op_result m x y) = Inr d')"
  by (auto simp: execute_def method_of_spec opcode_spec_def py_simps split: option.splits)

lemma fetch_operand_Inl_iff:
  "fetch_operand regs k v = Inl e \<longleftrightarrow> k = Reg \<and> e = IndexError \<and> py_index (length regs) v = None"
  by (cases k) (auto simp: py_get_Inl_iff)

lemma fetch_b_Inl_iff:
  "fetch_b regs k v = Inl e \<longleftrightarrow> k = Some Reg \<and> e = IndexError \<and> py_index (length regs) v = None"
  by (cases k) (auto simp: fetch_operand_Inl_iff)

lemma fetch_operand_ok:
  "(\<exists>x. fetch_operand regs k v = Inr x) \<longleftrightarrow> \<not> (k = Reg \<and> py_index (length regs) v = None)"
  by (cases k) (auto simp: py_get_def split: option.splits)

lemma fetch_b_ok:
  "(\<exists>y. fetch_b regs k v = Inr y) \<longleftrightarrow> \<not> (k = Some Reg \<and> py_index (length regs) v = None)"
  by (cases k) (simp_all add: fetch_operand_ok)

lemma execute_registers_only:
  "execute d i = Inr d' \<Longrightarrow> \<exists>rs. d' = d\<lparr>registers := rs\<rparr>"
  by (auto simp: execute_Inr_iff set_register_Inr_iff)

lemma execute_length:
  "execute d i = Inr d' \<Longrightarrow> length (registers d') = length (registers d)"
  by (auto simp: execute_Inr_iff set_register_Inr_iff dest: py_set_length)

text \<open>
  C3. \<^verbatim>\<open>execute\<close> implements the opcode table: an opcode number outside
  \<^verbatim>\<open>opcode_map\<close> raises \<^verbatim>\<open>KeyError\<close>, and any other instruction behaves as
  the table row of its method: read operand A, read operand B unless ignored, write the
  family's result to register C through \<^verbatim>\<open>set_register\<close>.
\<close>

theorem execute_refines_spec:
  "execute d i = (case opcode_map (opcode i) of None \<Rightarrow> Inl KeyError | Some m \<Rightarrow> opcode_spec m d i)"
  unfolding execute_def method_of_spec by (rule refl)

lemma opcode_map_Some_iff: "opcode_map n = Some m \<longleftrightarrow> (n, m) \<in> set opcode_map_table"
  unfolding opcode_map_def by (rule map_of_eq_Some_iff) (simp add: opcode_map_table_def)

lemma method_name_inj: "inj method_name"
proof (rule injI)
  fix m m' show "method_name m = method_name m' \<Longrightarrow> m = m'" by (cases m; cases m') simp_all
qed

lemmas execute_eval = execute_def opcode_map_def opcode_map_table_def
  addr_def addi_def mulr_def muli_def banr_def bani_def borr_def bori_def setr_def seti_def
  gtir_def gtri_def gtrr_def eqir_def eqri_def eqrr_def set_register_def wrap_max_def

lemma opcode_spec_Inl_iff:
  "opcode_spec m d i = Inl e \<longleftrightarrow> e = IndexError \<and>
     ((fst (operand_kinds m) = Reg \<and> py_index (length (registers d)) (arg_a i) = None) \<or>
      (snd (operand_kinds m) = Some Reg \<and> py_index (length (registers d)) (arg_b i) = None) \<or>
      py_index (length (registers d)) (output_reg i) = None)"
proof -
  let ?fa = "fetch_operand (registers d) (fst (operand_kinds m)) (arg_a i)"
  let ?fb = "fetch_b (registers d) (snd (operand_kinds m)) (arg_b i)"
  show ?thesis
  proof (cases ?fa)
    case (Inl ea)
    then have "opcode_spec m d i = Inl ea" by (simp add: opcode_spec_def)
    with Inl show ?thesis by (auto simp: fetch_operand_Inl_iff simp del: fetch_operand.simps)
  next
    case (Inr x)
    then have a_ok: "\<not> (fst (operand_kinds m) = Reg \<and> py_index (length (registers d)) (arg_a i) = None)"
      using fetch_operand_ok by blast
    show ?thesis
    proof (cases ?fb)
      case (Inl eb)
      with Inr have "opcode_spec m d i = Inl eb" by (simp add: opcode_spec_def)
      with Inl a_ok show ?thesis by (auto simp: fetch_b_Inl_iff simp del: fetch_b.simps)
    next
      case (Inr y)
      then have "\<not> (snd (operand_kinds m) = Some Reg \<and> py_index (length (registers d)) (arg_b i) = None)"
        using fetch_b_ok by blast
      with Inr \<open>?fa = Inr x\<close> a_ok show ?thesis
        by (auto simp: opcode_spec_def set_register_Inl_iff simp del: fetch_operand.simps fetch_b.simps)
    qed
  qed
qed

text \<open>
  C5. \<^verbatim>\<open>execute\<close> fails exactly in two ways: \<^verbatim>\<open>KeyError\<close> when the opcode
  number has no method, and \<^verbatim>\<open>IndexError\<close> when a register operand it reads, or the
  output register, is outside \<open>[-len, len)\<close>. A failed instruction writes nothing:
  the result carries no new state, and \<open>execute_instructions\<close> keeps the old one.
\<close>

theorem execute_error:
  "execute d i = Inl e \<longleftrightarrow>
     (opcode_map (opcode i) = None \<and> e = KeyError) \<or>
     (\<exists>m. opcode_map (opcode i) = Some m \<and> e = IndexError \<and>
        ((fst (operand_kinds m) = Reg \<and> py_index (length (registers d)) (arg_a i) = None) \<or>
         (snd (operand_kinds m) = Some Reg \<and> py_index (length (registers d)) (arg_b i) = None) \<or>
         py_index (length (registers d)) (output_reg i) = None))"
  by (cases "opcode_map (opcode i)") (auto simp: execute_def method_of_spec opcode_spec_Inl_iff)


lemma set_register_value:
  "set_register d r v = Inr d' \<Longrightarrow> py_get (registers d') r = Inr (wrap_max (MAX_modulus d) v)"
  by (auto simp: set_register_Inr_iff dest: py_set_then_get)

text \<open>
  C4. An instruction changes only its output register: after a successful
  \<^verbatim>\<open>execute\<close> the device differs from the old one only in its register list, which
  has the same length and the same value at every position other than the one
  \<open>output\<close> resolves to.
\<close>

theorem execute_frame:
  assumes "execute d i = Inr d'"
  shows "\<exists>rs. d' = d\<lparr>registers := rs\<rparr> \<and> length rs = length (registers d) \<and>
           (\<forall>k. py_index (length (registers d)) (output_reg i) \<noteq> Some k \<longrightarrow> rs ! k = registers d ! k)"
  using assms by (auto simp: execute_Inr_iff set_register_Inr_iff dest: py_set_length py_set_other)

text \<open>
  The six comparison opcodes write 0 or 1 to their output register, when the
  modulus \<^verbatim>\<open>MAX\<close> is unset, zero or greater than one.
\<close>

theorem comparison_writes_bool:
  assumes "execute d i = Inr d'" and "opcode_map (opcode i) = Some m" and "comparison_op m"
    and "MAX_modulus d = None \<or> MAX_modulus d = Some 0 \<or> (\<exists>k. MAX_modulus d = Some k \<and> 1 < k)"
  shows "py_get (registers d') (output_reg i) = Inr 0 \<or> py_get (registers d') (output_reg i) = Inr 1"
proof -
  from assms(1,2) obtain x y where set: "set_register d (output_reg i) (op_result m x y) = Inr d'"
    by (auto simp: execute_Inr_iff)
  from assms(3) have "op_result m x y \<in> {0, 1}"
    by (auto simp: comparison_op_def)
  with assms(4) have "wrap_max (MAX_modulus d) (op_result m x y) \<in> {0, 1}"
    by (auto simp: wrap_max_def)
  with set_register_value [OF set] show ?thesis by auto
qed

text \<open>
  \<^verbatim>\<open>setr\<close> and \<^verbatim>\<open>seti\<close> ignore operand B: changing B changes neither the
  result nor the error.
\<close>

theorem set_ignores_b:
  assumes "opcode_map (opcode i) = Some Setr \<or> opcode_map (opcode i) = Some Seti"
  shows "execute d (i\<lparr>arg_b := v\<rparr>) = execute d i"
  using assms unfolding execute_def method_of_spec by (auto simp: opcode_spec_def)

lemma execute_instructions_append:
  "execute_instructions d (xs @ ys) =
     (case execute_instructions d xs of Completed d' \<Rightarrow> execute_instructions d' ys | Failed e d' \<Rightarrow> Failed e d')"
  by (induction xs arbitrary: d) (auto split: sum.splits)

text \<open>
  C12. When \<^verbatim>\<open>ChronalDevice.execute_instructions\<close> raises, the device holds exactly
  the state reached by the instructions before the failing one, and that instruction
  raised the exception from that state.
\<close>

theorem execute_instructions_failure:
  assumes "execute_instructions d ins = Failed e d'"
  shows "\<exists>pre i post. ins = pre @ i # post \<and> execute_instructions d pre = Completed d' \<and> execute d' i = Inl e"
  using assms
proof (induction ins arbitrary: d)
  case Nil
  then show ?case by simp
next
  case (Cons i ins)
  show ?case
  proof (cases "execute d i")
    case (Inl e')
    with Cons.prems show ?thesis by (intro exI [of _ "[]"]) auto
  next
    case (Inr d1)
    with Cons.prems have "execute_instructions d1 ins = Failed e d'" by simp
    then obtain pre j post where "ins = pre @ j # post" "execute_instructions d1 pre = Completed d'"
        "execute d' j = Inl e"
      using Cons.IH by blast
    with Inr show ?thesis by (intro exI [of _ "i # pre"]) auto
  qed
qed

text \<open>
  With a positive modulus \<^verbatim>\<open>MAX\<close>, \<^verbatim>\<open>set_register\<close> stores the value
  reduced into \<open>[0, MAX)\<close>, Python's \<^verbatim>\<open>%\<close> on a positive divisor.
\<close>

theorem set_register_modulus_bounds:
  assumes "set_register d r v = Inr d'" and "MAX_modulus d = Some m" and "0 < m"
  shows "py_get (registers d') r = Inr (v mod m) \<and> 0 \<le> v mod m \<and> v mod m < m"
  using set_register_value [OF assms(1)] assms(2,3) by (simp add: wrap_max_def)

text \<open>
  With a negative modulus the comparisons leave \<open>{0, 1}\<close>: under
  \<^verbatim>\<open>MAX = -2\<close>, \<^verbatim>\<open>eqrr\<close> of two equal registers writes \<open>1 mod -2 = -1\<close>.
\<close>

theorem comparison_negative_modulus:
  "execute \<lparr>registers = [1, 0], MAX_modulus = Some (-2)\<rparr> \<lparr>opcode = 11, arg_a = 0, arg_b = 0, output_reg = 1\<rparr>
   = Inr \<lparr>registers = [1, -1], MAX_modulus = Some (-2)\<rparr>"
  by (simp add: execute_eval py_simps)

lemma execute_frame_witness:
  "execute \<lparr>registers = [3, 2, 1, 1], MAX_modulus = None\<rparr> \<lparr>opcode = 10, arg_a = 2, arg_b = 1, output_reg = 2\<rparr>
     = Inr \<lparr>registers = [3, 2, 2, 1], MAX_modulus = None\<rparr> \<and>
   (\<exists>rs. \<lparr>registers = [3, 2, 2, 1], MAX_modulus = None\<rparr> = \<lparr>registers = [3, 2, 1, 1], MAX_modulus = None\<rparr>\<lparr>registers := rs\<rparr> \<and>
      length rs = length (registers \<lparr>registers = [3, 2, 1, 1], MAX_modulus = None\<rparr>) \<and>
      (\<forall>k. py_index (length (registers \<lparr>registers = [3, 2, 1, 1], MAX_modulus = None\<rparr>))
               (output_reg \<lparr>opcode = 10, arg_a = 2, arg_b = 1, output_reg = 2\<rparr>) \<noteq> Some k \<longrightarrow>
           rs ! k = registers \<lparr>registers = [3, 2, 1, 1], MAX_modulus = None\<rparr> ! k))"
proof -
  have h: "execute \<lparr>registers = [3, 2, 1, 1], MAX_modulus = None\<rparr> \<lparr>opcode = 10, arg_a = 2, arg_b = 1, output_reg = 2\<rparr>
     = Inr \<lparr>registers = [3, 2, 2, 1], MAX_modulus = None\<rparr>"
    by (simp add: execute_eval py_simps)
  show ?thesis by (rule conjI [OF h execute_frame [OF h]])
qed

lemma execute_error_witness:
  "execute \<lparr>registers = [0, 0, 0, 0, 0, 0], MAX_modulus = None\<rparr> \<lparr>opcode = 10, arg_a = 99, arg_b = 1, output_reg = 2\<rparr>
     = Inl IndexError"
proof -
  show ?thesis using execute_error [of "\<lparr>registers = [0, 0, 0, 0, 0, 0], MAX_modulus = None\<rparr>"
      "\<lparr>opcode = 10, arg_a = 99, arg_b = 1, output_reg = 2\<rparr>" IndexError]
    by (simp add: opcode_map_def opcode_map_table_def py_index_def)
qed

lemma comparison_writes_bool_witness:
  "execute \<lparr>registers = [3, 2, 1, 1], MAX_modulus = None\<rparr> \<lparr>opcode = 3, arg_a = 0, arg_b = 1, output_reg = 2\<rparr>
     = Inr \<lparr>registers = [3, 2, 1, 1], MAX_modulus = None\<rparr> \<and>
   (py_get [3, 2, 1, 1] 2 = Inr (0::int) \<or> py_get [3, 2, 1, 1] 2 = Inr (1::int))"
proof -
  have h: "execute \<lparr>registers = [3, 2, 1, 1], MAX_modulus = None\<rparr> \<lparr>opcode = 3, arg_a = 0, arg_b = 1, output_reg = 2\<rparr>
     = Inr \<lparr>registers = [3, 2, 1, 1], MAX_modulus = None\<rparr>"
    by (simp add: execute_eval py_simps)
  have m: "opcode_map 3 = Some Gtrr" by (simp add: opcode_map_def opcode_map_table_def)
  have c: "comparison_op Gtrr" by (simp add: comparison_op_def)
  show ?thesis using comparison_writes_bool [OF h _ c] h m by simp
qed

lemma set_ignores_b_witness:
  "execute \<lparr>registers = [3, 2, 1, 1], MAX_modulus = None\<rparr> \<lparr>opcode = 2, arg_a = 7, arg_b = 99, output_reg = 0\<rparr>
     = execute \<lparr>registers = [3, 2, 1, 1], MAX_modulus = None\<rparr> \<lparr>opcode = 2, arg_a = 7, arg_b = 0, output_reg = 0\<rparr>"
proof -
  have "opcode_map 2 = Some Seti" by (simp add: opcode_map_def opcode_map_table_def)
  then show ?thesis
    using set_ignores_b [of "\<lparr>opcode = 2, arg_a = 7, arg_b = 0, output_reg = 0\<rparr>"
        "\<lparr>registers = [3, 2, 1, 1], MAX_modulus = None\<rparr>" 99] by simp
qed

lemma execute_instructions_failure_witness:
  "execute_instructions \<lparr>registers = [0, 0, 0, 0], MAX_modulus = None\<rparr>
     [\<lparr>opcode = 2, arg_a = 5, arg_b = 0, output_reg = 1\<rparr>, \<lparr>opcode = 10, arg_a = 1, arg_b = 1, output_reg = 9\<rparr>,
      \<lparr>opcode = 2, arg_a = 6, arg_b = 0, output_reg = 2\<rparr>]
   = Failed IndexError \<lparr>registers = [0, 5, 0, 0], MAX_modulus = None\<rparr> \<and>
   execute \<lparr>registers = [0, 5, 0, 0], MAX_modulus = None\<rparr> \<lparr>opcode = 10, arg_a = 1, arg_b = 1, output_reg = 9\<rparr>
     = Inl IndexError"
proof -
  have h: "execute_instructions \<lparr>registers = [0, 0, 0, 0], MAX_modulus = None\<rparr>
     [\<lparr>opcode = 2, arg_a = 5, arg_b = 0, output_reg = 1\<rparr>, \<lparr>opcode = 10, arg_a = 1, arg_b = 1, output_reg = 9\<rparr>,
      \<lparr>opcode = 2, arg_a = 6, arg_b = 0, output_reg = 2\<rparr>]
   = Failed IndexError \<lparr>registers = [0, 5, 0, 0], MAX_modulus = None\<rparr>"
    by (simp add: execute_eval py_simps)
  from execute_instructions_failure [OF h] obtain pre i post where
    "execute_instructions \<lparr>registers = [0, 0, 0, 0], MAX_modulus = None\<rparr> pre
       = Completed \<lparr>registers = [0, 5, 0, 0], MAX_modulus = None\<rparr>"
    "execute \<lparr>registers = [0, 5, 0, 0], MAX_modulus = None\<rparr> i = Inl IndexError" by blast
  have "execute \<lparr>registers = [0, 5, 0, 0], MAX_modulus = None\<rparr> \<lparr>opcode = 10, arg_a = 1, arg_b = 1, output_reg = 9\<rparr>
     = Inl IndexError" by (simp add: execute_eval py_simps)
  with h show ?thesis by simp
qed

lemma set_register_modulus_bounds_witness:
  "set_register \<lparr>registers = [0, 0, 0, 0], MAX_modulus = Some 5\<rparr> 1 12
     = Inr \<lparr>registers = [0, 2, 0, 0], MAX_modulus = Some 5\<rparr> \<and>
   py_get [0, 2, 0, 0] 1 = Inr (12 mod (5::int)) \<and> 0 \<le> 12 mod (5::int) \<and> 12 mod (5::int) < 5"
proof -
  have h: "set_register \<lparr>registers = [0, 0, 0, 0], MAX_modulus = Some 5\<rparr> 1 12
     = Inr \<lparr>registers = [0, 2, 0, 0], MAX_modulus = Some 5\<rparr>"
    by (simp add: set_register_def wrap_max_def py_simps)
  show ?thesis using set_register_modulus_bounds [OF h] h by simp
qed

end
