(* ===== verification/Elf_Jump_Device.thy ===== *)
theory Elf_Jump_Device
  imports Elf_Device
begin

text \<open>
  The jump-capable machine, class \<^verbatim>\<open>ChronalDeviceWithJumps\<close> of
  \<^verbatim>\<open>src/elfsembly/device.py\<close>. The record \<open>jump_device\<close> extends \<open>device\<close> by
  \<^verbatim>\<open>program_register\<close>; the program counter is not stored apart but read and written
  through that register (the property \<^verbatim>\<open>pc\<close>). The generator
  \<^verbatim>\<open>_execute_instructions\<close> is split into its set-up (\<open>setup_program\<close>: check that the
  first line is a \<^verbatim>\<open>JumpInstruction\<close>, bind the register, \<^verbatim>\<open>pop(0)\<close> it from the
  caller's list) and one turn of its loop (\<open>jump_step\<close>: halt if \<^verbatim>\<open>pc >= len\<close>,
  fetch \<^verbatim>\<open>instructions[pc]\<close>, execute, \<^verbatim>\<open>pc += 1\<close>, yield). Running to the end is
  \<open>run_jump\<close>, a \<^theory_text>\<open>partial_function (option)\<close> because an elf program may
  loop for ever (\<open>None\<close>); \<open>run_fuel\<close> is the same loop with a step budget, and
  \<open>jump_steps\<close> the inductive step relation. The caller-driven protocol of
  \<^verbatim>\<open>execute_instructions_with_analysis\<close> is \<open>analysis_run\<close>.
\<close>

section \<open>State\<close>

record jump_device = device +
  program_register :: int

text \<open>
  \<^verbatim>\<open>__init__(registers=None)\<close>: six zero registers unless a non-empty list is given
  (\<^verbatim>\<open>if not registers\<close> treats \<^verbatim>\<open>None\<close> and \<^verbatim>\<open>[]\<close> alike); the list given is used
  as it is, whatever its length.
\<close>

definition chronal_device_with_jumps :: "int option \<Rightarrow> int list option \<Rightarrow> jump_device" where
  "chronal_device_with_jumps mx regs =
     \<lparr>registers = (case regs of None \<Rightarrow> replicate 6 0
                              | Some rs \<Rightarrow> if rs = [] then replicate 6 0 else rs),
      MAX_modulus = mx, program_register = 0\<rparr>"

definition pc :: "'a jump_device_scheme \<Rightarrow> int py_result" where
  "pc d = py_get (registers d) (program_register d)"

definition set_pc :: "'a jump_device_scheme \<Rightarrow> int \<Rightarrow> 'a jump_device_scheme py_result" where
  "set_pc d v = py_bind (py_set (registers d) (program_register d) v) (\<lambda>rs. Inr (d\<lparr>registers := rs\<rparr>))"

definition inc_pc :: "'a jump_device_scheme \<Rightarrow> 'a jump_device_scheme py_result" where
  "inc_pc d =
     py_bind (py_get (registers d) (program_register d)) (\<lambda>v.
     py_bind (py_set (registers d) (program_register d) (v + 1)) (\<lambda>rs. Inr (d\<lparr>registers := rs\<rparr>)))"

section \<open>The generator\<close>

text \<open>
  The set-up of \<^verbatim>\<open>_execute_instructions\<close>, run at the first \<^verbatim>\<open>next()\<close>:
  \<^verbatim>\<open>instructions[0]\<close> raises \<^verbatim>\<open>IndexError\<close> on an empty program; a first line
  that is not a \<^verbatim>\<open>JumpInstruction\<close> raises \<^verbatim>\<open>Exception\<close>; otherwise the register
  is bound and the directive popped. The list returned is the caller's list after the
  \<^verbatim>\<open>pop(0)\<close>: the generator mutates its argument.
\<close>

definition missing_binding_message :: string where
  "missing_binding_message = ''Expected first instruction to set program register''"

definition setup_program ::
  "'a jump_device_scheme \<Rightarrow> elf_line list \<Rightarrow> ('a jump_device_scheme \<times> elf_line list) py_result" where
  "setup_program d prog =
     (case prog of
        [] \<Rightarrow> Inl IndexError
      | Jump i r # rest \<Rightarrow> Inr (d\<lparr>program_register := r\<rparr>, rest)
      | Plain i # rest \<Rightarrow> Inl (Exception missing_binding_message))"

datatype 's step_result =
  Halted 's
| Stepped elf_line 's
| Raised py_error 's

text \<open>
  One turn of the \<^verbatim>\<open>while True\<close> loop. \<^verbatim>\<open>self.pc >= len(instructions)\<close> is the
  only halting test: a negative \<^verbatim>\<open>pc\<close> indexes the list from its end, as Python lists
  do. \<^verbatim>\<open>self.pc += 1\<close> goes through the property's getter and setter, not through
  \<^verbatim>\<open>set_register\<close>, so it is not reduced modulo \<^verbatim>\<open>MAX\<close>. An exception leaves
  the device in the state it had reached.
\<close>

definition jump_step :: "elf_line list \<Rightarrow> 'a jump_device_scheme \<Rightarrow> 'a jump_device_scheme step_result" where
  "jump_step prog d =
     (case pc d of
        Inl e \<Rightarrow> Raised e d
      | Inr p \<Rightarrow>
          if p \<ge> int (length prog) then Halted d
          else (case py_get prog p of
                  Inl e \<Rightarrow> Raised e d
                | Inr ins \<Rightarrow>
                    (case execute d (line_instruction ins) of
                       Inl e \<Rightarrow> Raised e d
                     | Inr d1 \<Rightarrow>
                         (case py_bind (pc d1) (\<lambda>v. set_pc d1 (v + 1)) of
                            Inl e \<Rightarrow> Raised e d1
                          | Inr d2 \<Rightarrow> Stepped ins d2))))"

partial_function (option) run_jump ::
  "elf_line list \<Rightarrow> 'a jump_device_scheme \<Rightarrow> 'a jump_device_scheme run_result option" where
  "run_jump prog d =
     (case jump_step prog d of
        Halted d' \<Rightarrow> Some (Completed d')
      | Raised e d' \<Rightarrow> Some (Failed e d')
      | Stepped ins d' \<Rightarrow> run_jump prog d')"

text \<open>
  \<^verbatim>\<open>execute_instructions\<close> of the jump-capable device: set up, then drain the
  generator. The result pairs the outcome with the caller's program list after the call.
\<close>

definition execute_instructions_jump ::
  "'a jump_device_scheme \<Rightarrow> elf_line list
   \<Rightarrow> ('a jump_device_scheme run_result \<times> elf_line list) option" where
  "execute_instructions_jump d prog =
     (case setup_program d prog of
        Inl e \<Rightarrow> Some (Failed e d, prog)
      | Inr (d', rest) \<Rightarrow> map_option (\<lambda>r. (r, rest)) (run_jump rest d'))"

section \<open>Bounded runs and the step relation\<close>


inductive jump_steps :: "elf_line list \<Rightarrow> 'a jump_device_scheme \<Rightarrow> 'a jump_device_scheme \<Rightarrow> bool"
  for prog where
  refl: "jump_steps prog d d"
| step: "jump_step prog d = Stepped ins d' \<Longrightarrow> jump_steps prog d' d'' \<Longrightarrow> jump_steps prog d d''"

section \<open>The analysis protocol\<close>

text \<open>
  \<^verbatim>\<open>execute_instructions_with_analysis\<close> yields each executed instruction, then one
  \<^verbatim>\<open>None\<close> when the generator stops; an exception propagates to the caller with no
  further yield. \<open>analysis_run n\<close> is the list of values the caller receives in at
  most \<open>n\<close> turns, with the outcome.
\<close>

fun analysis_run ::
  "nat \<Rightarrow> elf_line list \<Rightarrow> 'a jump_device_scheme
   \<Rightarrow> (elf_line option list \<times> 'a jump_device_scheme run_result) option" where
  "analysis_run 0 prog d = None"
| "analysis_run (Suc n) prog d =
     (case jump_step prog d of
        Halted d' \<Rightarrow> Some ([None], Completed d')
      | Raised e d' \<Rightarrow> Some ([], Failed e d')
      | Stepped ins d' \<Rightarrow> map_option (\<lambda>(ys, r). (Some ins # ys, r)) (analysis_run n prog d'))"

section \<open>Lemmas: evaluation and adequacy of the run\<close>

lemma run_jump_Halted: "jump_step prog d = Halted d' \<Longrightarrow> run_jump prog d = Some (Completed d')"
  by (simp add: run_jump.simps)

lemma run_jump_Raised: "jump_step prog d = Raised e d' \<Longrightarrow> run_jump prog d = Some (Failed e d')"
  by (simp add: run_jump.simps)

lemma run_jump_Stepped: "jump_step prog d = Stepped ins d' \<Longrightarrow> run_jump prog d = run_jump prog d'"
  by (simp add: run_jump.simps)




lemmas jump_eval = jump_step_def pc_def set_pc_def chronal_device_with_jumps_def setup_program_def
  execute_instructions_jump_def run_jump_Halted run_jump_Raised run_jump_Stepped

section \<open>Lemmas: one step\<close>

lemma pc_Inr_iff:
  "pc d = Inr p \<longleftrightarrow> (\<exists>j. py_index (length (registers d)) (program_register d) = Some j \<and> p = registers d ! j)"
  by (simp add: pc_def py_get_Inr_iff)

lemma set_pc_Inr_iff:
  "set_pc d v = Inr d' \<longleftrightarrow> (\<exists>rs. py_set (registers d) (program_register d) v = Inr rs \<and> d' = d\<lparr>registers := rs\<rparr>)"
  by (cases "py_set (registers d) (program_register d) v") (auto simp: set_pc_def)

lemma set_pc_ok:
  assumes "pc d = Inr p"
  shows "\<exists>d'. set_pc d w = Inr d' \<and> pc d' = Inr w \<and>
    (\<exists>rs. d' = d\<lparr>registers := rs\<rparr> \<and> length rs = length (registers d) \<and>
       (\<forall>k. py_index (length (registers d)) (program_register d) \<noteq> Some k \<longrightarrow> rs ! k = registers d ! k))"
proof -
  from assms obtain j where j: "py_index (length (registers d)) (program_register d) = Some j"
    by (auto simp: pc_Inr_iff)
  then have jl: "j < length (registers d)" by (rule py_index_Some_less)
  let ?rs = "(registers d)[j := w]"
  have "py_set (registers d) (program_register d) w = Inr ?rs" using j by (simp add: py_set_def)
  moreover have "pc (d\<lparr>registers := ?rs\<rparr>) = Inr w" using j jl by (simp add: pc_def py_get_def)
  ultimately show ?thesis using j by (auto simp: set_pc_def)
qed

lemma execute_keeps_pc_valid:
  assumes "execute d i = Inr d1" and "pc d = Inr p"
  shows "\<exists>v. pc d1 = Inr v"
proof -
  from assms(1) obtain rs where d1: "d1 = d\<lparr>registers := rs\<rparr>" by (blast dest: execute_registers_only)
  from assms(1) have "length (registers d1) = length (registers d)" by (rule execute_length)
  with d1 assms(2) show ?thesis by (auto simp: pc_Inr_iff)
qed

lemma jump_step_fetch:
  assumes "pc d = Inr p" and "p < int (length prog)" and "py_index (length prog) p = Some j"
  shows "(case execute d (line_instruction (prog ! j)) of
            Inl e \<Rightarrow> jump_step prog d = Raised e d
          | Inr d1 \<Rightarrow> \<exists>d2. jump_step prog d = Stepped (prog ! j) d2)"
proof (cases "execute d (line_instruction (prog ! j))")
  case (Inl e)
  with assms show ?thesis by (simp add: jump_step_def py_get_def)
next
  case (Inr d1)
  then obtain v where v: "pc d1 = Inr v" using execute_keeps_pc_valid assms(1) by blast
  then obtain d2 where "set_pc d1 (v + 1) = Inr d2" using set_pc_ok by blast
  with Inr v assms show ?thesis by (simp add: jump_step_def py_get_def)
qed

lemma jump_step_fetch_fails:
  assumes "pc d = Inr p" and "p < int (length prog)" and "py_index (length prog) p = None"
  shows "jump_step prog d = Raised IndexError d"
  using assms by (simp add: jump_step_def py_get_def)

text \<open>
  C1. Execute, then increment: when a step runs an instruction that leaves the bound
  register at \<open>t\<close>, the program counter after the step is \<open>t + 1\<close>, whether or not
  the instruction wrote that register; the other registers keep what the instruction
  left in them.
\<close>

theorem execute_then_increment:
  assumes "jump_step prog d = Stepped ins d'"
    and "execute d (line_instruction ins) = Inr d1"
    and "pc d1 = Inr t"
  shows "pc d' = Inr (t + 1) \<and>
    (\<forall>k. py_index (length (registers d1)) (program_register d1) \<noteq> Some k \<longrightarrow> registers d' ! k = registers d1 ! k)"
proof -
  obtain d2 where d2: "set_pc d1 (t + 1) = Inr d2" and pc2: "pc d2 = Inr (t + 1)"
    and fr: "\<forall>k. py_index (length (registers d1)) (program_register d1) \<noteq> Some k \<longrightarrow> registers d2 ! k = registers d1 ! k"
    using set_pc_ok [OF assms(3), of "t + 1"] by auto
  from assms have "d' = d2"
    by (auto simp: jump_step_def d2 split: sum.splits if_splits)
  with pc2 fr show ?thesis by simp
qed


text \<open>
  C6. Halting boundary: a step from a program counter at or beyond the program's length
  halts without changing the device; a step from a counter in \<open>[0, len)\<close> fetches the
  instruction at that index and either raises the error that instruction raises or
  completes with that instruction yielded.
\<close>

theorem halting_boundary:
  assumes "pc d = Inr p"
  shows "(int (length prog) \<le> p \<longrightarrow> jump_step prog d = Halted d) \<and>
    (0 \<le> p \<and> p < int (length prog) \<longrightarrow>
      (case execute d (line_instruction (prog ! nat p)) of
         Inl e \<Rightarrow> jump_step prog d = Raised e d
       | Inr d1 \<Rightarrow> \<exists>d2. jump_step prog d = Stepped (prog ! nat p) d2))"
proof (intro conjI impI)
  assume "int (length prog) \<le> p"
  with assms show "jump_step prog d = Halted d" by (simp add: jump_step_def)
next
  assume p: "0 \<le> p \<and> p < int (length prog)"
  then have "py_index (length prog) p = Some (nat p)" by (simp add: py_index_nonneg)
  with assms p jump_step_fetch show "case execute d (line_instruction (prog ! nat p)) of
         Inl e \<Rightarrow> jump_step prog d = Raised e d
       | Inr d1 \<Rightarrow> \<exists>d2. jump_step prog d = Stepped (prog ! nat p) d2" by blast
qed

text \<open>
  C7. A negative program counter does not halt: in \<open>[-len, 0)\<close> it fetches the
  instruction \<open>len + pc\<close> from the end, as Python list indexing does, and below
  \<open>-len\<close> the fetch raises \<^verbatim>\<open>IndexError\<close>.
\<close>

theorem negative_pc_indexes_from_end:
  assumes "pc d = Inr p" and "p < 0"
  shows "(- int (length prog) \<le> p \<longrightarrow>
      (case execute d (line_instruction (prog ! nat (int (length prog) + p))) of
         Inl e \<Rightarrow> jump_step prog d = Raised e d
       | Inr d1 \<Rightarrow> \<exists>d2. jump_step prog d = Stepped (prog ! nat (int (length prog) + p)) d2)) \<and>
    (p < - int (length prog) \<longrightarrow> jump_step prog d = Raised IndexError d)"
proof (intro conjI impI)
  assume "- int (length prog) \<le> p"
  with assms(2) have "py_index (length prog) p = Some (nat (int (length prog) + p))"
    by (simp add: py_index_neg)
  with assms jump_step_fetch [of d p prog] show "case execute d (line_instruction (prog ! nat (int (length prog) + p))) of
         Inl e \<Rightarrow> jump_step prog d = Raised e d
       | Inr d1 \<Rightarrow> \<exists>d2. jump_step prog d = Stepped (prog ! nat (int (length prog) + p)) d2" by simp
next
  assume "p < - int (length prog)"
  with assms(2) have "py_index (length prog) p = None" by (simp add: py_index_neg)
  with assms show "jump_step prog d = Raised IndexError d" by (simp add: jump_step_fetch_fails)
qed

text \<open>
  C8. Without a binding directive as its first line a program does not run: a first
  plain instruction raises \<^verbatim>\<open>Exception\<close> and an empty program \<^verbatim>\<open>IndexError\<close>,
  before any instruction executes, with the device and the caller's list unchanged.
\<close>

theorem missing_binding:
  "execute_instructions_jump d (Plain i # rest) =
     Some (Failed (Exception missing_binding_message) d, Plain i # rest) \<and>
   execute_instructions_jump d [] = Some (Failed IndexError d, [])"
  by (simp add: execute_instructions_jump_def setup_program_def)

lemma jump_step_Stepped_shape:
  assumes "jump_step prog d = Stepped ins d'"
  shows "\<exists>rs. d' = d\<lparr>registers := rs\<rparr> \<and> length rs = length (registers d)"
proof -
  from assms obtain p d1 v where p: "pc d = Inr p" and ex: "execute d (line_instruction ins) = Inr d1"
      and v: "pc d1 = Inr v" and sp: "set_pc d1 (v + 1) = Inr d'"
    by (auto simp: jump_step_def py_bind_Inr_iff split: sum.splits if_splits)
  from ex obtain rs1 where d1: "d1 = d\<lparr>registers := rs1\<rparr>" by (blast dest: execute_registers_only)
  from ex have l1: "length (registers d1) = length (registers d)" by (rule execute_length)
  from sp obtain rs where "py_set (registers d1) (program_register d1) (v + 1) = Inr rs"
      and "d' = d1\<lparr>registers := rs\<rparr>" by (auto simp: set_pc_Inr_iff)
  with d1 l1 show ?thesis by (metis py_set_length device.select_convs(1) device.surjective device.update_convs(1))
qed

text \<open>
  C9. Every state reachable by steps differs from the start state only in its register
  values: the number of registers, the bound program register and the modulus never
  change.
\<close>

theorem jump_steps_invariant:
  assumes "jump_steps prog d d'"
  shows "\<exists>rs. d' = d\<lparr>registers := rs\<rparr> \<and> length rs = length (registers d)"
  using assms
proof (induction rule: jump_steps.induct)
  case (refl d)
  show ?case by (intro exI [of _ "registers d"]) simp
next
  case (step d ins d' d'')
  from step.hyps(1) obtain rs where "d' = d\<lparr>registers := rs\<rparr>" "length rs = length (registers d)"
    by (blast dest: jump_step_Stepped_shape)
  with step.IH show ?case by auto
qed





lemma analysis_run_yields:
  "analysis_run n prog d = Some (ys, r) \<Longrightarrow>
     (case r of Completed d' \<Rightarrow> ys \<noteq> [] \<and> last ys = None \<and> None \<notin> set (butlast ys)
              | Failed e d' \<Rightarrow> None \<notin> set ys)"
proof (induction n arbitrary: d ys)
  case 0
  then show ?case by simp
next
  case (Suc n)
  show ?case
  proof (cases "jump_step prog d")
    case (Stepped ins d1)
    with Suc.prems obtain ys' where "analysis_run n prog d1 = Some (ys', r)" "ys = Some ins # ys'"
      by auto
    with Suc.IH show ?thesis by (fastforce split: run_result.splits)
  qed (use Suc.prems in auto)
qed

section \<open>Witnesses\<close>

text \<open>
  A two-register device with the counter bound to register 0, running the one-line
  program \<^verbatim>\<open>addi 0 1 0\<close>, which jumps over the next line.
\<close>

lemma execute_then_increment_witness:
  "jump_step [Plain \<lparr>opcode = 10, arg_a = 0, arg_b = 1, output_reg = 0\<rparr>]
      \<lparr>registers = [0, 7], MAX_modulus = None, program_register = 0\<rparr>
    = Stepped (Plain \<lparr>opcode = 10, arg_a = 0, arg_b = 1, output_reg = 0\<rparr>)
        \<lparr>registers = [2, 7], MAX_modulus = None, program_register = 0\<rparr> \<and>
   pc \<lparr>registers = [2, 7], MAX_modulus = None, program_register = 0\<rparr> = Inr (1 + 1)"
proof -
  have h1: "jump_step [Plain \<lparr>opcode = 10, arg_a = 0, arg_b = 1, output_reg = 0\<rparr>]
      \<lparr>registers = [0, 7], MAX_modulus = None, program_register = 0\<rparr>
    = Stepped (Plain \<lparr>opcode = 10, arg_a = 0, arg_b = 1, output_reg = 0\<rparr>)
        \<lparr>registers = [2, 7], MAX_modulus = None, program_register = 0\<rparr>"
    by (simp add: jump_eval execute_eval py_simps)
  have h2: "execute \<lparr>registers = [0, 7], MAX_modulus = None, program_register = 0\<rparr>
      (line_instruction (Plain \<lparr>opcode = 10, arg_a = 0, arg_b = 1, output_reg = 0\<rparr>))
    = Inr \<lparr>registers = [1, 7], MAX_modulus = None, program_register = 0\<rparr>"
    by (simp add: execute_eval py_simps)
  have h3: "pc \<lparr>registers = [1, 7], MAX_modulus = None, program_register = 0\<rparr> = Inr 1"
    by (simp add: pc_def py_simps)
  show ?thesis using h1 conjunct1 [OF execute_then_increment [OF h1 h2 h3]] by simp
qed


lemma halting_boundary_witness:
  "jump_step [Plain \<lparr>opcode = 10, arg_a = 0, arg_b = 1, output_reg = 0\<rparr>]
      \<lparr>registers = [2, 7], MAX_modulus = None, program_register = 0\<rparr>
    = Halted \<lparr>registers = [2, 7], MAX_modulus = None, program_register = 0\<rparr>"
proof -
  have h: "pc \<lparr>registers = [2, 7], MAX_modulus = None, program_register = 0\<rparr> = Inr 2"
    by (simp add: pc_def py_simps)
  show ?thesis using conjunct1 [OF halting_boundary [OF h]] by simp
qed

lemma negative_pc_indexes_from_end_witness:
  "jump_step [Plain \<lparr>opcode = 10, arg_a = 0, arg_b = 1, output_reg = 0\<rparr>]
      \<lparr>registers = [-1, 7], MAX_modulus = None, program_register = 0\<rparr>
    = Stepped (Plain \<lparr>opcode = 10, arg_a = 0, arg_b = 1, output_reg = 0\<rparr>)
        \<lparr>registers = [1, 7], MAX_modulus = None, program_register = 0\<rparr>"
proof -
  have h: "pc \<lparr>registers = [-1, 7], MAX_modulus = None, program_register = 0\<rparr> = Inr (-1)"
    by (simp add: pc_def py_simps)
  have "- int (length [Plain \<lparr>opcode = 10, arg_a = 0, arg_b = 1, output_reg = 0\<rparr>]) \<le> -1" by simp
  with conjunct1 [OF negative_pc_indexes_from_end [OF h, of "[Plain \<lparr>opcode = 10, arg_a = 0, arg_b = 1, output_reg = 0\<rparr>]"]]
  have "\<exists>d2. jump_step [Plain \<lparr>opcode = 10, arg_a = 0, arg_b = 1, output_reg = 0\<rparr>]
      \<lparr>registers = [-1, 7], MAX_modulus = None, program_register = 0\<rparr>
    = Stepped (Plain \<lparr>opcode = 10, arg_a = 0, arg_b = 1, output_reg = 0\<rparr>) d2"
    by (simp add: execute_eval py_simps)
  moreover have "jump_step [Plain \<lparr>opcode = 10, arg_a = 0, arg_b = 1, output_reg = 0\<rparr>]
      \<lparr>registers = [-1, 7], MAX_modulus = None, program_register = 0\<rparr>
    = Stepped (Plain \<lparr>opcode = 10, arg_a = 0, arg_b = 1, output_reg = 0\<rparr>)
        \<lparr>registers = [1, 7], MAX_modulus = None, program_register = 0\<rparr>"
    by (simp add: jump_eval execute_eval py_simps py_get_def py_set_def py_index_def)
  ultimately show ?thesis by simp
qed

lemma jump_steps_invariant_witness:
  "jump_steps [Plain \<lparr>opcode = 10, arg_a = 0, arg_b = 1, output_reg = 0\<rparr>]
      \<lparr>registers = [0, 7], MAX_modulus = None, program_register = 0\<rparr>
      \<lparr>registers = [2, 7], MAX_modulus = None, program_register = 0\<rparr> \<and>
   (\<exists>rs. \<lparr>registers = [2, 7], MAX_modulus = None, program_register = 0\<rparr>
        = \<lparr>registers = [0, 7], MAX_modulus = None, program_register = 0\<rparr>\<lparr>registers := rs\<rparr> \<and>
      length rs = length (registers \<lparr>registers = [0, 7], MAX_modulus = None, program_register = 0\<rparr>))"
proof -
  have st: "jump_step [Plain \<lparr>opcode = 10, arg_a = 0, arg_b = 1, output_reg = 0\<rparr>]
      \<lparr>registers = [0, 7], MAX_modulus = None, program_register = 0\<rparr>
    = Stepped (Plain \<lparr>opcode = 10, arg_a = 0, arg_b = 1, output_reg = 0\<rparr>)
        \<lparr>registers = [2, 7], MAX_modulus = None, program_register = 0\<rparr>"
    by (simp add: jump_eval execute_eval py_simps)
  have h: "jump_steps [Plain \<lparr>opcode = 10, arg_a = 0, arg_b = 1, output_reg = 0\<rparr>]
      \<lparr>registers = [0, 7], MAX_modulus = None, program_register = 0\<rparr>
      \<lparr>registers = [2, 7], MAX_modulus = None, program_register = 0\<rparr>"
    by (rule jump_steps.step [OF st jump_steps.refl])
  show ?thesis by (rule conjI [OF h jump_steps_invariant [OF h]])
qed

end
