(* ===== verification/Day16_Guesser.thy ===== *)
theory Day16_Guesser
  imports Elf_Device
begin

text \<open>
  Day 16, \<^verbatim>\<open>src/day_16.py\<close>: the \<^verbatim>\<open>InstructionGuesser\<close>. A sample is a
  register file before, an instruction and a register file after; \<open>guess\<close> runs all
  sixteen methods of a fresh \<^verbatim>\<open>ChronalDevice\<close> on the sample and collects the names
  of those whose output register agrees with the one after (\<^verbatim>\<open>guess\<close>,
  \<^verbatim>\<open>guess_from_lines\<close>, the loop of \<^verbatim>\<open>guesses_from_file\<close>). The test
  \<^verbatim>\<open>test_find_unique_results\<close> then eliminates names until each of the sixteen
  opcodes has one: \<open>unique_pass\<close> is one pass of its \<^verbatim>\<open>for\<close> loop and
  \<open>find_unique\<close> the \<^verbatim>\<open>while True\<close> loop around it, a
  \<^theory_text>\<open>partial_function (option)\<close> since nothing bounds the number of passes.
\<close>

section \<open>Guessing one sample\<close>

record Guess =
  guess_opcode :: int
  guesses :: "string set"

text \<open>The list \<^verbatim>\<open>methods\<close>, in the order the source writes it.\<close>

definition guess_methods :: "opname list" where
  "guess_methods =
     [Addi, Addr, Bani, Banr, Bori, Borr, Eqir, Eqri, Eqrr, Gtir, Gtri, Gtrr, Muli, Mulr, Seti, Setr]"

text \<open>
  The \<^verbatim>\<open>for method in methods\<close> loop. The one \<^verbatim>\<open>test_device\<close> is shared by all
  turns; each turn resets its registers to a copy of \<open>before\<close>, runs the method, and
  compares \<^verbatim>\<open>registers[output]\<close> with \<^verbatim>\<open>after[output]\<close>, the left operand first.
  Any \<^verbatim>\<open>IndexError\<close> propagates out of \<^verbatim>\<open>guess\<close>.
\<close>

fun guess_loop ::
  "int list \<Rightarrow> int list \<Rightarrow> instruction \<Rightarrow> device \<Rightarrow> string set \<Rightarrow> opname list
   \<Rightarrow> (device \<times> string set) py_result" where
  "guess_loop before_regs after_regs i d acc [] = Inr (d, acc)"
| "guess_loop before_regs after_regs i d acc (m # ms) =
     py_bind (method_of m (d\<lparr>registers := before_regs\<rparr>) i) (\<lambda>d1.
     py_bind (py_get (registers d1) (output_reg i)) (\<lambda>x.
     py_bind (py_get after_regs (output_reg i)) (\<lambda>y.
       guess_loop before_regs after_regs i d1 (if x = y then insert (method_name m) acc else acc) ms)))"

definition guess :: "int list \<Rightarrow> int list \<Rightarrow> instruction \<Rightarrow> Guess py_result" where
  "guess before_regs after_regs i =
     py_bind (guess_loop before_regs after_regs i (chronal_device None) {} guess_methods) (\<lambda>(d, gs).
       Inr \<lparr>guess_opcode = opcode i, guesses = gs\<rparr>)"

definition guess_from_lines :: "string list \<Rightarrow> Guess py_result" where
  "guess_from_lines lines =
     py_bind (py_get lines 0) (\<lambda>l0.
     py_bind (py_get lines 1) (\<lambda>l1.
     py_bind (instruction_from_string l1) (\<lambda>i.
     py_bind (py_get lines 2) (\<lambda>l2.
       guess (number_grabber l0) (number_grabber l2) i))))"

text \<open>
  The loop of \<^verbatim>\<open>guesses_from_file\<close> over the stripped lines of the file:
  \<^verbatim>\<open>for i in range(0, len(lines), 4)\<close> on the slices \<^verbatim>\<open>lines[i:i+3]\<close>. Reading
  the file is not modelled.
\<close>

function guesses_loop :: "string list \<Rightarrow> nat \<Rightarrow> Guess list py_result" where
  "guesses_loop lines i =
     (if i < length lines
      then py_bind (guess_from_lines (take 3 (drop i lines))) (\<lambda>g.
           py_bind (guesses_loop lines (i + 4)) (\<lambda>gs. Inr (g # gs)))
      else Inr [])"
  by pat_completeness auto
termination
  by (relation "measure (\<lambda>(lines, i). length lines - i)") auto

declare guesses_loop.simps [simp del]

definition guesses_from_lines :: "string list \<Rightarrow> Guess list py_result" where
  "guesses_from_lines lines = guesses_loop lines 0"

text \<open>\<^verbatim>\<open>test_part_1\<close>: the number of samples that fit three or more opcodes.\<close>

definition part1_count :: "Guess list \<Rightarrow> nat" where
  "part1_count gs = length (filter (\<lambda>g. 3 \<le> card (guesses g)) gs)"

section \<open>Eliminating guesses\<close>

text \<open>
  One pass of the \<^verbatim>\<open>for guess in guesses\<close> loop of
  \<^verbatim>\<open>test_find_unique_results\<close>. The dictionary \<^verbatim>\<open>opcodes\<close> is an
  association list in insertion order; a key is only added when absent, so the
  assignment is an append. A solved guess set is popped (its one element taken, the set
  left empty), then every solved name is removed from the current guess's set.
\<close>

fun unique_pass :: "(int \<times> string) list \<Rightarrow> Guess list \<Rightarrow> (int \<times> string) list \<times> Guess list" where
  "unique_pass ops [] = (ops, [])"
| "unique_pass ops (g # gs) =
     (if guess_opcode g \<in> set (map fst ops)
      then (let (ops', gs') = unique_pass ops gs in (ops', g # gs'))
      else (let (ops1, g1) =
                  (if card (guesses g) = 1
                   then (ops @ [(guess_opcode g, the_elem (guesses g))], g\<lparr>guesses := {}\<rparr>)
                   else (ops, g));
                g2 = g1\<lparr>guesses := guesses g1 - set (map snd ops1)\<rparr>;
                (ops', gs') = unique_pass ops1 gs
            in (ops', g2 # gs')))"

partial_function (option) find_unique ::
  "(int \<times> string) list \<Rightarrow> Guess list \<Rightarrow> (int \<times> string) list option" where
  "find_unique ops gs =
     (let (ops', gs') = unique_pass ops gs
      in if length ops' = 16 then Some ops' else find_unique ops' gs')"

definition find_unique_results :: "Guess list \<Rightarrow> (int \<times> string) list option" where
  "find_unique_results gs = find_unique [] (sort_key (\<lambda>g. card (guesses g)) gs)"

section \<open>What a sample says about an opcode\<close>

text \<open>
  The reading of a sample against the abstract opcode table \<open>opcode_spec\<close> of
  \<open>Elf_Device\<close>: run the row on a device holding \<open>before\<close> and compare the output
  register with the one of \<open>after\<close>. A sample fails for an opcode when the row raises
  or \<open>after\<close> has no such register.
\<close>

definition sample_device :: "int list \<Rightarrow> device" where
  "sample_device regs = (chronal_device None)\<lparr>registers := regs\<rparr>"

definition sample_agrees :: "int list \<Rightarrow> int list \<Rightarrow> instruction \<Rightarrow> opname \<Rightarrow> bool" where
  "sample_agrees bef aft i m =
     (case opcode_spec m (sample_device bef) i of
        Inl e \<Rightarrow> False
      | Inr d' \<Rightarrow> py_get (registers d') (output_reg i) = py_get aft (output_reg i))"

definition sample_fails :: "int list \<Rightarrow> int list \<Rightarrow> instruction \<Rightarrow> opname \<Rightarrow> bool" where
  "sample_fails bef aft i m \<longleftrightarrow>
     isl (opcode_spec m (sample_device bef) i) \<or> py_index (length aft) (output_reg i) = None"

text \<open>
  An assignment of names to opcodes is sound for a list of samples when every pair it
  holds was among the guesses of a sample with that opcode.
\<close>

definition sound_ops :: "(int \<times> string) list \<Rightarrow> Guess list \<Rightarrow> bool" where
  "sound_ops ops gs \<longleftrightarrow> (\<forall>(k, v)\<in>set ops. \<exists>g\<in>set gs. guess_opcode g = k \<and> v \<in> guesses g)"

text \<open>A pass keeps the opcode of each sample and can only remove names from its set.\<close>

definition guess_shrinks :: "Guess \<Rightarrow> Guess \<Rightarrow> bool" where
  "guess_shrinks g g' \<longleftrightarrow> guess_opcode g' = guess_opcode g \<and> guesses g' \<subseteq> guesses g"

text \<open>
  Samples that each fit exactly the method \<^verbatim>\<open>opcode_map\<close> of \<^verbatim>\<open>ChronalDevice\<close>
  binds to their opcode: the outcome the test reports for the puzzle input.
\<close>

definition solved_samples :: "Guess list" where
  "solved_samples = map (\<lambda>(k, m). \<lparr>guess_opcode = k, guesses = {method_name m}\<rparr>) opcode_map_table"

section \<open>Lemmas on guessing\<close>

lemma guess_methods_all: "set guess_methods = UNIV"
proof -
  have "m \<in> set guess_methods" for m by (cases m) (simp_all add: guess_methods_def)
  then show ?thesis by blast
qed

lemma opcode_spec_frame:
  "opcode_spec m d i = Inr d' \<Longrightarrow>
   MAX_modulus d' = MAX_modulus d \<and> length (registers d') = length (registers d)"
  by (auto simp: opcode_spec_def py_simps set_register_Inr_iff dest: py_set_length)

lemma reset_device:
  "MAX_modulus d = None \<Longrightarrow> d\<lparr>registers := regs\<rparr> = sample_device regs"
  by (simp add: sample_device_def chronal_device_def)

lemma opcode_spec_output:
  "opcode_spec m d i = Inr d' \<Longrightarrow> \<exists>x. py_get (registers d') (output_reg i) = Inr x"
  by (auto simp: opcode_spec_def py_simps set_register_Inr_iff dest: py_set_then_get)

lemma guess_loop_Inl_IndexError:
  "guess_loop bef aft i d acc ms = Inl e \<Longrightarrow> e = IndexError"
proof (induction ms arbitrary: d acc)
  case (Cons m ms)
  then show ?case
    by (auto simp: py_bind_Inl_iff py_get_Inl_iff method_of_spec opcode_spec_Inl_iff)
qed simp

lemma guess_loop_fails:
  "MAX_modulus d = None \<Longrightarrow>
   (\<exists>e. guess_loop bef aft i d acc ms = Inl e) \<longleftrightarrow> (\<exists>m\<in>set ms. sample_fails bef aft i m)"
proof (induction ms arbitrary: d acc)
  case (Cons m ms)
  show ?case
  proof (cases "opcode_spec m (sample_device bef) i")
    case (Inl e)
    then show ?thesis
      using Cons.prems by (simp add: method_of_spec reset_device sample_fails_def)
  next
    case (Inr d1)
    then obtain x where x: "py_get (registers d1) (output_reg i) = Inr x"
      using opcode_spec_output by blast
    have max: "MAX_modulus d1 = None"
      using opcode_spec_frame [OF Inr] by (simp add: sample_device_def chronal_device_def)
    show ?thesis
    proof (cases "py_get aft (output_reg i)")
      case (Inl e)
      then have "py_index (length aft) (output_reg i) = None" by (simp add: py_get_Inl_iff)
      with Inl show ?thesis
        using Cons.prems Inr x by (auto simp: method_of_spec reset_device sample_fails_def)
    next
      case (Inr y)
      with Cons.prems \<open>opcode_spec m (sample_device bef) i = Inr d1\<close> x Cons.IH [OF max]
      show ?thesis
        by (auto simp: method_of_spec reset_device sample_fails_def py_get_def split: option.splits)
    qed
  qed
qed simp

lemma guess_loop_succeeds:
  "MAX_modulus d = None \<Longrightarrow> \<forall>m\<in>set ms. \<not> sample_fails bef aft i m \<Longrightarrow>
   \<exists>d'. guess_loop bef aft i d acc ms =
     Inr (d', acc \<union> method_name ` {m \<in> set ms. sample_agrees bef aft i m})"
proof (induction ms arbitrary: d acc)
  case (Cons m ms)
  from Cons.prems obtain d1 where d1: "opcode_spec m (sample_device bef) i = Inr d1"
    by (cases "opcode_spec m (sample_device bef) i") (auto simp: sample_fails_def)
  then obtain x where x: "py_get (registers d1) (output_reg i) = Inr x"
    using opcode_spec_output by blast
  from Cons.prems obtain y where y: "py_get aft (output_reg i) = Inr y"
    by (cases "py_get aft (output_reg i)") (auto simp: sample_fails_def py_get_Inl_iff)
  have max: "MAX_modulus d1 = None"
    using opcode_spec_frame [OF d1] by (simp add: sample_device_def chronal_device_def)
  let ?acc = "if x = y then insert (method_name m) acc else acc"
  from Cons.IH [OF max, of ?acc] Cons.prems obtain d' where
    "guess_loop bef aft i d1 ?acc ms = Inr (d', ?acc \<union> method_name ` {m \<in> set ms. sample_agrees bef aft i m})"
    by auto
  with Cons.prems d1 x y show ?case
    by (auto simp: method_of_spec reset_device sample_agrees_def)
qed simp

lemma sample_fails_some:
  "(\<exists>m. sample_fails bef aft i m) \<longleftrightarrow>
   py_index (length bef) (arg_a i) = None \<or> py_index (length bef) (arg_b i) = None \<or>
   py_index (length bef) (output_reg i) = None \<or> py_index (length aft) (output_reg i) = None"
proof -
  have "isl (opcode_spec m d i) \<longleftrightarrow> (\<exists>e. opcode_spec m d i = Inl e)" for m and d :: device
    by (cases "opcode_spec m d i") auto
  then show ?thesis
    by (auto simp: sample_fails_def opcode_spec_Inl_iff sample_device_def
        intro: exI [of _ Addr])
qed

lemma guess_Inl_iff: "guess bef aft i = Inl e \<longleftrightarrow> guess_loop bef aft i (chronal_device None) {} guess_methods = Inl e"
  by (cases "guess_loop bef aft i (chronal_device None) {} guess_methods") (auto simp: guess_def)

section \<open>Lemmas on elimination\<close>

lemma the_elem_mem: "card A = 1 \<Longrightarrow> the_elem A \<in> A"
  by (metis card_1_singletonE the_elem_eq singletonI)

lemma unique_pass_props:
  "unique_pass ops gs = (ops', gs') \<Longrightarrow>
   list_all2 guess_shrinks gs gs' \<and>
   (\<exists>new. ops' = ops @ new \<and> sound_ops new gs) \<and>
   (distinct (map fst ops) \<longrightarrow> distinct (map fst ops'))"
proof (induction gs arbitrary: ops ops' gs')
  case Nil
  then show ?case by (auto simp: sound_ops_def)
next
  case (Cons g gs)
  show ?case
  proof (cases "guess_opcode g \<in> set (map fst ops)")
    case True
    with Cons.prems obtain gs1 where "unique_pass ops gs = (ops', gs1)" "gs' = g # gs1"
      by (auto split: prod.splits)
    with Cons.IH show ?thesis by (fastforce simp: sound_ops_def guess_shrinks_def)
  next
    case out: False
    define ops1 where "ops1 = (if card (guesses g) = 1 then ops @ [(guess_opcode g, the_elem (guesses g))] else ops)"
    define g1 where "g1 = (if card (guesses g) = 1 then g\<lparr>guesses := {}\<rparr> else g)"
    have pass: "unique_pass ops (g # gs) =
      (let (ops', gs') = unique_pass ops1 gs in (ops', g1\<lparr>guesses := guesses g1 - set (map snd ops1)\<rparr> # gs'))"
      using out by (simp add: ops1_def g1_def)
    obtain gs1 where rest: "unique_pass ops1 gs = (ops', gs1)"
      and gs': "gs' = g1\<lparr>guesses := guesses g1 - set (map snd ops1)\<rparr> # gs1"
      using Cons.prems pass by (auto split: prod.splits)
    have ops1: "\<exists>new. ops1 = ops @ new \<and> sound_ops new (g # gs)"
      by (auto simp: ops1_def sound_ops_def the_elem_mem intro: exI [of _ "[]"])
    have dist1: "distinct (map fst ops) \<Longrightarrow> distinct (map fst ops1)"
      using out by (simp add: ops1_def)
    from Cons.IH [OF rest] ops1 dist1 show ?thesis
      by (fastforce simp: gs' g1_def sound_ops_def guess_shrinks_def)
  qed
qed

lemma sound_ops_shrink:
  assumes rel: "list_all2 guess_shrinks gs gs'"
    and s: "sound_ops ops gs'"
  shows "sound_ops ops gs"
  unfolding sound_ops_def
proof (intro ballI, clarify)
  fix k v assume "(k, v) \<in> set ops"
  with s obtain g' where g': "g' \<in> set gs'" "guess_opcode g' = k" "v \<in> guesses g'"
    by (auto simp: sound_ops_def)
  from list_all2_mem_right [OF rel g'(1)] obtain g where
    "g \<in> set gs" "guess_opcode g' = guess_opcode g" "guesses g' \<subseteq> guesses g"
    by (auto simp: guess_shrinks_def)
  with g' show "\<exists>g\<in>set gs. guess_opcode g = k \<and> v \<in> guesses g"
    by auto
qed

lemma guess_shrinks_trans:
  "list_all2 guess_shrinks gs0 gs \<Longrightarrow> list_all2 guess_shrinks gs gs' \<Longrightarrow> list_all2 guess_shrinks gs0 gs'"
  by (rule list_all2_trans) (auto simp: guess_shrinks_def)

lemma guess_shrinks_refl: "list_all2 guess_shrinks gs gs"
  by (rule list_all2_refl) (simp add: guess_shrinks_def)

lemma find_unique_Some:
  assumes ret: "find_unique ops gs = Some r"
  shows "\<forall>gs0. list_all2 guess_shrinks gs0 gs \<longrightarrow> distinct (map fst ops) \<longrightarrow> sound_ops ops gs0 \<longrightarrow>
         distinct (map fst r) \<and> length r = 16 \<and> sound_ops r gs0"
proof (rule find_unique.raw_induct [where P = "\<lambda>ops gs r. \<forall>gs0. list_all2 guess_shrinks gs0 gs \<longrightarrow>
         distinct (map fst ops) \<longrightarrow> sound_ops ops gs0 \<longrightarrow>
         distinct (map fst r) \<and> length r = 16 \<and> sound_ops r gs0", OF _ ret])
  fix fu ops gs r
  assume IH: "\<And>ops gs r. fu ops gs = Some r \<Longrightarrow> \<forall>gs0. list_all2 guess_shrinks gs0 gs \<longrightarrow>
         distinct (map fst ops) \<longrightarrow> sound_ops ops gs0 \<longrightarrow>
         distinct (map fst r) \<and> length r = 16 \<and> sound_ops r gs0"
    and step: "(let (ops', gs') = unique_pass ops gs
                in if length ops' = 16 then Some ops' else fu ops' gs') = Some r"
  obtain ops' gs' where pass: "unique_pass ops gs = (ops', gs')" by fastforce
  from unique_pass_props [OF pass] obtain new where
    sub: "list_all2 guess_shrinks gs gs'"
    and new: "ops' = ops @ new" "sound_ops new gs"
    and dist: "distinct (map fst ops) \<longrightarrow> distinct (map fst ops')" by blast
  show "\<forall>gs0. list_all2 guess_shrinks gs0 gs \<longrightarrow> distinct (map fst ops) \<longrightarrow> sound_ops ops gs0 \<longrightarrow>
         distinct (map fst r) \<and> length r = 16 \<and> sound_ops r gs0"
  proof (intro allI impI)
    fix gs0 assume rel: "list_all2 guess_shrinks gs0 gs"
      and d: "distinct (map fst ops)" and s: "sound_ops ops gs0"
    have "sound_ops new gs0"
      using sound_ops_shrink [OF rel new(2)] .
    with s new(1) have s': "sound_ops ops' gs0"
      by (auto simp: sound_ops_def)
    show "distinct (map fst r) \<and> length r = 16 \<and> sound_ops r gs0"
    proof (cases "length ops' = 16")
      case True
      with step pass dist d s' show ?thesis by simp
    next
      case False
      with step pass have "fu ops' gs' = Some r" by simp
      from IH [OF this] guess_shrinks_trans [OF rel sub] dist d s' show ?thesis
        by blast
    qed
  qed
qed

lemma find_unique_results_Some:
  assumes "find_unique_results gs = Some r"
  shows "distinct (map fst r) \<and> length r = 16 \<and> sound_ops r gs"
proof -
  from assms have "find_unique [] (sort_key (\<lambda>g. card (guesses g)) gs) = Some r"
    by (simp add: find_unique_results_def)
  from find_unique_Some [OF this, THEN spec [where x = "sort_key (\<lambda>g. card (guesses g)) gs"]]
  have "distinct (map fst r) \<and> length r = 16 \<and> sound_ops r (sort_key (\<lambda>g. card (guesses g)) gs)"
    by (simp add: guess_shrinks_refl sound_ops_def)
  then show ?thesis by (simp add: sound_ops_def)
qed

lemma find_unique_stop:
  "length (fst (unique_pass ops gs)) = 16 \<Longrightarrow> find_unique ops gs = Some (fst (unique_pass ops gs))"
  by (subst find_unique.simps) (simp add: split_beta)

lemma solved_samples_run:
  "find_unique_results solved_samples = Some (map (\<lambda>(k, m). (k, method_name m)) opcode_map_table)"
proof -
  have sorted: "sort_key (\<lambda>g. card (guesses g)) solved_samples = solved_samples"
    by (simp add: solved_samples_def opcode_map_table_def)
  have pass: "fst (unique_pass [] solved_samples) = map (\<lambda>(k, m). (k, method_name m)) opcode_map_table"
    by (simp add: solved_samples_def opcode_map_table_def)
  have "length (map (\<lambda>(k, m). (k, method_name m)) opcode_map_table) = 16"
    by (simp add: opcode_map_table_def)
  with find_unique_stop [of "[]" solved_samples] sorted pass show ?thesis
    by (simp add: find_unique_results_def)
qed


section \<open>Properties of the guesser\<close>

text \<open>
  C15. On a sample whose three operand indices are valid for \<open>before\<close> and whose output
  index is valid for \<open>after\<close>, \<^verbatim>\<open>guess\<close> returns the instruction's opcode with
  exactly the names of the opcodes whose row of the specification table, run on
  \<open>before\<close>, leaves the output register equal to \<open>after\<close>'s: the shared test device
  carries nothing from one method to the next, and the list of methods covers all
  sixteen.
\<close>

theorem guess_correct:
  assumes "py_index (length bef) (arg_a i) \<noteq> None" "py_index (length bef) (arg_b i) \<noteq> None"
    and "py_index (length bef) (output_reg i) \<noteq> None" "py_index (length aft) (output_reg i) \<noteq> None"
  shows "guess bef aft i =
    Inr \<lparr>guess_opcode = opcode i, guesses = method_name ` {m. sample_agrees bef aft i m}\<rparr>"
proof -
  have "\<forall>m\<in>set guess_methods. \<not> sample_fails bef aft i m"
    using assms sample_fails_some [of bef aft i] by auto
  from guess_loop_succeeds [OF _ this, of "chronal_device None" "{}"] obtain d' where
    "guess_loop bef aft i (chronal_device None) {} guess_methods =
       Inr (d', method_name ` {m \<in> set guess_methods. sample_agrees bef aft i m})"
    by (auto simp: chronal_device_def)
  then show ?thesis by (simp add: guess_def guess_methods_all)
qed

theorem guess_correct_witness:
  "py_index (length [3, 2, 1, 1]) 2 \<noteq> None \<and> py_index (length [3, 2, 1, 1]) 1 \<noteq> None \<and>
   py_index (length [3, 2, 1, 1]) 2 \<noteq> None \<and> py_index (length [3, 2, 2, 1]) 2 \<noteq> None \<and>
   guess [3, 2, 1, 1] [3, 2, 2, 1] \<lparr>opcode = 9, arg_a = 2, arg_b = 1, output_reg = 2\<rparr> =
    Inr \<lparr>guess_opcode = 9, guesses = method_name ` {m. sample_agrees [3, 2, 1, 1] [3, 2, 2, 1]
         \<lparr>opcode = 9, arg_a = 2, arg_b = 1, output_reg = 2\<rparr> m}\<rparr>"
  using guess_correct [of "[3, 2, 1, 1]" "\<lparr>opcode = 9, arg_a = 2, arg_b = 1, output_reg = 2\<rparr>" "[3, 2, 2, 1]"]
  by (simp add: py_index_def)

text \<open>
  C16. \<^verbatim>\<open>guess\<close> raises exactly when an operand or output index of the
  instruction is out of range for \<open>before\<close> or the output index is out of range for
  \<open>after\<close>, and the exception is then \<^verbatim>\<open>IndexError\<close>.
\<close>

theorem guess_errors:
  "guess bef aft i = Inl e \<longleftrightarrow> e = IndexError \<and>
     (py_index (length bef) (arg_a i) = None \<or> py_index (length bef) (arg_b i) = None \<or>
      py_index (length bef) (output_reg i) = None \<or> py_index (length aft) (output_reg i) = None)"
proof -
  have max: "MAX_modulus (chronal_device None) = None" by (simp add: chronal_device_def)
  have "(\<exists>e. guess bef aft i = Inl e) \<longleftrightarrow> (\<exists>m. sample_fails bef aft i m)"
    using guess_loop_fails [OF max, of bef aft i "{}" guess_methods]
    by (simp add: guess_Inl_iff guess_methods_all)
  moreover have "guess bef aft i = Inl e' \<Longrightarrow> e' = IndexError" for e'
    unfolding guess_Inl_iff by (rule guess_loop_Inl_IndexError)
  ultimately show ?thesis
    using sample_fails_some [of bef aft i] by auto
qed

text \<open>
  C17. When the elimination loop of \<^verbatim>\<open>test_find_unique_results\<close> ends, its
  dictionary has sixteen distinct opcodes, and every name it assigns to an opcode was
  a guess of some sample with that opcode.
\<close>

theorem find_unique_sound:
  "find_unique_results gs = Some r \<Longrightarrow> distinct (map fst r) \<and> length r = 16 \<and> sound_ops r gs"
  by (rule find_unique_results_Some)

theorem find_unique_sound_witness:
  "find_unique_results solved_samples = Some (map (\<lambda>(k, m). (k, method_name m)) opcode_map_table) \<and>
   distinct (map fst (map (\<lambda>(k, m). (k, method_name m)) opcode_map_table)) \<and>
   length (map (\<lambda>(k, m). (k, method_name m)) opcode_map_table) = 16 \<and>
   sound_ops (map (\<lambda>(k, m). (k, method_name m)) opcode_map_table) solved_samples"
  by (rule conjI [OF solved_samples_run find_unique_sound [OF solved_samples_run]])

text \<open>
  C18. The elimination loop never ends when the samples mention fewer than sixteen
  distinct opcodes: \<^verbatim>\<open>while True\<close> only breaks at sixteen entries.
\<close>

theorem find_unique_diverges:
  "card (guess_opcode ` set gs) < 16 \<Longrightarrow> find_unique_results gs = None"
proof (rule ccontr)
  assume few: "card (guess_opcode ` set gs) < 16" and "find_unique_results gs \<noteq> None"
  then obtain r where "find_unique_results gs = Some r" by auto
  from find_unique_results_Some [OF this]
  have r: "distinct (map fst r)" "length r = 16" "sound_ops r gs" by auto
  from r(3) have "set (map fst r) \<subseteq> guess_opcode ` set gs"
    by (force simp: sound_ops_def)
  then have "card (set (map fst r)) \<le> card (guess_opcode ` set gs)"
    by (rule card_mono [rotated]) simp
  with r(2) distinct_card [OF r(1)] few show False
    by simp
qed

theorem find_unique_diverges_witness:
  "card (guess_opcode ` set [\<lparr>guess_opcode = 9, guesses = {''addi'', ''mulr'', ''seti''}\<rparr>]) < 16 \<and>
   find_unique_results [\<lparr>guess_opcode = 9, guesses = {''addi'', ''mulr'', ''seti''}\<rparr>] = None"
proof -
  have h: "card (guess_opcode ` set [\<lparr>guess_opcode = 9, guesses = {''addi'', ''mulr'', ''seti''}\<rparr>]) < 16"
    by simp
  show ?thesis by (rule conjI [OF h find_unique_diverges [OF h]])
qed

end
