(* ===== verification/Elf_Drivers.thy ===== *)
theory Elf_Drivers
  imports Elf_Jump_Device
begin

text \<open>
  The two scripts that drive the jump-capable device through
  \<^verbatim>\<open>execute_instructions_with_analysis\<close> and step in between the yields:
  \<^verbatim>\<open>src/day_19.py\<close>, which replaces the elf program's divisor-sum loop by
  \<^verbatim>\<open>fastforward_state\<close> whenever the counter reaches 2 with register 4 non-zero, and
  \<^verbatim>\<open>src/day_21.py\<close>, which shortcuts the division loop at counter 19 and, for part 2,
  records the values compared at counter 29 until one repeats. Each \<^verbatim>\<open>next(program)\<close>
  is one \<open>jump_step\<close> of \<open>Elf_Jump_Device\<close> (the first one also runs the set-up); the
  driver loops are \<^theory_text>\<open>partial_function (option)\<close>, since the elf program may
  run for ever.
\<close>

section \<open>Day 19: \<^verbatim>\<open>fastforward_state\<close>\<close>

text \<open>
  The \<^verbatim>\<open>while r4 <= r2\<close> loop on the unpacked registers: add each \<open>r4\<close> that
  divides \<open>r2\<close> to \<open>r0\<close>. \<^verbatim>\<open>r2 % r4\<close> raises \<^verbatim>\<open>ZeroDivisionError\<close> when the
  loop reaches \<open>r4 = 0\<close>. The loop variables are locals, so an exception leaves the
  device untouched.
\<close>

function divisor_loop :: "int \<Rightarrow> int \<Rightarrow> int \<Rightarrow> (int \<times> int) py_result" where
  "divisor_loop r0 r2 r4 =
     (if r4 \<le> r2
      then (if r4 = 0 then Inl ZeroDivisionError
            else divisor_loop (if r2 mod r4 = 0 then r0 + r4 else r0) r2 (r4 + 1))
      else Inr (r0, r4))"
  by pat_completeness auto
termination
  by (relation "measure (\<lambda>(r0, r2, r4). nat (r2 + 1 - r4))") auto

declare divisor_loop.simps [simp del]

text \<open>
  \<^verbatim>\<open>r0, r1, r2, r3, r4, r5 = device.registers\<close> raises \<^verbatim>\<open>ValueError\<close> unless there
  are exactly six registers; the loop result is written back as a new list, then the
  \<^verbatim>\<open>pc\<close> setter stores 13 in the bound register.
\<close>

definition fastforward_state :: "'a jump_device_scheme \<Rightarrow> 'a jump_device_scheme py_result" where
  "fastforward_state d =
     (case registers d of
        [r0, r1, r2, r3, r4, r5] \<Rightarrow>
          py_bind (divisor_loop r0 r2 r4) (\<lambda>(r0', r4').
            set_pc (d\<lparr>registers := [r0', r1, r2, r3, r4', r5]\<rparr>) 13)
      | _ \<Rightarrow> Inl ValueError)"

text \<open>
  The body of \<^verbatim>\<open>while instruction\<close> in \<^verbatim>\<open>test_part_1\<close> and \<^verbatim>\<open>test_part_2\<close>:
  at counter 2 with \<^verbatim>\<open>registers[4] != 0\<close> (read only when the counter is 2) call
  \<^verbatim>\<open>fastforward_state\<close> and \<^verbatim>\<open>continue\<close> without advancing the generator;
  otherwise take the next yield, and stop at \<^verbatim>\<open>None\<close>.
\<close>

definition day19_turn ::
  "elf_line list \<Rightarrow> 'a jump_device_scheme
   \<Rightarrow> 'a jump_device_scheme run_result + 'a jump_device_scheme" where
  "day19_turn prog d =
     (let advance =
        (case jump_step prog d of
           Halted d' \<Rightarrow> Inl (Completed d')
         | Raised e d' \<Rightarrow> Inl (Failed e d')
         | Stepped ins d' \<Rightarrow> Inr d')
      in case pc d of
           Inl e \<Rightarrow> Inl (Failed e d)
         | Inr p \<Rightarrow>
             if p = 2 then
               (case py_get (registers d) 4 of
                  Inl e \<Rightarrow> Inl (Failed e d)
                | Inr r4 \<Rightarrow>
                    if r4 \<noteq> 0 then
                      (case fastforward_state d of
                         Inl e \<Rightarrow> Inl (Failed e d)
                       | Inr d' \<Rightarrow> Inr d')
                    else advance)
             else advance)"

partial_function (option) day19_loop ::
  "elf_line list \<Rightarrow> 'a jump_device_scheme \<Rightarrow> 'a jump_device_scheme run_result option" where
  "day19_loop prog d = (case day19_turn prog d of Inl r \<Rightarrow> Some r | Inr d' \<Rightarrow> day19_loop prog d')"

text \<open>
  A whole test: build the device (\<open>None\<close> for \<^verbatim>\<open>ChronalDeviceWithJumps()\<close>), take
  the first yield (set-up and one step), then run the loop if it was an instruction.
\<close>

definition day19_run :: "int list option \<Rightarrow> elf_line list \<Rightarrow> jump_device run_result option" where
  "day19_run regs prog =
     (let d0 = chronal_device_with_jumps None regs
      in case setup_program d0 prog of
           Inl e \<Rightarrow> Some (Failed e d0)
         | Inr (d, rest) \<Rightarrow>
             (case jump_step rest d of
                Halted d' \<Rightarrow> Some (Completed d')
              | Raised e d' \<Rightarrow> Some (Failed e d')
              | Stepped ins d' \<Rightarrow> day19_loop rest d'))"

section \<open>Day 21\<close>

text \<open>
  The optimisation of both tests: when the counter is 19,
  \<^verbatim>\<open>registers[5] = registers[3] // 256\<close>, a plain list assignment (no
  \<^verbatim>\<open>set_register\<close>, no modulus), with Python's floor division.
\<close>

definition day21_shortcut :: "'a jump_device_scheme \<Rightarrow> 'a jump_device_scheme py_result" where
  "day21_shortcut d =
     py_bind (pc d) (\<lambda>p.
       if p = 19 then
         py_bind (py_get (registers d) 3) (\<lambda>r3.
         py_bind (py_set (registers d) 5 (r3 div 256)) (\<lambda>rs. Inr (d\<lparr>registers := rs\<rparr>)))
       else Inr d)"

text \<open>
  \<^verbatim>\<open>test_part_1\<close>: take the next yield, then apply the shortcut, whether the yield was
  an instruction or the final \<^verbatim>\<open>None\<close>; stop after \<^verbatim>\<open>None\<close>.
\<close>

partial_function (option) day21_loop1 ::
  "elf_line list \<Rightarrow> 'a jump_device_scheme \<Rightarrow> 'a jump_device_scheme run_result option" where
  "day21_loop1 prog d =
     (case jump_step prog d of
        Raised e d' \<Rightarrow> Some (Failed e d')
      | Halted d' \<Rightarrow>
          Some (case day21_shortcut d' of Inl e \<Rightarrow> Failed e d' | Inr d'' \<Rightarrow> Completed d'')
      | Stepped ins d' \<Rightarrow>
          (case day21_shortcut d' of
             Inl e \<Rightarrow> Some (Failed e d')
           | Inr d'' \<Rightarrow> day21_loop1 prog d''))"

definition day21_part1 :: "elf_line list \<Rightarrow> jump_device run_result option" where
  "day21_part1 prog =
     (let d0 = chronal_device_with_jumps None (Some [103548, 0, 0, 0, 0, 0])
      in case setup_program d0 prog of
           Inl e \<Rightarrow> Some (Failed e d0)
         | Inr (d, rest) \<Rightarrow>
             (case jump_step rest d of
                Halted d' \<Rightarrow> Some (Completed d')
              | Raised e d' \<Rightarrow> Some (Failed e d')
              | Stepped ins d' \<Rightarrow> day21_loop1 rest d'))"

text \<open>
  \<^verbatim>\<open>test_part_2\<close>: after the shortcut, at counter 29 the value of register 4 is
  looked up in \<^verbatim>\<open>seen\<close>; a repeat breaks the loop, a new value is added and becomes
  \<^verbatim>\<open>last\<close>. The test prints \<^verbatim>\<open>last\<close>, which is the result here (\<open>lastv\<close>).
\<close>

definition day21_record ::
  "'a jump_device_scheme \<Rightarrow> int set \<Rightarrow> int \<Rightarrow> (bool \<times> int set \<times> int) py_result" where
  "day21_record d seen lastv =
     py_bind (pc d) (\<lambda>p.
       if p = 29 then
         py_bind (py_get (registers d) 4) (\<lambda>r4.
           if r4 \<in> seen then Inr (True, seen, lastv) else Inr (False, insert r4 seen, r4))
       else Inr (False, seen, lastv))"

definition day21_turn2 ::
  "elf_line list \<Rightarrow> 'a jump_device_scheme \<Rightarrow> int set \<Rightarrow> int
   \<Rightarrow> int py_result + ('a jump_device_scheme \<times> int set \<times> int)" where
  "day21_turn2 prog d seen lastv =
     (let after_yield = (\<lambda>d' more.
        case py_bind (day21_shortcut d') (\<lambda>d''. py_bind (day21_record d'' seen lastv) (\<lambda>r. Inr (d'', r))) of
          Inl e \<Rightarrow> Inl (Inl e)
        | Inr (d'', brk, seen', lastv') \<Rightarrow>
            if brk \<or> \<not> more then Inl (Inr lastv') else Inr (d'', seen', lastv'))
      in case jump_step prog d of
           Raised e d' \<Rightarrow> Inl (Inl e)
         | Halted d' \<Rightarrow> after_yield d' False
         | Stepped ins d' \<Rightarrow> after_yield d' True)"

partial_function (option) day21_loop2 ::
  "elf_line list \<Rightarrow> 'a jump_device_scheme \<Rightarrow> int set \<Rightarrow> int \<Rightarrow> int py_result option" where
  "day21_loop2 prog d seen lastv =
     (case day21_turn2 prog d seen lastv of
        Inl r \<Rightarrow> Some r
      | Inr (d', seen', lastv') \<Rightarrow> day21_loop2 prog d' seen' lastv')"

definition day21_part2 :: "elf_line list \<Rightarrow> int py_result option" where
  "day21_part2 prog =
     (let d0 = chronal_device_with_jumps None (Some [0, 0, 0, 0, 0, 0])
      in case setup_program d0 prog of
           Inl e \<Rightarrow> Some (Inl e)
         | Inr (d, rest) \<Rightarrow>
             (case jump_step rest d of
                Raised e d' \<Rightarrow> Some (Inl e)
              | Halted d' \<Rightarrow> Some (py_get (registers d') 4)
              | Stepped ins d' \<Rightarrow>
                  (case py_get (registers d') 4 of
                     Inl e \<Rightarrow> Some (Inl e)
                   | Inr lastv \<Rightarrow> day21_loop2 rest d' {} lastv)))"

section \<open>Lemmas on \<^verbatim>\<open>fastforward_state\<close>\<close>

lemma divisor_loop_spec:
  "divisor_loop r0 r2 r4 =
     (if r4 \<le> 0 \<and> 0 \<le> r2 then Inl ZeroDivisionError
      else Inr (r0 + (\<Sum>k | r4 \<le> k \<and> k \<le> r2 \<and> k dvd r2. k), max r4 (r2 + 1)))"
proof (induction r0 r2 r4 rule: divisor_loop.induct)
  case (1 r0 r2 r4)
  show ?case
  proof (cases "r4 \<le> r2 \<and> r4 \<noteq> 0")
    case True
    have split: "{k. r4 \<le> k \<and> k \<le> r2 \<and> k dvd r2} =
      (if r4 dvd r2 then insert r4 else id) {k. r4 + 1 \<le> k \<and> k \<le> r2 \<and> k dvd r2}"
      using True by (auto simp: order.order_iff_strict)
    have fin: "finite {k. r4 + 1 \<le> k \<and> k \<le> r2 \<and> k dvd r2}"
      by (rule finite_subset [of _ "{r4 + 1..r2}"]) auto
    have sum: "(\<Sum>k | r4 \<le> k \<and> k \<le> r2 \<and> k dvd r2. k) =
      (if r4 dvd r2 then r4 else 0) + (\<Sum>k | r4 + 1 \<le> k \<and> k \<le> r2 \<and> k dvd r2. k)"
      using fin by (cases "r4 dvd r2") (simp_all only: split if_True if_False id_apply, simp_all)
    from True have "divisor_loop r0 r2 r4 =
      divisor_loop (if r2 mod r4 = 0 then r0 + r4 else r0) r2 (r4 + 1)"
      by (subst divisor_loop.simps) simp
    also have "\<dots> = (if r4 + 1 \<le> 0 \<and> 0 \<le> r2 then Inl ZeroDivisionError
      else Inr ((if r2 mod r4 = 0 then r0 + r4 else r0) +
                (\<Sum>k | r4 + 1 \<le> k \<and> k \<le> r2 \<and> k dvd r2. k), max (r4 + 1) (r2 + 1)))"
      using True by (simp add: "1.IH")
    finally show ?thesis
      using True by (simp add: sum mod_eq_0_iff_dvd)
  next
    case False
    show ?thesis
    proof (cases "r4 \<le> r2")
      case True
      with False have "r4 = 0" by simp
      with True show ?thesis by (subst divisor_loop.simps) simp
    next
      case le: False
      then have "(\<Sum>k | r4 \<le> k \<and> k \<le> r2 \<and> k dvd r2. k) = 0"
        by (intro sum.neutral) auto
      with le show ?thesis by (subst divisor_loop.simps) simp
    qed
  qed
qed

section \<open>Properties of the drivers\<close>

text \<open>
  C19. \<^verbatim>\<open>fastforward_state\<close> on six registers \<open>r0 .. r5\<close> raises
  \<^verbatim>\<open>ZeroDivisionError\<close> exactly when its loop must pass \<open>r4 = 0\<close>
  (\<open>r4 \<le> 0 \<le> r2\<close>); otherwise it adds to \<open>r0\<close> the divisors of \<open>r2\<close> in
  \<open>[r4, r2]\<close>, leaves \<open>r4\<close> at \<open>max r4 (r2 + 1)\<close>, and sets the counter to 13.
  The driver's guard \<^verbatim>\<open>registers[4] != 0\<close> does not exclude a negative \<open>r4\<close>.
\<close>

theorem fastforward_state_correct:
  "registers d = [r0, r1, r2, r3, r4, r5] \<Longrightarrow>
   fastforward_state d =
     (if r4 \<le> 0 \<and> 0 \<le> r2 then Inl ZeroDivisionError
      else set_pc (d\<lparr>registers := [r0 + (\<Sum>k | r4 \<le> k \<and> k \<le> r2 \<and> k dvd r2. k),
                                     r1, r2, r3, max r4 (r2 + 1), r5]\<rparr>) 13)"
  by (simp add: fastforward_state_def divisor_loop_spec)

theorem fastforward_state_correct_witness:
  "registers \<lparr>registers = [0, 0, 6, 0, 1, 0], MAX_modulus = None, program_register = 3\<rparr>
     = [0, 0, 6, 0, 1, 0] \<and>
   fastforward_state \<lparr>registers = [0, 0, 6, 0, 1, 0], MAX_modulus = None, program_register = 3\<rparr> =
     (if (1::int) \<le> 0 \<and> 0 \<le> (6::int) then Inl ZeroDivisionError
      else set_pc (\<lparr>registers = [0, 0, 6, 0, 1, 0], MAX_modulus = None, program_register = 3\<rparr>
             \<lparr>registers := [0 + (\<Sum>k | 1 \<le> k \<and> k \<le> 6 \<and> k dvd (6::int). k), 0, 6, 0, max 1 (6 + 1), 0]\<rparr>) 13)"
proof -
  have h: "registers \<lparr>registers = [0, 0, 6, 0, 1, 0], MAX_modulus = None, program_register = (3::int)\<rparr>
     = [0, 0, 6, 0, 1, 0::int]" by simp
  show ?thesis by (rule conjI [OF h fastforward_state_correct [OF h]])
qed

end
