(* ===== verification/Day08_License_Tree.thy ===== *)
theory Day08_License_Tree
  imports Py_Text
begin

text \<open>
  Day 8, \<^verbatim>\<open>src/day_08.py\<close>: a tree serialised as a list of numbers (a header
  \<open>(children, metadata)\<close>, the children, then the metadata entries). \<^verbatim>\<open>Tree.Node\<close> is
  the datatype \<open>node\<close> (name, children, metadata); \<^verbatim>\<open>Tree\<close> is the record \<open>tree\<close>
  (root and the naming counter). The parser \<^verbatim>\<open>tree_from_headers\<close> consumes a
  \<^verbatim>\<open>deque\<close> from the left through the nested functions \<^verbatim>\<open>next_header\<close>,
  \<^verbatim>\<open>metadata\<close> and \<^verbatim>\<open>visit\<close>; here the deque is the list of numbers not yet
  consumed, threaded through \<open>visit\<close> and \<open>children_loop\<close> together with the counter.
  The recursion of \<open>visit\<close> runs on fuel: every call consumes a header of two numbers,
  so fuel of one more than the length of the input is enough, and
  \<open>tree_from_headers\<close> always returns (lemma \<open>license_roundtrip\<close> and the fuel
  lemmas). \<^verbatim>\<open>all_nodes\<close>, \<^verbatim>\<open>metadata_sum\<close> and the property \<^verbatim>\<open>value\<close> are
  modelled with their edge cases: a root without children is returned bare (not in a
  list), and a metadata entry 0 indexes the children at \<open>-1\<close>.
\<close>

section \<open>Nodes and trees\<close>

definition ascii_uppercase :: string where
  "ascii_uppercase = ''ABCDEFGHIJKLMNOPQRSTUVWXYZ''"

text \<open>\<^verbatim>\<open>num_to_letter\<close>: the letter \<open>num mod 26\<close> repeated \<open>num div 26 + 1\<close> times.\<close>

definition num_to_letter :: "nat \<Rightarrow> string" where
  "num_to_letter num = concat (replicate (num div 26 + 1) [ascii_uppercase ! (num mod 26)])"

datatype node = Node (node_data: string) (children: "node list") (metadata: "int list")

record tree =
  tree_root :: "node option"
  tree_count :: nat

text \<open>
  \<^verbatim>\<open>all_nodes\<close> returns \<^verbatim>\<open>None\<close> without a root, the root itself when it has no
  children, and otherwise the list of nodes in post-order (children first).
\<close>

datatype all_nodes_result = NoNodes | OneNode node | NodeList "node list"

fun postorder :: "node \<Rightarrow> node list" where
  "postorder (Node d cs md) = concat (map postorder cs) @ [Node d cs md]"

definition all_nodes :: "tree \<Rightarrow> all_nodes_result" where
  "all_nodes t =
     (case tree_root t of
        None \<Rightarrow> NoNodes
      | Some r \<Rightarrow> if children r = [] then OneNode r else NodeList (postorder r))"

text \<open>
  \<^verbatim>\<open>sum([sum(node.metadata) for node in self.all_nodes()])\<close>: iterating over
  \<^verbatim>\<open>None\<close> or over a bare \<^verbatim>\<open>Node\<close> raises \<^verbatim>\<open>TypeError\<close>.
\<close>

definition metadata_sum :: "tree \<Rightarrow> int py_result" where
  "metadata_sum t =
     (case all_nodes t of
        NodeList ns \<Rightarrow> Inr (sum_list (map (\<lambda>n. sum_list (metadata n)) ns))
      | _ \<Rightarrow> Inl TypeError)"

text \<open>
  The accumulation \<^verbatim>\<open>total += ...\<close> of \<^verbatim>\<open>value\<close>, left to right, stopping at the
  first exception.
\<close>

fun py_sum :: "int py_result list \<Rightarrow> int py_result" where
  "py_sum [] = Inr 0"
| "py_sum (r # rs) = py_bind r (\<lambda>x. py_bind (py_sum rs) (\<lambda>y. Inr (x + y)))"

text \<open>
  The property \<^verbatim>\<open>value\<close>: a leaf is worth the sum of its metadata; otherwise each
  entry \<open>num\<close> with \<^verbatim>\<open>num - 1 >= len(children)\<close> is skipped and any other is
  \<^verbatim>\<open>children[num - 1].value\<close>, a Python index: 0 and negative entries count from the
  end, and below \<open>-len\<close> they raise \<^verbatim>\<open>IndexError\<close>.
\<close>

function node_value :: "node \<Rightarrow> int py_result" where
  "node_value (Node d cs md) =
     (if cs = [] then Inr (sum_list md)
      else py_sum (map (\<lambda>num.
             if num - 1 \<ge> int (length cs) then Inr 0
             else (case py_index (length cs) (num - 1) of
                     None \<Rightarrow> Inl IndexError
                   | Some j \<Rightarrow> node_value (cs ! j))) md))"
  by pat_completeness auto
termination
proof (relation "measure size")
  fix d :: string and cs :: "node list" and md :: "int list" and num :: int and j :: nat
  assume "py_index (length cs) (num - 1) = Some j"
  then have "cs ! j \<in> set cs" by (simp add: py_index_Some_less)
  then have "size (cs ! j) \<le> size_list size cs" by (rule size_list_estimation') simp
  then show "(cs ! j, Node d cs md) \<in> measure size" by simp
qed simp

section \<open>The parser\<close>

text \<open>\<^verbatim>\<open>numbers.popleft()\<close>: \<^verbatim>\<open>IndexError\<close> on an empty deque.\<close>

fun popleft :: "int list \<Rightarrow> (int \<times> int list) py_result" where
  "popleft [] = Inl IndexError"
| "popleft (x # xs) = Inr (x, xs)"

text \<open>\<^verbatim>\<open>next_header\<close>: the number of children is popped first.\<close>

definition next_header :: "int list \<Rightarrow> ((int \<times> int) \<times> int list) py_result" where
  "next_header nums =
     py_bind (popleft nums) (\<lambda>(nc, nums1).
     py_bind (popleft nums1) (\<lambda>(nm, nums2). Inr ((nc, nm), nums2)))"

text \<open>\<^verbatim>\<open>metadata(num)\<close>: \<^verbatim>\<open>[numbers.popleft() for _ in range(num)]\<close>.\<close>

fun metadata_pop :: "nat \<Rightarrow> int list \<Rightarrow> (int list \<times> int list) py_result" where
  "metadata_pop 0 nums = Inr ([], nums)"
| "metadata_pop (Suc n) nums =
     py_bind (popleft nums) (\<lambda>(x, nums1).
     py_bind (metadata_pop n nums1) (\<lambda>(xs, nums2). Inr (x # xs, nums2)))"

text \<open>
  \<^verbatim>\<open>visit(header)\<close>: take a new node (named after the counter, which is then
  incremented), read \<open>num_children\<close> children, each after its own header, then the
  metadata. \<open>children_loop\<close> is the \<^verbatim>\<open>for _ in range(header.num_children)\<close>
  loop; a non-positive count reads no child. The first argument is the fuel; \<open>None\<close> is
  running out of it.
\<close>

fun visit :: "nat \<Rightarrow> nat \<Rightarrow> int \<times> int \<Rightarrow> int list \<Rightarrow> (node \<times> nat \<times> int list) py_result option"
and children_loop ::
  "nat \<Rightarrow> nat \<Rightarrow> nat \<Rightarrow> int list \<Rightarrow> (node list \<times> nat \<times> int list) py_result option" where
  "visit 0 c h nums = None"
| "visit (Suc f) c (nc, nm) nums =
     (case children_loop f (nat nc) (Suc c) nums of
        None \<Rightarrow> None
      | Some (Inl e) \<Rightarrow> Some (Inl e)
      | Some (Inr (cs, c1, nums1)) \<Rightarrow>
          Some (py_bind (metadata_pop (nat nm) nums1) (\<lambda>(md, nums2).
            Inr (Node (num_to_letter c) cs md, c1, nums2))))"
| "children_loop f 0 c nums = Some (Inr ([], c, nums))"
| "children_loop f (Suc k) c nums =
     (case next_header nums of
        Inl e \<Rightarrow> Some (Inl e)
      | Inr (h, nums1) \<Rightarrow>
          (case visit f c h nums1 of
             None \<Rightarrow> None
           | Some (Inl e) \<Rightarrow> Some (Inl e)
           | Some (Inr (ch, c1, nums2)) \<Rightarrow>
               (case children_loop f k c1 nums2 of
                  None \<Rightarrow> None
                | Some (Inl e) \<Rightarrow> Some (Inl e)
                | Some (Inr (cs, c2, nums3)) \<Rightarrow> Some (Inr (ch # cs, c2, nums3)))))"

text \<open>
  \<^verbatim>\<open>Tree.tree_from_headers\<close>: split the text on whitespace, convert each word with
  \<^verbatim>\<open>int\<close>, read the root's header and visit it with a fresh tree (counter 0). Numbers
  left over after the root are ignored.
\<close>

definition tree_from_headers :: "string \<Rightarrow> tree py_result option" where
  "tree_from_headers s =
     (case py_map py_int (py_split s) of
        Inl e \<Rightarrow> Some (Inl e)
      | Inr nums \<Rightarrow>
          (case next_header nums of
             Inl e \<Rightarrow> Some (Inl e)
           | Inr (h, nums1) \<Rightarrow>
               map_option (\<lambda>r. py_bind r (\<lambda>(n, c, rest). Inr \<lparr>tree_root = Some n, tree_count = c\<rparr>))
                 (visit (length nums + 1) 0 h nums1)))"

section \<open>The license format\<close>

text \<open>
  The serialisation the parser reads (the puzzle's format): the header, the children in
  order, then the metadata; \<open>license_text\<close> prints it with one space after each
  number. \<open>erase\<close> forgets the names the parser invents, and \<open>node_count\<close> counts
  the nodes.
\<close>

fun encode :: "node \<Rightarrow> int list" where
  "encode (Node d cs md) = [int (length cs), int (length md)] @ concat (map encode cs) @ md"

definition license_text :: "node \<Rightarrow> string" where
  "license_text t = concat (map (\<lambda>n. py_str_int n @ '' '') (encode t))"

fun erase :: "node \<Rightarrow> node" where
  "erase (Node d cs md) = Node [] (map erase cs) md"

fun node_count :: "node \<Rightarrow> nat" where
  "node_count (Node d cs md) = Suc (sum_list (map node_count cs))"

text \<open>The example of the tests and of the puzzle text.\<close>

definition day8_sample :: string where
  "day8_sample = ''2 3 0 3 10 11 12 1 1 0 1 99 2 1 1 2''"

section \<open>Lemmas on the parser\<close>

lemma next_header_Cons2: "next_header (a # b # rest) = Inr ((a, b), rest)"
  by (simp add: next_header_def)

lemma next_header_rest: "next_header nums = Inr (h, rest) \<Longrightarrow> length rest + 2 = length nums"
  by (cases nums rule: remdups_adj.cases) (auto simp: next_header_def)

lemma metadata_pop_rest: "metadata_pop n nums = Inr (md, rest) \<Longrightarrow> length rest \<le> length nums"
proof (induction n arbitrary: nums md)
  case (Suc n)
  then obtain a xs where nums: "nums = a # xs" by (cases nums) auto
  with Suc.prems obtain md' where "metadata_pop n xs = Inr (md', rest)"
    by (auto simp: py_bind_Inr_iff split: prod.splits)
  with Suc.IH nums show ?case by fastforce
qed simp

lemma metadata_pop_append: "metadata_pop (length md) (md @ rest) = Inr (md, rest)"
  by (induction md) auto

lemma visit_rest:
  shows "visit f c h nums = Some (Inr (n, c', rest)) \<Longrightarrow> length rest \<le> length nums"
    and "children_loop f k c nums = Some (Inr (cs, c', rest)) \<Longrightarrow> length rest \<le> length nums"
proof (induction f c h nums and f k c nums arbitrary: n c' rest and cs c' rest
       rule: visit_children_loop.induct)
  case (2 f c nc nm nums)
  then show ?case
    by (auto split: option.splits sum.splits prod.splits simp: py_bind_Inr_iff
        dest!: metadata_pop_rest)
next
  case (4 f k c nums)
  then show ?case
    by (auto split: option.splits sum.splits prod.splits dest!: next_header_rest) fastforce
qed auto

lemma visit_fuel:
  shows "length nums < f \<Longrightarrow> visit f c h nums \<noteq> None"
    and "length nums \<le> f \<Longrightarrow> children_loop f k c nums \<noteq> None"
proof (induction f c h nums and f k c nums rule: visit_children_loop.induct)
  case (2 f c nc nm nums)
  then show ?case by (auto split: option.splits sum.splits)
next
  case (4 f k c nums)
  show ?case
  proof (cases "next_header nums")
    case hdr: (Inr r)
    obtain h nums1 where r: "r = (h, nums1)" by fastforce
    have len1: "length nums1 + 2 = length nums" using next_header_rest hdr r by blast
    with "4.prems" have "length nums1 < f" by simp
    with "4.IH"(1) [OF hdr [unfolded r] refl] have v: "visit f c h nums1 \<noteq> None" .
    show ?thesis
    proof (cases "visit f c h nums1")
      case (Some v')
      show ?thesis
      proof (cases v')
        case res: (Inr x)
        obtain ch c1 nums2 where x: "x = (ch, c1, nums2)" by (cases x) auto
        have vs: "visit f c h nums1 = Some (Inr (ch, c1, nums2))" using Some res x by simp
        then have "length nums2 \<le> length nums1" by (rule visit_rest(1))
        with len1 "4.prems" have "length nums2 \<le> f" by simp
        with "4.IH"(2) [OF hdr [unfolded r] refl vs refl refl refl]
        have "children_loop f k c1 nums2 \<noteq> None" .
        with hdr r vs show ?thesis by (auto split: option.splits sum.splits)
      qed (use Some r hdr in simp)
    qed (use v in simp)
  qed simp
qed auto


lemma children_loop_encode:
  assumes "\<And>ch c rest. ch \<in> set cs \<Longrightarrow>
    \<exists>ch'. visit f c (int (length (children ch)), int (length (metadata ch)))
             (concat (map encode (children ch)) @ metadata ch @ rest) =
           Some (Inr (ch', c + node_count ch, rest)) \<and> erase ch' = erase ch"
  shows "\<exists>cs'. children_loop f (length cs) c (concat (map encode cs) @ rest) =
           Some (Inr (cs', c + sum_list (map node_count cs), rest)) \<and> map erase cs' = map erase cs"
  using assms
proof (induction cs arbitrary: c rest)
  case (Cons ch cs)
  obtain d ccs md where ch: "ch = Node d ccs md" by (cases ch)
  let ?rest = "concat (map encode cs) @ rest"
  from Cons.prems [of ch c ?rest] obtain ch' where
    v: "visit f c (int (length ccs), int (length md)) (concat (map encode ccs) @ md @ ?rest) =
        Some (Inr (ch', c + node_count ch, ?rest))" and e: "erase ch' = erase ch"
    by (auto simp: ch)
  from Cons.IH [of "c + node_count ch" rest] Cons.prems obtain cs' where
    l: "children_loop f (length cs) (c + node_count ch) ?rest =
        Some (Inr (cs', c + node_count ch + sum_list (map node_count cs), rest))"
    and e': "map erase cs' = map erase cs" by auto
  have "concat (map encode (ch # cs)) @ rest =
        int (length ccs) # int (length md) # (concat (map encode ccs) @ md @ ?rest)"
    by (simp add: ch)
  with v l e e' show ?case by (auto simp: next_header_Cons2 add.assoc)
qed simp

lemma visit_encode:
  "length (encode t) \<le> f \<Longrightarrow>
   \<exists>t'. visit f c (int (length (children t)), int (length (metadata t)))
          (concat (map encode (children t)) @ metadata t @ rest) =
        Some (Inr (t', c + node_count t, rest)) \<and> erase t' = erase t"
proof (induction t arbitrary: f c rest)
  case (Node d cs md)
  then obtain f' where f: "f = Suc f'" by (cases f) auto
  have bound: "length (encode ch) \<le> f'" if "ch \<in> set cs" for ch
  proof -
    from that have "length (encode ch) \<le> sum_list (map (\<lambda>x. length (encode x)) cs)"
      by (intro member_le_sum_list) auto
    with Node.prems f show ?thesis by (simp add: length_concat comp_def)
  qed
  have "\<exists>cs'. children_loop f' (length cs) (Suc c) (concat (map encode cs) @ md @ rest) =
      Some (Inr (cs', Suc c + sum_list (map node_count cs), md @ rest)) \<and> map erase cs' = map erase cs"
    by (rule children_loop_encode) (use Node.IH bound in auto)
  then show ?case by (auto simp: f metadata_pop_append)
qed

lemma license_words: "py_split (license_text t) = map py_str_int (encode t)"
proof -
  have "license_text t = concat (map (\<lambda>w. w @ '' '') (map py_str_int (encode t)))"
    by (simp add: license_text_def comp_def)
  moreover have "\<forall>w \<in> set (map py_str_int (encode t)). w \<noteq> [] \<and> (\<forall>c \<in> set w. \<not> is_space c)"
    using py_str_int_word by auto
  ultimately show ?thesis by (simp only: py_split_words)
qed

text \<open>
  The three tests of \<^verbatim>\<open>TestTree\<close> on the sample: the parse, the metadata sum 138 and
  the root value 66.
\<close>

lemma day8_sample_tree:
  "tree_from_headers day8_sample = Some (Inr \<lparr>tree_root = Some
     (Node ''A'' [Node ''B'' [] [10, 11, 12], Node ''C'' [Node ''D'' [] [99]] [2]] [1, 1, 2]),
      tree_count = 4\<rparr>)"
  by code_simp

lemma day8_sample_sums:
  "metadata_sum \<lparr>tree_root = Some
     (Node ''A'' [Node ''B'' [] [10, 11, 12], Node ''C'' [Node ''D'' [] [99]] [2]] [1, 1, 2]),
      tree_count = 4\<rparr> = Inr 138"
  "node_value (Node ''A'' [Node ''B'' [] [10, 11, 12], Node ''C'' [Node ''D'' [] [99]] [2]] [1, 1, 2])
     = Inr 66"
  by (simp_all add: metadata_sum_def all_nodes_def py_index_def)

text \<open>
  A tree whose root has no children cannot be summed: \<^verbatim>\<open>all_nodes\<close> returns the bare
  root and iterating over it raises \<^verbatim>\<open>TypeError\<close>.
\<close>

lemma metadata_sum_single_node:
  "metadata_sum \<lparr>tree_root = Some (Node d [] md), tree_count = c\<rparr> = Inl TypeError"
  by (simp add: metadata_sum_def all_nodes_def)

section \<open>Properties of the tree\<close>

text \<open>
  C20. Parsing the text of any tree gives the tree back: \<^verbatim>\<open>tree_from_headers\<close>
  returns a root equal to it up to the names the parser invents, with the counter at
  the number of nodes.
\<close>

theorem license_roundtrip:
  "\<exists>t'. tree_from_headers (license_text t) =
          Some (Inr \<lparr>tree_root = Some t', tree_count = node_count t\<rparr>) \<and> erase t' = erase t"
proof -
  obtain d cs md where t: "t = Node d cs md" by (cases t)
  have nums: "py_map py_int (py_split (license_text t)) = Inr (encode t)"
    by (simp add: license_words py_map_inverse py_int_py_str_int)
  have len: "length (encode t) \<le> length (encode t) + 1" by simp
  from visit_encode [OF len, of 0 "[]"] obtain t' where
    "visit (length (encode t) + 1) 0 (int (length cs), int (length md)) (concat (map encode cs) @ md) =
       Some (Inr (t', node_count t, []))" and "erase t' = erase t"
    by (auto simp: t)
  with nums show ?thesis
    by (simp add: tree_from_headers_def t next_header_Cons2)
qed

text \<open>C21. \<^verbatim>\<open>tree_from_headers\<close> returns on every input: the fuel never runs out.\<close>

theorem tree_from_headers_total: "tree_from_headers s \<noteq> None"
proof (cases "py_map py_int (py_split s)")
  case nums: (Inr nums)
  show ?thesis
  proof (cases "next_header nums")
    case (Inr r)
    obtain h nums1 where r: "r = (h, nums1)" by fastforce
    have "length nums1 + 2 = length nums" using next_header_rest Inr r by blast
    then have "visit (length nums + 1) 0 h nums1 \<noteq> None" by (intro visit_fuel(1)) simp
    with nums Inr r show ?thesis
      by (simp add: tree_from_headers_def)
  qed (simp add: tree_from_headers_def nums)
qed (simp add: tree_from_headers_def)

text \<open>
  C22. A metadata entry 0 of a node with children does not skip, as the puzzle text
  says it should: \<^verbatim>\<open>children[0 - 1]\<close> is the last child, so a node with the single
  entry 0 is worth its last child.
\<close>

theorem zero_entry_counts_last_child:
  "cs \<noteq> [] \<Longrightarrow> node_value (Node d cs [0]) = node_value (last cs)"
proof -
  assume "cs \<noteq> []"
  then have "py_index (length cs) (0 - 1) = Some (length cs - 1)"
    by (cases cs) (auto simp: py_index_def)
  moreover have "cs ! (length cs - 1) = last cs" using \<open>cs \<noteq> []\<close> by (simp add: last_conv_nth)
  ultimately show ?thesis
    using \<open>cs \<noteq> []\<close> by simp
qed

theorem zero_entry_counts_last_child_witness:
  "[Node '''' [] [5]] \<noteq> [] \<and>
   node_value (Node '''' [Node '''' [] [5]] [0]) = node_value (last [Node '''' [] [5]])"
proof -
  have h: "[Node '''' [] [5]] \<noteq> []" by simp
  show ?thesis by (rule conjI [OF h zero_entry_counts_last_child [OF h]])
qed

end
