(* ===== verification/Day01_Calibration.thy ===== *)
theory Day01_Calibration
  imports Py_Text
begin

text \<open>
  Day 1, \<^verbatim>\<open>src/day_01.py\<close>: the frequency changes read one per line
  (\<open>frequencies\<close>), their sum (part 1) and \<^verbatim>\<open>first_repeated_value\<close> (part 2), the
  first running total reached twice while the list is cycled, giving up after
  \<^verbatim>\<open>len(values) * passes\<close> turns. The \<^verbatim>\<open>while\<close> loop is \<open>repeat_loop\<close>, a
  \<^theory_text>\<open>function\<close> whose termination measure is the number of turns left.
  Its specification is \<open>cycle_sum\<close>, the running total after \<open>k\<close> turns; the lemma
  \<open>first_repeated_value_spec\<close> characterises the result as the total at the least turn
  whose total was already seen, among the turns the loop checks.
\<close>

section \<open>The code\<close>

text \<open>\<^verbatim>\<open>[int(line.rstrip()) for line in f.readlines()]\<close>, on the lines of the file.\<close>

definition frequencies :: "string list \<Rightarrow> int list py_result" where
  "frequencies lines = py_map (\<lambda>line. py_int (py_rstrip line)) lines"

text \<open>
  One turn of \<^verbatim>\<open>while i < len(values) * passes\<close>: return the total if it was seen,
  otherwise record it and add \<^verbatim>\<open>values[i % len(values)]\<close>. The index is never
  negative, and the loop is not entered on an empty list, so nothing raises.
\<close>

function repeat_loop :: "int list \<Rightarrow> int \<Rightarrow> int \<Rightarrow> int set \<Rightarrow> nat \<Rightarrow> int option" where
  "repeat_loop vals passes tot seen i =
     (if int i < int (length vals) * passes then
        (if tot \<in> seen then Some tot
         else repeat_loop vals passes (tot + vals ! (i mod length vals)) (insert tot seen) (Suc i))
      else None)"
  by pat_completeness auto
termination
  by (relation "measure (\<lambda>(vals, passes, tot, seen, i). nat (int (length vals) * passes - int i))")
     auto

declare repeat_loop.simps [simp del]

definition first_repeated_value :: "int list \<Rightarrow> int \<Rightarrow> int option" where
  "first_repeated_value vals passes = repeat_loop vals passes 0 {} 0"

text \<open>The two tests on the file's lines, with the default of 200 passes.\<close>

definition day1_part1 :: "string list \<Rightarrow> int py_result" where
  "day1_part1 lines = py_bind (frequencies lines) (\<lambda>vs. Inr (sum_list vs))"

definition day1_part2 :: "string list \<Rightarrow> int option py_result" where
  "day1_part2 lines = py_bind (frequencies lines) (\<lambda>vs. Inr (first_repeated_value vs 200))"

section \<open>Specification\<close>

text \<open>The running total after \<open>k\<close> turns of the cycled list.\<close>

definition cycle_sum :: "int list \<Rightarrow> nat \<Rightarrow> int" where
  "cycle_sum vals k = sum_list (map (\<lambda>j. vals ! (j mod length vals)) [0..<k])"

text \<open>Turn \<open>k\<close> is checked by the loop and finds a total seen at an earlier turn.\<close>

definition repeats_at :: "int list \<Rightarrow> int \<Rightarrow> nat \<Rightarrow> bool" where
  "repeats_at vals passes k \<longleftrightarrow>
     int k < int (length vals) * passes \<and> cycle_sum vals k \<in> cycle_sum vals ` {..<k}"

section \<open>Lemmas\<close>

lemma cycle_sum_Suc: "cycle_sum vals (Suc k) = cycle_sum vals k + vals ! (k mod length vals)"
  by (simp add: cycle_sum_def)

lemma seen_Suc: "insert (cycle_sum vals i) (cycle_sum vals ` {..<i}) = cycle_sum vals ` {..<Suc i}"
  by (auto simp: lessThan_Suc)

lemma repeat_loop_spec:
  "tot = cycle_sum vals i \<Longrightarrow> seen = cycle_sum vals ` {..<i} \<Longrightarrow>
   \<forall>j<i. \<not> repeats_at vals passes j \<Longrightarrow>
   repeat_loop vals passes tot seen i =
     (if \<exists>k. repeats_at vals passes k
      then Some (cycle_sum vals (LEAST k. repeats_at vals passes k)) else None)"
proof (induction vals passes tot seen i rule: repeat_loop.induct)
  case (1 vals passes tot seen i)
  show ?case
  proof (cases "int i < int (length vals) * passes")
    case bound: True
    show ?thesis
    proof (cases "tot \<in> seen")
      case True
      with bound "1.prems" have rep: "repeats_at vals passes i" by (simp add: repeats_at_def)
      with "1.prems"(3) have "(LEAST k. repeats_at vals passes k) = i"
        by (intro Least_equality) (auto simp: not_less [symmetric])
      with rep bound True "1.prems" show ?thesis by (subst repeat_loop.simps) auto
    next
      case False
      with bound "1.prems" have "\<not> repeats_at vals passes i" by (simp add: repeats_at_def)
      with "1.prems"(3) have "\<forall>j<Suc i. \<not> repeats_at vals passes j" by (auto simp: less_Suc_eq)
      with "1.IH" [OF bound False] "1.prems" bound False show ?thesis
        by (subst repeat_loop.simps) (simp add: cycle_sum_Suc seen_Suc)
    qed
  next
    case False
    have "\<not> repeats_at vals passes k" for k
      using False "1.prems"(3) by (cases "k < i") (auto simp: repeats_at_def)
    with False show ?thesis by (subst repeat_loop.simps) auto
  qed
qed

text \<open>
  The assertions of \<^verbatim>\<open>test_first_repeated\<close> that find a repeat (the fifth,
  \<open>[+1, +1]\<close>, needs all 400 turns to give up).
\<close>

lemma day1_tests:
  "first_repeated_value [1, -1] 200 = Some 0"
  "first_repeated_value [3, 3, 4, -2, -4] 200 = Some 10"
  "first_repeated_value [-6, 3, 8, 5, -6] 200 = Some 5"
  "first_repeated_value [7, 7, -2, -7, -4] 200 = Some 14"
  by (simp_all add: first_repeated_value_def repeat_loop.simps)

text \<open>
  The total reached at the end of the last allowed turn is never checked: with one pass
  over \<open>[+1, -1]\<close> the totals are 0, 1, 0, yet the loop stops before comparing the
  final 0.
\<close>

lemma one_pass_misses_final_total:
  "first_repeated_value [1, -1] 1 = None \<and> cycle_sum [1, -1] 2 = cycle_sum [1, -1] 0"
  by (simp add: first_repeated_value_def repeat_loop.simps cycle_sum_def eval_nat_numeral)

section \<open>Properties\<close>

text \<open>
  C23. \<^verbatim>\<open>first_repeated_value(values, passes)\<close> returns the running total at the
  least turn \<open>k < len(values) * passes\<close> whose total equals the total at an earlier
  turn, and \<^verbatim>\<open>None\<close> when no such turn exists; the loop always ends.
\<close>

theorem first_repeated_value_spec:
  "first_repeated_value vals passes =
     (if \<exists>k. repeats_at vals passes k
      then Some (cycle_sum vals (LEAST k. repeats_at vals passes k)) else None)"
  unfolding first_repeated_value_def
  by (rule repeat_loop_spec) (simp_all add: cycle_sum_def)

end
