(* ===== verification/Day05_Polymer.thy ===== *)
theory Day05_Polymer
  imports Py_Text "HOL-Library.Extended_Nat"
begin

text \<open>
  Day 5, \<^verbatim>\<open>src/day_05.py\<close>: \<^verbatim>\<open>reduce_polymer\<close> removes adjacent units of the
  same type and opposite polarity with a stack, in one left-to-right pass; part 2 removes
  each letter in both cases and keeps the shortest reduced length, starting from
  \<^verbatim>\<open>float('inf')\<close> (here \<open>\<infinity>\<close> of \<open>enat\<close>). The stack is a list with its top first,
  so \<^verbatim>\<open>''.join(stack)\<close> is its reverse. The specification is the puzzle's reaction
  relation \<open>react_step\<close>: the lemma \<open>reduce_polymer_reacts_fully\<close> shows that the
  one-pass stack reaches, by reactions, a polymer in which no two adjacent units react.
\<close>

section \<open>The code\<close>

text \<open>
  \<^verbatim>\<open>str.swapcase\<close> on one ASCII character: letters change case, anything else is
  left as it is.
\<close>

definition swapcase :: "char \<Rightarrow> char" where
  "swapcase c =
     (let n = (of_char c :: nat)
      in if 65 \<le> n \<and> n \<le> 90 then char_of (n + 32)
         else if 97 \<le> n \<and> n \<le> 122 then char_of (n - 32) else c)"

text \<open>
  One turn of \<^verbatim>\<open>for c in polymer\<close>: pop the top if it is \<^verbatim>\<open>c.swapcase()\<close>,
  otherwise push \<open>c\<close>.
\<close>

fun react :: "char list \<Rightarrow> char \<Rightarrow> char list" where
  "react [] c = [c]"
| "react (t # st) c = (if swapcase c = t then st else c # t # st)"

definition reduce_polymer :: "string \<Rightarrow> string" where
  "reduce_polymer polymer = rev (foldl react [] polymer)"

definition ascii_letters :: string where
  "ascii_letters = ''abcdefghijklmnopqrstuvwxyzABCDEFGHIJKLMNOPQRSTUVWXYZ''"

text \<open>\<^verbatim>\<open>data.replace(c, '').replace(c.swapcase(), '')\<close>.\<close>

definition remove_unit :: "char \<Rightarrow> string \<Rightarrow> string" where
  "remove_unit c s = filter (\<lambda>x. x \<noteq> swapcase c) (filter (\<lambda>x. x \<noteq> c) s)"

text \<open>The tests on the stripped input: part 1 and the loop of part 2.\<close>

definition day5_part1 :: "string \<Rightarrow> nat" where
  "day5_part1 content = length (reduce_polymer (py_strip content))"

definition day5_part2 :: "string \<Rightarrow> enat" where
  "day5_part2 content =
     foldl (\<lambda>shortest c. min (enat (length (reduce_polymer (remove_unit c (py_strip content))))) shortest)
       \<infinity> ascii_letters"

section \<open>Specification\<close>

text \<open>
  Two adjacent units react when one is the other with its case swapped; a polymer is
  fully reacted when no adjacent pair reacts.
\<close>

inductive react_step :: "string \<Rightarrow> string \<Rightarrow> bool" where
  "swapcase a = b \<Longrightarrow> react_step (u @ a # b # v) (u @ v)"

fun irreducible :: "string \<Rightarrow> bool" where
  "irreducible (a # b # r) \<longleftrightarrow> swapcase a \<noteq> b \<and> irreducible (b # r)"
| "irreducible _ \<longleftrightarrow> True"

section \<open>Lemmas\<close>

lemma swapcase_swapcase: "swapcase (swapcase c) = c"
proof -
  have of_char_of: "(of_char (char_of m) :: nat) = m" if "m < 256" for m :: nat
    using that by simp
  define n where "n = (of_char c :: nat)"
  have c: "c = char_of n" by (simp add: n_def)
  have "n < 256" by (simp add: n_def)
  then show ?thesis
    by (auto simp: swapcase_def Let_def c of_char_of)
qed

lemma swapcase_sym: "swapcase a = b \<longleftrightarrow> swapcase b = a"
  by (metis swapcase_swapcase)

lemma irreducible_snoc2:
  "irreducible (xs @ [a, b]) \<longleftrightarrow> irreducible (xs @ [a]) \<and> swapcase a \<noteq> b"
  by (induction xs rule: irreducible.induct) auto

lemma irreducible_butlast: "irreducible (xs @ [a]) \<Longrightarrow> irreducible xs"
  by (induction xs rule: irreducible.induct) auto

lemma react_fold:
  "irreducible (rev st) \<Longrightarrow>
   react_step\<^sup>*\<^sup>* (rev st @ rest) (rev (foldl react st rest)) \<and> irreducible (rev (foldl react st rest))"
proof (induction rest arbitrary: st)
  case (Cons c rest)
  show ?case
  proof (cases st)
    case Nil
    with Cons.IH [of "[c]"] show ?thesis by simp
  next
    case (Cons t s)
    show ?thesis
    proof (cases "swapcase c = t")
      case True
      then have step: "react_step (rev s @ t # c # rest) (rev s @ rest)"
        using react_step.intros [of t c "rev s" rest] by (simp add: swapcase_sym)
      from Cons.prems \<open>st = t # s\<close> have "irreducible (rev s)"
        by (simp add: irreducible_butlast)
      with Cons.IH [of s] step True \<open>st = t # s\<close> show ?thesis
        by (auto intro: converse_rtranclp_into_rtranclp)
    next
      case False
      then have "swapcase t \<noteq> c" by (simp add: swapcase_sym)
      with Cons.prems \<open>st = t # s\<close> have "irreducible (rev (c # st))"
        by (simp add: irreducible_snoc2)
      with Cons.IH [of "c # st"] False \<open>st = t # s\<close> show ?thesis by simp
    qed
  qed
qed simp

text \<open>
  The assertions of \<^verbatim>\<open>test_reduce_polymer\<close> and the example of the puzzle text.
\<close>

lemma day5_tests:
  "reduce_polymer ''hHsSmMHhhHwWfoo'' = ''foo''"
  "reduce_polymer ''hHsSmMHhhHwWfoohHsSmMHaAhhHwW'' = ''foo''"
  "reduce_polymer ''dabAcCaCBAcCcaDA'' = ''dabCBAcaDA''"
  by code_simp+

text \<open>
  \<^verbatim>\<open>swapcase\<close> leaves a non-letter unchanged, so two equal non-letters are removed
  as if they reacted.
\<close>

lemma equal_non_letters_react: "reduce_polymer ''11'' = []"
  by code_simp

section \<open>Properties\<close>

text \<open>
  C24. The one-pass stack of \<^verbatim>\<open>reduce_polymer\<close> reacts the polymer fully: its
  result is reached from the input by a sequence of reactions of adjacent opposite-case
  units, and no two adjacent units of the result react.
\<close>

theorem reduce_polymer_reacts_fully:
  "react_step\<^sup>*\<^sup>* polymer (reduce_polymer polymer) \<and> irreducible (reduce_polymer polymer)"
  using react_fold [of "[]" polymer] by (simp add: reduce_polymer_def)

end
