(* ===== verification/Day02_Box_Scan.thy ===== *)
theory Day02_Box_Scan
  imports Py_Text "HOL-Library.Sublist"
begin

text \<open>
  Day 2, \<^verbatim>\<open>src/day_02.py\<close>: box identifiers. \<^verbatim>\<open>has_n\<close> asks whether some letter
  occurs exactly \<open>n\<close> times (\<^verbatim>\<open>Counter(string).values()\<close> is the image of
  \<open>count_list\<close>), \<^verbatim>\<open>checksum\<close> multiplies the numbers of identifiers with a double
  and with a triple letter, \<^verbatim>\<open>char_difference\<close> counts differing positions,
  \<^verbatim>\<open>closest_match\<close> scans \<^verbatim>\<open>permutations(words, 2)\<close> for the least difference
  and \<^verbatim>\<open>Match.overlap\<close> looks for the common letters. \<^verbatim>\<open>char_difference\<close> returns
  (does not raise) a \<^verbatim>\<open>ValueError\<close> for strings of different lengths; the datatype
  \<open>diff\<close> holds either kind of value, and comparing such an exception object with
  \<open><\<close> raises \<^verbatim>\<open>TypeError\<close>.
\<close>

section \<open>The code\<close>

definition box_ids :: "string list \<Rightarrow> string list" where
  "box_ids lines = map py_rstrip lines"

definition has_n :: "string \<Rightarrow> int \<Rightarrow> bool" where
  "has_n s n \<longleftrightarrow> n \<in> (\<lambda>c. int (count_list s c)) ` set s"

text \<open>\<^verbatim>\<open>twos += has_n(string, 2)\<close> adds a \<^verbatim>\<open>bool\<close>, that is 0 or 1.\<close>

definition checksum :: "string list \<Rightarrow> int" where
  "checksum ids =
     (let (twos, threes) =
        foldl (\<lambda>(twos, threes) s. (twos + (if has_n s 2 then 1 else 0), threes + (if has_n s 3 then 1 else 0)))
          (0, 0) ids
      in twos * threes)"

datatype diff = DiffInt int | DiffExc py_error

definition char_difference :: "string \<Rightarrow> string \<Rightarrow> diff" where
  "char_difference a b =
     (if length a \<noteq> length b then DiffExc ValueError
      else DiffInt (int (length (filter (\<lambda>(x, y). x \<noteq> y) (zip a b)))))"

text \<open>The named tuple \<^verbatim>\<open>Match(a, b, diff)\<close>; its first two fields may be \<^verbatim>\<open>None\<close>.\<close>

record match =
  match_a :: "string option"
  match_b :: "string option"
  match_diff :: diff

text \<open>
  \<^verbatim>\<open>for i in range(self.diff + 1)\<close>: the slice \<^verbatim>\<open>a[i:overlap_len + 1]\<close> is tested
  with \<^verbatim>\<open>in\<close> against \<open>b\<close> (a substring test, which raises \<^verbatim>\<open>TypeError\<close> when
  \<open>b\<close> is \<^verbatim>\<open>None\<close>); falling off the loop returns \<^verbatim>\<open>None\<close>.
\<close>

fun overlap_loop :: "string \<Rightarrow> string option \<Rightarrow> int \<Rightarrow> nat \<Rightarrow> nat \<Rightarrow> string option py_result" where
  "overlap_loop a b olen i 0 = Inr None"
| "overlap_loop a b olen i (Suc k) =
     (let substr = py_slice a (int i) (olen + 1)
      in case b of
           None \<Rightarrow> Inl TypeError
         | Some bs \<Rightarrow> if sublist substr bs then Inr (Some substr) else overlap_loop a b olen (Suc i) k)"

text \<open>
  The property \<^verbatim>\<open>overlap\<close>: \<^verbatim>\<open>len(self.a) - self.diff\<close> raises \<^verbatim>\<open>TypeError\<close>
  when \<open>a\<close> is \<^verbatim>\<open>None\<close> or the difference is an exception object.
\<close>

definition overlap :: "match \<Rightarrow> string option py_result" where
  "overlap m =
     (case match_a m of
        None \<Rightarrow> Inl TypeError
      | Some a \<Rightarrow>
          (case match_diff m of
             DiffExc e \<Rightarrow> Inl TypeError
           | DiffInt d \<Rightarrow> overlap_loop a (match_b m) (int (length a) - d) 0 (nat (d + 1))))"

text \<open>
  \<^verbatim>\<open>permutations(words, 2)\<close>: all ordered pairs of entries at different positions, in
  the order of the positions.
\<close>

definition perm_pairs :: "'a list \<Rightarrow> ('a \<times> 'a) list" where
  "perm_pairs xs =
     concat (map (\<lambda>i. map (\<lambda>j. (xs ! i, xs ! j)) (filter (\<lambda>j. j \<noteq> i) [0..<length xs])) [0..<length xs])"

text \<open>
  The loop of \<^verbatim>\<open>closest_match\<close>: \<^verbatim>\<open>match.diff < closest.diff\<close> compares two ints,
  or raises \<^verbatim>\<open>TypeError\<close> when one side is an exception object.
\<close>

fun closest_loop :: "match \<Rightarrow> (string \<times> string) list \<Rightarrow> match py_result" where
  "closest_loop c [] = Inr c"
| "closest_loop c ((a, b) # ps) =
     (let m = \<lparr>match_a = Some a, match_b = Some b, match_diff = char_difference a b\<rparr>
      in case (match_diff m, match_diff c) of
           (DiffInt x, DiffInt y) \<Rightarrow> closest_loop (if x < y then m else c) ps
         | _ \<Rightarrow> Inl TypeError)"

definition closest_match :: "string list \<Rightarrow> match py_result" where
  "closest_match words =
     closest_loop \<lparr>match_a = None, match_b = None, match_diff = DiffInt 100\<rparr> (perm_pairs words)"

text \<open>The two tests on the lines of the input.\<close>

definition day2_part1 :: "string list \<Rightarrow> int" where
  "day2_part1 lines = checksum (box_ids lines)"

definition day2_part2 :: "string list \<Rightarrow> string option py_result" where
  "day2_part2 lines = py_bind (closest_match (box_ids lines)) overlap"

section \<open>Lemmas\<close>

lemma closest_loop_error:
  "\<exists>y. match_diff c = DiffInt y \<Longrightarrow>
   closest_loop c ps = Inl e \<longleftrightarrow> e = TypeError \<and> (\<exists>(a, b) \<in> set ps. length a \<noteq> length b)"
proof (induction ps arbitrary: c)
  case (Cons p ps)
  obtain a b where p: "p = (a, b)" by fastforce
  from Cons.prems obtain y where y: "match_diff c = DiffInt y" by blast
  show ?case
  proof (cases "length a = length b")
    case True
    let ?m = "\<lparr>match_a = Some a, match_b = Some b, match_diff = char_difference a b\<rparr>"
    obtain d where d: "char_difference a b = DiffInt d"
      using True by (simp add: char_difference_def)
    have eq: "closest_loop c (p # ps) = closest_loop (if d < y then ?m else c) ps"
      using p y d by simp
    have "\<exists>y'. match_diff (if d < y then ?m else c) = DiffInt y'"
      using d y by simp
    from Cons.IH [OF this] eq True p show ?thesis by simp
  next
    case False
    with y p show ?thesis by (auto simp: char_difference_def)
  qed
qed simp

lemma set_perm_pairs:
  "set (perm_pairs xs) = {(xs ! i, xs ! j) | i j. i < length xs \<and> j < length xs \<and> i \<noteq> j}"
  unfolding perm_pairs_def by force

text \<open>The assertions of \<^verbatim>\<open>test_has_n\<close> and \<^verbatim>\<open>test_char_difference\<close>.\<close>

lemma day2_tests:
  "has_n ''foo'' 2" "\<not> has_n ''bar'' 2" "\<not> has_n ''bababac'' 2" "has_n ''bababc'' 3" "\<not> has_n ''foo'' 3"
  "char_difference ''foo'' ''bar'' = DiffInt 3" "char_difference ''foo'' ''for'' = DiffInt 1"
  by code_simp+

text \<open>
  \<^verbatim>\<open>overlap\<close> finds the common letters of two identifiers that differ in one position
  only when that position is the first: the slices it tries are \<open>a[0:len]\<close> and
  \<open>a[1:len]\<close>.
\<close>

lemma overlap_needs_first_position:
  "overlap \<lparr>match_a = Some ''xbcde'', match_b = Some ''abcde'', match_diff = DiffInt 1\<rparr> = Inr (Some ''bcde'')"
  "overlap \<lparr>match_a = Some ''abcde'', match_b = Some ''axcde'', match_diff = DiffInt 1\<rparr> = Inr None"
  by code_simp+

section \<open>Properties\<close>

text \<open>
  \<^verbatim>\<open>closest_match\<close> raises exactly when two of the identifiers have different
  lengths, and then raises \<^verbatim>\<open>TypeError\<close>: \<^verbatim>\<open>char_difference\<close> returns its
  \<^verbatim>\<open>ValueError\<close> instead of raising it, and the comparison with \<open><\<close> fails.
\<close>

theorem closest_match_type_error:
  "closest_match words = Inl e \<longleftrightarrow>
   e = TypeError \<and> (\<exists>x \<in> set words. \<exists>y \<in> set words. length x \<noteq> length y)"
proof -
  have "(\<exists>(a, b) \<in> set (perm_pairs words). length a \<noteq> length b) \<longleftrightarrow>
        (\<exists>x \<in> set words. \<exists>y \<in> set words. length x \<noteq> length y)"
  proof
    assume "\<exists>(a, b) \<in> set (perm_pairs words). length a \<noteq> length b"
    then show "\<exists>x \<in> set words. \<exists>y \<in> set words. length x \<noteq> length y"
      by (auto simp: set_perm_pairs) (meson nth_mem)
  next
    assume "\<exists>x \<in> set words. \<exists>y \<in> set words. length x \<noteq> length y"
    then obtain i j where "i < length words" "j < length words" "length (words ! i) \<noteq> length (words ! j)"
      by (auto simp: in_set_conv_nth)
    then show "\<exists>(a, b) \<in> set (perm_pairs words). length a \<noteq> length b"
      by (auto simp: set_perm_pairs)
  qed
  then show ?thesis
    unfolding closest_match_def by (subst closest_loop_error) auto
qed

theorem closest_match_type_error_witness:
  "closest_match [''ab'', ''abc''] = Inl TypeError"
  using closest_match_type_error [of "[''ab'', ''abc'']" TypeError] by auto

end
