(* ===== verification/Day03_Fabric.thy ===== *)
theory Day03_Fabric
  imports Py_Text "HOL-Library.AList"
begin

text \<open>
  Day 3, \<^verbatim>\<open>src/day_03.py\<close>: rectangular claims on a sheet of fabric. The dataclass
  \<^verbatim>\<open>Rectangle\<close> is the record \<open>rectangle\<close>; \<^verbatim>\<open>rectangle_from_string\<close> matches
  \<^verbatim>\<open>#(\d+)\s@\s(\d+,\d+):\s(\d+x\d+)\<close> at the start of the line (a small parser
  on characters, \<open>parse_claim\<close>) and turns a failed match into \<^verbatim>\<open>ValueError\<close>;
  \<^verbatim>\<open>points\<close> lists the covered cells column by column; \<^verbatim>\<open>grid_map\<close> counts, in a
  \<^verbatim>\<open>defaultdict(int)\<close> (an association list in insertion order), how many claims
  cover each cell; the overlap is the number of cells covered more than once, and part 2
  keeps the claims none of whose cells is shared. The lemma \<open>grid_map_counts\<close> shows
  that the dictionary holds, for every covered cell, the number of claims covering it.
\<close>

section \<open>Rectangles\<close>

record rectangle =
  uid :: string
  rx :: int
  ry :: int
  width :: int
  height :: int

text \<open>\<^verbatim>\<open>__str__\<close>.\<close>

definition rectangle_str :: "rectangle \<Rightarrow> string" where
  "rectangle_str r =
     ''Rectangle('' @ [CHR 0x27] @ ''#'' @ uid r @ '' @ '' @ py_str_int (rx r) @ '','' @ py_str_int (ry r)
       @ '': '' @ py_str_int (width r) @ ''x'' @ py_str_int (height r) @ [CHR 0x27] @ '')''"

text \<open>
  The regular expression, one piece at a time on the rest of the line: a literal
  character, one whitespace character (\<^verbatim>\<open>\s\<close>), or a maximal non-empty run of digits
  (\<^verbatim>\<open>\d+\<close>, greedy; no backtracking is needed because a non-digit always follows).
  \<^verbatim>\<open>re.match\<close> anchors at the start only; the rest of the line is ignored.
\<close>

definition lit :: "char \<Rightarrow> string \<Rightarrow> string option" where
  "lit c s = (case s of x # r \<Rightarrow> if x = c then Some r else None | [] \<Rightarrow> None)"

definition ws1 :: "string \<Rightarrow> string option" where
  "ws1 s = (case s of x # r \<Rightarrow> if is_space x then Some r else None | [] \<Rightarrow> None)"

definition digits1 :: "string \<Rightarrow> (string \<times> string) option" where
  "digits1 s = (let ds = takeWhile is_digit s in if ds = [] then None else Some (ds, dropWhile is_digit s))"

definition parse_claim :: "string \<Rightarrow> (string \<times> int \<times> int \<times> int \<times> int) option" where
  "parse_claim s =
     Option.bind (lit CHR ''#'' s) (\<lambda>s1.
     Option.bind (digits1 s1) (\<lambda>(u, s2).
     Option.bind (ws1 s2) (\<lambda>s3.
     Option.bind (lit CHR ''@'' s3) (\<lambda>s4.
     Option.bind (ws1 s4) (\<lambda>s5.
     Option.bind (digits1 s5) (\<lambda>(x, s6).
     Option.bind (lit CHR '','' s6) (\<lambda>s7.
     Option.bind (digits1 s7) (\<lambda>(y, s8).
     Option.bind (lit CHR '':'' s8) (\<lambda>s9.
     Option.bind (ws1 s9) (\<lambda>s10.
     Option.bind (digits1 s10) (\<lambda>(w, s11).
     Option.bind (lit CHR ''x'' s11) (\<lambda>s12.
     Option.bind (digits1 s12) (\<lambda>(h, s13).
       Some (u, digits_value x, digits_value y, digits_value w, digits_value h))))))))))))))"

text \<open>
  \<^verbatim>\<open>Rectangle.rectangle_from_string\<close>: a failed match leaves \<^verbatim>\<open>None\<close>, whose
  \<^verbatim>\<open>.group\<close> raises \<^verbatim>\<open>AttributeError\<close>, turned into \<^verbatim>\<open>ValueError\<close>.
\<close>

definition rectangle_from_string :: "string \<Rightarrow> rectangle py_result" where
  "rectangle_from_string s =
     (case parse_claim s of
        None \<Rightarrow> Inl ValueError
      | Some (u, x, y, w, h) \<Rightarrow> Inr \<lparr>uid = u, rx = x, ry = y, width = w, height = h\<rparr>)"

text \<open>\<^verbatim>\<open>points\<close>: for each column \<open>x\<close>, the cells of the rows, in order.\<close>

definition points :: "rectangle \<Rightarrow> (int \<times> int) list" where
  "points r =
     concat (map (\<lambda>x. map (\<lambda>y. (x, y)) [ry r..ry r + height r - 1]) [rx r..rx r + width r - 1])"

definition rectangles :: "string list \<Rightarrow> rectangle list py_result" where
  "rectangles lines = py_map rectangle_from_string (map py_strip lines)"

section \<open>The grid\<close>

type_synonym grid = "((int \<times> int) \<times> int) list"

text \<open>\<^verbatim>\<open>grid[point] += 1\<close> on a \<^verbatim>\<open>defaultdict(int)\<close>.\<close>

definition grid_get :: "grid \<Rightarrow> int \<times> int \<Rightarrow> int" where
  "grid_get g p = (case map_of g p of Some n \<Rightarrow> n | None \<Rightarrow> 0)"

definition grid_incr :: "grid \<Rightarrow> int \<times> int \<Rightarrow> grid" where
  "grid_incr g p = AList.update p (grid_get g p + 1) g"

definition grid_map :: "rectangle list \<Rightarrow> grid" where
  "grid_map rects = foldl (\<lambda>g r. foldl grid_incr g (points r)) [] rects"

text \<open>\<^verbatim>\<open>total_overlapped_cells_list\<close>, for a grid given as rows of counts.\<close>

definition total_overlapped_cells_list :: "int list list \<Rightarrow> nat" where
  "total_overlapped_cells_list rows = sum_list (map (\<lambda>row. length (filter (\<lambda>c. c > 1) row)) rows)"

definition total_overlapped_cells_map :: "grid \<Rightarrow> nat" where
  "total_overlapped_cells_map g = length (filter (\<lambda>x. x > 1) (map snd g))"

text \<open>
  \<^verbatim>\<open>test_part_2\<close>: the claims whose cells add up to their number of cells, i.e. none
  of which is covered by another claim.
\<close>

definition intact_claims :: "grid \<Rightarrow> rectangle list \<Rightarrow> rectangle list" where
  "intact_claims g rects =
     filter (\<lambda>r. sum_list (map (grid_get g) (points r)) = int (length (points r))) rects"

section \<open>Specification\<close>

text \<open>A claim line in the puzzle's format \<^verbatim>\<open>#123 @ 3,2: 5x4\<close>.\<close>

definition claim_line :: "rectangle \<Rightarrow> string" where
  "claim_line r =
     ''#'' @ uid r @ '' @ '' @ py_str_int (rx r) @ '','' @ py_str_int (ry r) @ '': ''
       @ py_str_int (width r) @ ''x'' @ py_str_int (height r)"

text \<open>The number of claims that cover a cell.\<close>

definition coverage :: "rectangle list \<Rightarrow> int \<times> int \<Rightarrow> nat" where
  "coverage rects q = length (filter (\<lambda>r. q \<in> set (points r)) rects)"

section \<open>Lemmas\<close>

lemma grid_get_incr: "grid_get (grid_incr g p) q = grid_get g q + (if q = p then 1 else 0)"
  by (simp add: grid_get_def grid_incr_def update_conv' split: option.splits)

lemma grid_get_fold:
  "grid_get (foldl grid_incr g ps) q = grid_get g q + int (count_list ps q)"
  by (induction ps arbitrary: g) (simp_all add: grid_get_incr)

lemma grid_get_grid_map:
  "grid_get (grid_map rects) q = int (sum_list (map (\<lambda>r. count_list (points r) q) rects))"
proof -
  have "grid_get (foldl (\<lambda>g r. foldl grid_incr g (points r)) g rects) q =
        grid_get g q + int (sum_list (map (\<lambda>r. count_list (points r) q) rects))" for g
    by (induction rects arbitrary: g) (simp_all add: grid_get_fold)
  then show ?thesis by (simp add: grid_map_def grid_get_def)
qed

lemma distinct_points: "distinct (points r)"
  by (simp add: points_def distinct_product flip: product_concat_map)

lemma set_points:
  "set (points r) = {rx r..rx r + width r - 1} \<times> {ry r..ry r + height r - 1}"
  by (auto simp: points_def)

lemma count_points: "count_list (points r) q = (if q \<in> set (points r) then 1 else 0)"
  using distinct_points [of r] by (rule count_list_distinct)

lemma grid_get_coverage: "grid_get (grid_map rects) q = int (coverage rects q)"
proof -
  have "(\<Sum>r\<leftarrow>rects. count_list (points r) q) = coverage rects q"
    by (induction rects) (simp_all add: coverage_def count_points)
  then show ?thesis by (simp add: grid_get_grid_map)
qed

lemma grid_incr_distinct: "distinct (map fst g) \<Longrightarrow> distinct (map fst (foldl grid_incr g ps))"
  by (induction ps arbitrary: g) (simp_all add: grid_incr_def distinct_update)

lemma grid_map_distinct: "distinct (map fst (grid_map rects))"
proof -
  have "distinct (map fst g) \<Longrightarrow>
        distinct (map fst (foldl (\<lambda>g r. foldl grid_incr g (points r)) g rects))" for g
    by (induction rects arbitrary: g) (simp_all add: grid_incr_distinct)
  then show ?thesis by (simp add: grid_map_def)
qed

lemma total_overlapped_card:
  assumes d: "distinct (map fst g)"
  shows "total_overlapped_cells_map g = card {q. 1 < grid_get g q}"
proof -
  have dg: "distinct g" and inj: "inj_on fst (set g)"
    using d by (simp_all add: distinct_map)
  have "total_overlapped_cells_map g = length (filter (\<lambda>(k, v). 1 < v) g)"
    by (simp add: total_overlapped_cells_map_def filter_map comp_def split_def)
  also have "\<dots> = card {kv \<in> set g. 1 < snd kv}"
    using dg by (simp add: distinct_length_filter case_prod_beta Int_def conj_commute)
  also have "\<dots> = card (fst ` {kv \<in> set g. 1 < snd kv})"
    using inj by (simp add: card_image inj_on_subset)
  also have "fst ` {kv \<in> set g. 1 < snd kv} = {q. 1 < grid_get g q}"
  proof (rule set_eqI)
    fix q
    have "(\<exists>v. (q, v) \<in> set g \<and> 1 < v) \<longleftrightarrow> 1 < grid_get g q"
    proof
      assume "\<exists>v. (q, v) \<in> set g \<and> 1 < v"
      then obtain v where "(q, v) \<in> set g" "1 < v" by blast
      with map_of_is_SomeI [OF d] show "1 < grid_get g q" by (simp add: grid_get_def)
    next
      assume "1 < grid_get g q"
      then obtain v where "map_of g q = Some v" "1 < v"
        by (auto simp: grid_get_def split: option.splits)
      then show "\<exists>v. (q, v) \<in> set g \<and> 1 < v" by (blast dest: map_of_SomeD)
    qed
    then show "q \<in> fst ` {kv \<in> set g. 1 < snd kv} \<longleftrightarrow> q \<in> {q. 1 < grid_get g q}"
      by force
  qed
  finally show ?thesis .
qed

lemma digits1_digits:
  "ds \<noteq> [] \<Longrightarrow> \<forall>c \<in> set ds. is_digit c \<Longrightarrow> rest = [] \<or> \<not> is_digit (hd rest) \<Longrightarrow>
   digits1 (ds @ rest) = Some (ds, rest)"
proof -
  assume "ds \<noteq> []" "\<forall>c \<in> set ds. is_digit c" "rest = [] \<or> \<not> is_digit (hd rest)"
  moreover from this have "takeWhile is_digit (ds @ rest) = ds" "dropWhile is_digit (ds @ rest) = rest"
    by (cases rest; simp add: takeWhile_append2 dropWhile_append2 takeWhile_eq_all_conv)+
  ultimately show ?thesis by (simp add: digits1_def)
qed

lemma digits1_py_str_int:
  "0 \<le> n \<Longrightarrow> \<not> is_digit c \<Longrightarrow> digits1 (py_str_int n @ c # rest) = Some (py_str_int n, c # rest)"
  "0 \<le> n \<Longrightarrow> digits1 (py_str_int n) = Some (py_str_int n, [])"
   apply (simp_all add: py_str_int_nonneg)
  using digits1_digits [of "nat_digits (nat n)"] digits1_digits [of "nat_digits (nat n)" "[]"]
    nat_digits_ne nat_digits_digits
  by simp_all

lemma digits_value_py_str_int: "0 \<le> n \<Longrightarrow> digits_value (py_str_int n) = n"
  by (simp add: py_str_int_nonneg digits_value_nat_digits)

lemma coverage_pos: "r \<in> set rects \<Longrightarrow> q \<in> set (points r) \<Longrightarrow> 1 \<le> coverage rects q"
  by (auto simp: coverage_def Suc_le_eq filter_empty_conv)

section \<open>Properties\<close>

text \<open>
  C25. Part 1 counts the cells covered by more than one claim: the number of entries of
  \<^verbatim>\<open>grid_map()\<close> above 1 is the number of cells that at least two of the claims cover.
\<close>

theorem total_overlapped_cells_correct:
  "total_overlapped_cells_map (grid_map rects) = card {q. 1 < coverage rects q}"
  by (simp add: total_overlapped_card [OF grid_map_distinct] grid_get_coverage)

text \<open>
  C26. Part 2 keeps exactly the claims none of whose cells is covered by another claim:
  the sum of the counts over a claim's cells equals its number of cells exactly when
  every one of its cells is covered once.
\<close>

theorem intact_claims_spec:
  "r \<in> set (intact_claims (grid_map rects) rects) \<longleftrightarrow>
   r \<in> set rects \<and> (\<forall>q \<in> set (points r). coverage rects q = 1)"
proof -
  have "(sum_list (map (grid_get (grid_map rects)) (points r)) = int (length (points r))) =
        (\<forall>q \<in> set (points r). coverage rects q = 1)" if "r \<in> set rects"
  proof -
    have "\<forall>q \<in> set (points r). 1 \<le> grid_get (grid_map rects) q"
      using coverage_pos [OF that] by (simp add: grid_get_coverage)
    moreover have "grid_get (grid_map rects) = (\<lambda>q. int (coverage rects q))"
      by (rule ext) (simp add: grid_get_coverage)
    ultimately show ?thesis
      using sum_list_ge_one [of "points r" "\<lambda>q. int (coverage rects q)"] by simp
  qed
  then show ?thesis by (auto simp: intact_claims_def)
qed

theorem intact_claims_spec_witness:
  "intact_claims (grid_map [\<lparr>uid = ''1'', rx = 0, ry = 0, width = 2, height = 1\<rparr>])
     [\<lparr>uid = ''1'', rx = 0, ry = 0, width = 2, height = 1\<rparr>] =
     [\<lparr>uid = ''1'', rx = 0, ry = 0, width = 2, height = 1\<rparr>] \<and>
   points \<lparr>uid = ''1'', rx = 0, ry = 0, width = 2, height = 1\<rparr> = [(0, 0), (1, 0)] \<and>
   coverage [\<lparr>uid = ''1'', rx = 0, ry = 0, width = 2, height = 1\<rparr>] (0, 0) = 1 \<and>
   coverage [\<lparr>uid = ''1'', rx = 0, ry = 0, width = 2, height = 1\<rparr>] (1, 0) = 1"
proof -
  let ?r = "\<lparr>uid = ''1'', rx = 0, ry = 0, width = 2, height = 1\<rparr>"
  have p: "points ?r = [(0, 0), (1, 0)]" by code_simp
  have c: "coverage [?r] (0, 0) = 1" "coverage [?r] (1, 0) = 1" by code_simp+
  have "?r \<in> set (intact_claims (grid_map [?r]) [?r])"
    using intact_claims_spec [of ?r "[?r]"] p c by simp
  then have "intact_claims (grid_map [?r]) [?r] = [?r]"
    by (auto simp: intact_claims_def split: if_splits)
  with p c show ?thesis by simp
qed

text \<open>
  C27. \<^verbatim>\<open>Rectangle.rectangle_from_string\<close> reads back a claim line in the puzzle's
  format: for a numeric identifier and non-negative position and size, parsing
  \<^verbatim>\<open>#id @ x,y: wxh\<close> returns the rectangle.
\<close>

theorem rectangle_from_string_roundtrip:
  assumes "uid r \<noteq> []" "\<forall>c \<in> set (uid r). is_digit c"
    and "0 \<le> rx r" "0 \<le> ry r" "0 \<le> width r" "0 \<le> height r"
  shows "rectangle_from_string (claim_line r) = Inr r"
proof -
  have u: "digits1 (uid r @ c # rest) = Some (uid r, c # rest)" if "\<not> is_digit c" for c rest
    using digits1_digits [of "uid r" "c # rest"] assms(1,2) that by simp
  have nd: "\<not> is_digit CHR '' ''" "\<not> is_digit CHR '',''" "\<not> is_digit CHR ''x''" "\<not> is_digit CHR '':''"
    by (simp_all add: is_digit_def)
  show ?thesis
    using assms
    by (simp add: rectangle_from_string_def parse_claim_def claim_line_def lit_def ws1_def is_space_def
                  u nd digits1_py_str_int digits_value_py_str_int)
qed

theorem rectangle_from_string_roundtrip_witness:
  "rectangle_from_string ''#123 @ 3,2: 5x4'' = Inr \<lparr>uid = ''123'', rx = 3, ry = 2, width = 5, height = 4\<rparr>"
proof -
  have "claim_line \<lparr>uid = ''123'', rx = 3, ry = 2, width = 5, height = 4\<rparr> = ''#123 @ 3,2: 5x4''"
    by code_simp
  moreover have "\<forall>c \<in> set ''123''. is_digit c" by (simp add: is_digit_def)
  ultimately show ?thesis
    using rectangle_from_string_roundtrip [of "\<lparr>uid = ''123'', rx = 3, ry = 2, width = 5, height = 4\<rparr>"]
    by simp
qed

end
