(* ===== verification/Day07_Steps.thy ===== *)
theory Day07_Steps
  imports Py_Text "HOL-Library.Char_ord" "HOL-Library.List_Lexorder" "HOL-Library.AList"
begin

text \<open>
  Day 7, \<^verbatim>\<open>src/day_07.py\<close>: steps with prerequisites. \<^verbatim>\<open>Graph\<close> is a
  \<^verbatim>\<open>defaultdict\<close> of \<^verbatim>\<open>Graph.Node\<close> objects keyed by name; a node has an in-degree
  and a set of children, and nodes hash and compare by name, so a set of children is a
  set of names here and the graph an association list from names to nodes in insertion
  order. \<^verbatim>\<open>find_graph_order\<close> is Kahn's algorithm with a heap of ready nodes; it
  decrements the in-degrees of the graph it is given. \<^verbatim>\<open>time_with_workers\<close> simulates
  workers taking ready jobs from the topological order, one round of \<^verbatim>\<open>work()\<close> per
  second. Both loops are \<^theory_text>\<open>partial_function (option)\<close>. The heap is a list from
  which the least name is popped: \<^verbatim>\<open>heapq\<close> always pops a least element, and the
  order in which the children of a node are pushed does not change which one that is.
  Names compare as Python strings do, lexicographically by code point.
\<close>

section \<open>The graph\<close>

record gnode =
  gnode_data :: string
  indegree :: int
  gchildren :: "string set"

type_synonym graph = "(string \<times> gnode) list"

text \<open>
  \<^verbatim>\<open>Graph.__getitem__\<close>: the \<^verbatim>\<open>defaultdict\<close> creates a node on first access and
  the method names it. (The \<^verbatim>\<open>TypeError\<close> for a non-string key cannot arise: keys are
  strings here.)
\<close>

definition graph_get :: "graph \<Rightarrow> string \<Rightarrow> graph \<times> gnode" where
  "graph_get g item =
     (case map_of g item of
        Some n \<Rightarrow> (g, n)
      | None \<Rightarrow> (let n = \<lparr>gnode_data = item, indegree = 0, gchildren = {}\<rparr> in (g @ [(item, n)], n)))"

definition upd_node :: "string \<Rightarrow> (gnode \<Rightarrow> gnode) \<Rightarrow> graph \<Rightarrow> graph" where
  "upd_node k f g = map (\<lambda>(k', n). if k' = k then (k', f n) else (k', n)) g"

text \<open>
  \<^verbatim>\<open>Graph.connect(a, b)\<close>: look up (or create) both nodes, add \<open>b\<close> to the children
  of \<open>a\<close> (a set: a repeated edge is added once) and increment the in-degree of \<open>b\<close>
  (once per call).
\<close>

definition connect :: "graph \<Rightarrow> string \<Rightarrow> string \<Rightarrow> graph" where
  "connect g a b =
     (let (g1, na) = graph_get g a; (g2, nb) = graph_get g1 b
      in upd_node b (\<lambda>n. n\<lparr>indegree := indegree n + 1\<rparr>)
           (upd_node a (\<lambda>n. n\<lparr>gchildren := insert b (gchildren n)\<rparr>) g2))"

definition make_graph :: "(string \<times> string) list \<Rightarrow> graph" where
  "make_graph pairs = foldl (\<lambda>g (a, b). connect g a b) [] pairs"

text \<open>
  \<^verbatim>\<open>log_parser.search(line.strip()).groups()\<close> with the pattern
  \<^verbatim>\<open>" (.) .+ (.) "\<close>: the leftmost position \<open>i\<close> of a space, a character and a
  space that some later such triple completes, and for it the last such triple \<open>j\<close>
  (the \<^verbatim>\<open>.+\<close> is greedy and needs at least one character). No match makes
  \<^verbatim>\<open>.groups()\<close> raise \<^verbatim>\<open>AttributeError\<close>. Stripped lines hold no newline, the
  one character \<^verbatim>\<open>.\<close> does not match.
\<close>

definition triple_at :: "string \<Rightarrow> nat \<Rightarrow> bool" where
  "triple_at s k \<longleftrightarrow> k + 2 < length s \<and> s ! k = CHR '' '' \<and> s ! (k + 2) = CHR '' ''"

definition parse_pair :: "string \<Rightarrow> (string \<times> string) py_result" where
  "parse_pair s =
     (case filter (\<lambda>i. triple_at s i \<and> list_ex (\<lambda>j. i + 4 \<le> j \<and> triple_at s j) [0..<length s])
             [0..<length s] of
        [] \<Rightarrow> Inl AttributeError
      | i # _ \<Rightarrow>
          (let j = last (filter (\<lambda>j. i + 4 \<le> j \<and> triple_at s j) [0..<length s])
           in Inr ([s ! (i + 1)], [s ! (j + 1)])))"

definition pairs_of_lines :: "string list \<Rightarrow> (string \<times> string) list py_result" where
  "pairs_of_lines lines = py_map (\<lambda>line. parse_pair (py_strip line)) lines"

section \<open>The topological order\<close>

text \<open>\<^verbatim>\<open>heapq.heappop\<close>: remove and return a least name.\<close>

definition pop_min :: "string list \<Rightarrow> string \<times> string list" where
  "pop_min xs = (let m = Min (set xs) in (m, remove1 m xs))"

text \<open>
  The \<^verbatim>\<open>for child in node.children\<close> loop: decrement the child's in-degree and push
  it when that reaches 0.
\<close>

fun dec_children :: "graph \<Rightarrow> string list \<Rightarrow> graph \<times> string list" where
  "dec_children g [] = (g, [])"
| "dec_children g (c # cs) =
     (let g1 = upd_node c (\<lambda>n. n\<lparr>indegree := indegree n - 1\<rparr>) g;
          pushed = (case map_of g1 c of Some n \<Rightarrow> if indegree n = 0 then [c] else [] | None \<Rightarrow> []);
          (g2, ps) = dec_children g1 cs
      in (g2, pushed @ ps))"

definition children_of :: "graph \<Rightarrow> string \<Rightarrow> string set" where
  "children_of g k = (case map_of g k of Some n \<Rightarrow> gchildren n | None \<Rightarrow> {})"

text \<open>
  \<^verbatim>\<open>while ready\<close>: pop, process the children, yield. The accumulator holds the
  yielded names, latest first.
\<close>

partial_function (option) order_loop ::
  "graph \<Rightarrow> string list \<Rightarrow> string list \<Rightarrow> (graph \<times> string list) option" where
  "order_loop g ready acc =
     (if ready = [] then Some (g, rev acc)
      else (let (n, ready1) = pop_min ready;
                (g1, pushed) = dec_children g (sorted_list_of_set (children_of g n))
            in order_loop g1 (ready1 @ pushed) (n # acc)))"

text \<open>
  \<^verbatim>\<open>find_graph_order\<close> drained: the names of the nodes of in-degree 0, sorted, then
  the loop. The result pairs the graph as the generator leaves it with the order.
\<close>

definition find_graph_order :: "graph \<Rightarrow> (graph \<times> string list) option" where
  "find_graph_order g =
     order_loop g (sort (map fst (filter (\<lambda>(k, n). indegree n = 0) g))) []"

section \<open>Workers\<close>

definition ascii_uppercase7 :: string where
  "ascii_uppercase7 = ''ABCDEFGHIJKLMNOPQRSTUVWXYZ''"

text \<open>\<^verbatim>\<open>str.find\<close>: the first index of the substring, or -1.\<close>

definition py_find :: "string \<Rightarrow> string \<Rightarrow> int" where
  "py_find hay needle =
     (case filter (\<lambda>i. take (length needle) (drop i hay) = needle) [0..<Suc (length hay)] of
        [] \<Rightarrow> -1
      | i # _ \<Rightarrow> int i)"

text \<open>
  The property \<^verbatim>\<open>Node.cost\<close>, with the module-level \<^verbatim>\<open>BASE_COST\<close> as a parameter
  (the test sets it to 0, the script leaves it at 60).
\<close>

definition cost :: "int \<Rightarrow> string \<Rightarrow> int" where
  "cost base_cost data = py_find ascii_uppercase7 data + 1 + base_cost"

record worker =
  job :: "string option"
  remaining_cost :: int

definition new_worker :: worker where
  "new_worker = \<lparr>job = None, remaining_cost = 0\<rparr>"

definition free :: "worker \<Rightarrow> bool" where
  "free w \<longleftrightarrow> job w = None \<or> remaining_cost w = 0"

definition set_job :: "int \<Rightarrow> worker \<Rightarrow> string option \<Rightarrow> worker" where
  "set_job base_cost w j =
     (case j of None \<Rightarrow> w\<lparr>job := None\<rparr> | Some n \<Rightarrow> w\<lparr>job := Some n, remaining_cost := cost base_cost n\<rparr>)"

definition work1 :: "worker \<Rightarrow> worker" where
  "work1 w = (if job w \<noteq> None \<and> remaining_cost w > 0 then w\<lparr>remaining_cost := remaining_cost w - 1\<rparr> else w)"

text \<open>
  \<^verbatim>\<open>node_is_ready(potential_job, blockers)\<close>: no blocker lists the job among its
  children.
\<close>

definition node_is_ready :: "graph \<Rightarrow> string \<Rightarrow> string set \<Rightarrow> bool" where
  "node_is_ready g p blockers \<longleftrightarrow> (\<forall>b \<in> blockers. p \<notin> children_of g b)"

text \<open>
  \<^verbatim>\<open>next_job()\<close>: scan the queue, adding each candidate to \<^verbatim>\<open>seen\<close> before testing
  it against \<^verbatim>\<open>seen | in_progress\<close>; remove and return the first ready one.
\<close>

fun next_job_scan :: "graph \<Rightarrow> string set \<Rightarrow> string set \<Rightarrow> string list \<Rightarrow> string option" where
  "next_job_scan g inprog seen [] = None"
| "next_job_scan g inprog seen (p # ps) =
     (let seen' = insert p seen
      in if node_is_ready g p (seen' \<union> inprog) then Some p else next_job_scan g inprog seen' ps)"

definition next_job :: "graph \<Rightarrow> string list \<Rightarrow> string set \<Rightarrow> string option \<times> string list" where
  "next_job g queue inprog =
     (case next_job_scan g inprog {} queue of None \<Rightarrow> (None, queue) | Some p \<Rightarrow> (Some p, remove1 p queue))"

text \<open>
  The state shared by the nested functions: the work queue, the set \<^verbatim>\<open>done\<close> and the
  set \<^verbatim>\<open>in_progress\<close>.
\<close>

record shop =
  work_queue :: "string list"
  finished :: "string set"
  in_progress :: "string set"

text \<open>
  \<^verbatim>\<open>work()\<close>: each worker in turn works if busy; a free one hands in its job if it
  is still in progress, takes the next ready job (if any), and works on it at once.
\<close>

fun work_round :: "graph \<Rightarrow> int \<Rightarrow> worker list \<Rightarrow> shop \<Rightarrow> worker list \<times> shop" where
  "work_round g base_cost [] st = ([], st)"
| "work_round g base_cost (w # ws) st =
     (if \<not> free w then
        (let (ws', st') = work_round g base_cost ws st in (work1 w # ws', st'))
      else
        (let st1 = (case job w of
                      Some j \<Rightarrow> if j \<in> in_progress st
                                then st\<lparr>in_progress := in_progress st - {j}, finished := insert j (finished st)\<rparr>
                                else st
                    | None \<Rightarrow> st);
             (nj, queue1) = next_job g (work_queue st1) (in_progress st1);
             st2 = st1\<lparr>work_queue := queue1,
                       in_progress := (case nj of Some j \<Rightarrow> insert j (in_progress st1) | None \<Rightarrow> in_progress st1)\<rparr>;
             w1 = work1 (set_job base_cost w nj);
             (ws', st') = work_round g base_cost ws st2
         in (w1 # ws', st')))"

text \<open>\<^verbatim>\<open>while work_queue or in_progress\<close>: one round per second.\<close>

partial_function (option) time_loop ::
  "graph \<Rightarrow> int \<Rightarrow> worker list \<Rightarrow> shop \<Rightarrow> int \<Rightarrow> int option" where
  "time_loop g base_cost ws st secs =
     (if work_queue st \<noteq> [] \<or> in_progress st \<noteq> {}
      then (let (ws', st') = work_round g base_cost ws st in time_loop g base_cost ws' st' (secs + 1))
      else Some secs)"

text \<open>
  \<^verbatim>\<open>time_with_workers(graph, num_workers)\<close>: the queue is the drained topological
  order (which also empties the in-degrees of the caller's graph); one round of work
  happens before the clock starts.
\<close>

definition time_with_workers :: "graph \<Rightarrow> int \<Rightarrow> int \<Rightarrow> int option" where
  "time_with_workers g base_cost num_workers =
     (case find_graph_order g of
        None \<Rightarrow> None
      | Some (g', order) \<Rightarrow>
          (let (ws, st) = work_round g' base_cost (replicate (nat num_workers) new_worker)
                            \<lparr>work_queue = order, finished = {}, in_progress = {}\<rparr>
           in time_loop g' base_cost ws st 0))"

text \<open>\<^verbatim>\<open>simple_graph()\<close>, the example of the puzzle text.\<close>

definition simple_graph :: graph where
  "simple_graph =
     connect (connect (connect (connect (connect (connect (connect []
       ''C'' ''A'') ''C'' ''F'') ''A'' ''B'') ''A'' ''D'') ''B'' ''E'') ''D'' ''E'') ''F'' ''E''"

text \<open>
  The two loops with a budget of turns, for evaluating concrete runs: a run that returns
  within the budget is the run of the loop (\<open>order_fuel_sound\<close>,
  \<open>time_fuel_sound\<close>).
\<close>

fun order_fuel :: "nat \<Rightarrow> graph \<Rightarrow> string list \<Rightarrow> string list \<Rightarrow> (graph \<times> string list) option" where
  "order_fuel 0 g ready acc = None"
| "order_fuel (Suc n) g ready acc =
     (if ready = [] then Some (g, rev acc)
      else (let (m, ready1) = pop_min ready;
                (g1, pushed) = dec_children g (sorted_list_of_set (children_of g m))
            in order_fuel n g1 (ready1 @ pushed) (m # acc)))"

fun time_fuel :: "nat \<Rightarrow> graph \<Rightarrow> int \<Rightarrow> worker list \<Rightarrow> shop \<Rightarrow> int \<Rightarrow> int option" where
  "time_fuel 0 g base_cost ws st secs = None"
| "time_fuel (Suc n) g base_cost ws st secs =
     (if work_queue st \<noteq> [] \<or> in_progress st \<noteq> {}
      then (let (ws', st') = work_round g base_cost ws st in time_fuel n g base_cost ws' st' (secs + 1))
      else Some secs)"

section \<open>Specification\<close>

text \<open>
  The number of entries of the graph with a positive in-degree. Each turn of
  \<^verbatim>\<open>find_graph_order\<close> pops one name and pushes only names whose in-degree drops
  from 1 to 0, so the length of the heap plus this number decreases: the loop ends on
  every graph, whatever its edges.
\<close>

definition positive_nodes :: "graph \<Rightarrow> nat" where
  "positive_nodes g = length (filter (\<lambda>(k, n). 0 < indegree n) g)"

section \<open>Evaluation rules\<close>

lemma order_loop_stop: "order_loop g [] acc = Some (g, rev acc)"
  by (simp add: order_loop.simps)

lemma order_loop_step:
  "ready \<noteq> [] \<Longrightarrow>
   order_loop g ready acc =
     order_loop (fst (dec_children g (sorted_list_of_set (children_of g (fst (pop_min ready))))))
       (snd (pop_min ready) @ snd (dec_children g (sorted_list_of_set (children_of g (fst (pop_min ready))))))
       (fst (pop_min ready) # acc)"
  by (subst order_loop.simps) (simp add: split_beta Let_def)

lemma time_loop_stop:
  "work_queue st = [] \<Longrightarrow> in_progress st = {} \<Longrightarrow> time_loop g b ws st secs = Some secs"
  by (simp add: time_loop.simps)

lemma time_loop_step:
  "work_queue st \<noteq> [] \<or> in_progress st \<noteq> {} \<Longrightarrow>
   time_loop g b ws st secs =
     time_loop g b (fst (work_round g b ws st)) (snd (work_round g b ws st)) (secs + 1)"
  by (subst time_loop.simps) (simp add: split_beta)

lemma order_fuel_sound: "order_fuel n g ready acc = Some r \<Longrightarrow> order_loop g ready acc = Some r"
proof (induction n arbitrary: g ready acc)
  case (Suc n)
  then show ?case
    by (subst order_loop.simps) (auto simp: split_beta split: if_splits)
qed simp

lemma time_fuel_sound: "time_fuel n g b ws st secs = Some r \<Longrightarrow> time_loop g b ws st secs = Some r"
proof (induction n arbitrary: ws st secs)
  case (Suc n)
  then show ?case
    by (subst time_loop.simps) (auto simp: split_beta split: if_splits)
qed simp

section \<open>Lemmas\<close>

abbreviation dec_indegree :: "gnode \<Rightarrow> gnode" where
  "dec_indegree n \<equiv> n\<lparr>indegree := indegree n - 1\<rparr>"

lemma map_of_upd_node: "map_of (upd_node c f g) k = (if k = c then map_option f (map_of g k) else map_of g k)"
  by (induction g) (auto simp: upd_node_def)

lemma positive_nodes_Cons:
  "positive_nodes ((k, n) # g) = (if 0 < indegree n then Suc (positive_nodes g) else positive_nodes g)"
  by (simp add: positive_nodes_def)

lemma upd_node_Cons:
  "upd_node c f ((k, n) # g) = (if k = c then (k, f n) else (k, n)) # upd_node c f g"
  by (simp add: upd_node_def)

lemma positive_nodes_dec:
  "positive_nodes (upd_node c dec_indegree g) \<le> positive_nodes g"
  by (induction g) (auto simp: upd_node_Cons positive_nodes_Cons, simp add: upd_node_def)

lemma positive_nodes_dec_one:
  "positive_nodes (upd_node c dec_indegree g) +
     (case map_of g c of Some n \<Rightarrow> if indegree n = 1 then 1 else 0 | None \<Rightarrow> 0) \<le> positive_nodes g"
proof (induction g)
  case (Cons kn g)
  obtain k n where kn: "kn = (k, n)" by fastforce
  show ?case
    using Cons positive_nodes_dec [of c g] unfolding kn
    by (auto simp: upd_node_Cons positive_nodes_Cons split: option.splits)
qed (simp add: upd_node_def positive_nodes_def)

lemma dec_children_measure:
  "dec_children g cs = (g', ps) \<Longrightarrow> length ps + positive_nodes g' \<le> positive_nodes g"
proof (induction cs arbitrary: g g' ps)
  case (Cons c cs)
  let ?g1 = "upd_node c dec_indegree g"
  obtain g2 ps2 where r: "dec_children ?g1 cs = (g2, ps2)" by fastforce
  with Cons.IH have ih: "length ps2 + positive_nodes g2 \<le> positive_nodes ?g1" .
  have "length (case map_of ?g1 c of Some n \<Rightarrow> if indegree n = 0 then [c] else [] | None \<Rightarrow> []) =
        (case map_of g c of Some n \<Rightarrow> if indegree n = 1 then 1 else 0 | None \<Rightarrow> 0)"
    by (auto simp: map_of_upd_node split: option.splits)
  with Cons.prems r ih positive_nodes_dec_one [of c g] show ?case
    by (auto simp: Let_def)
qed simp

lemma pop_min_length: "ready \<noteq> [] \<Longrightarrow> Suc (length (snd (pop_min ready))) = length ready"
  by (simp add: pop_min_def Let_def length_remove1)

lemma order_loop_total: "\<exists>r. order_loop g ready acc = Some r"
proof (induction "length ready + positive_nodes g" arbitrary: g ready acc rule: less_induct)
  case less
  show ?case
  proof (cases "ready = []")
    case True
    then show ?thesis by (simp add: order_loop_stop)
  next
    case False
    let ?m = "fst (pop_min ready)"
    obtain g1 ps where d: "dec_children g (sorted_list_of_set (children_of g ?m)) = (g1, ps)"
      by fastforce
    have "length (snd (pop_min ready) @ ps) + positive_nodes g1 < length ready + positive_nodes g"
      using dec_children_measure [OF d] pop_min_length [OF False] by simp
    from less [OF this] d show ?thesis by (simp add: order_loop_step [OF False])
  qed
qed

text \<open>\<^verbatim>\<open>test_graph_order\<close> and \<^verbatim>\<open>test_time_with_workers\<close> on \<^verbatim>\<open>simple_graph()\<close>.\<close>

lemma time_with_workers_fuel:
  assumes "order_fuel k g (sort (map fst (filter (\<lambda>(k, n). indegree n = 0) g))) [] = Some (g', ord)"
    and "time_fuel n g' b (fst (work_round g' b (replicate (nat nw) new_worker) \<lparr>work_queue = ord, finished = {}, in_progress = {}\<rparr>))
           (snd (work_round g' b (replicate (nat nw) new_worker) \<lparr>work_queue = ord, finished = {}, in_progress = {}\<rparr>)) 0 = Some r"
  shows "time_with_workers g b nw = Some r"
  using order_fuel_sound [OF assms(1)] time_fuel_sound [OF assms(2)]
  by (simp add: time_with_workers_def find_graph_order_def split_beta)

text \<open>\<^verbatim>\<open>test_graph_order\<close> and \<^verbatim>\<open>test_time_with_workers\<close> on \<^verbatim>\<open>simple_graph()\<close>.\<close>

lemma day7_order_test:
  "map_option snd (find_graph_order simple_graph) = Some [''C'', ''A'', ''B'', ''D'', ''F'', ''E'']"
proof -
  have "map_option snd (order_fuel 10 simple_graph (sort (map fst (filter (\<lambda>(k, n). indegree n = 0) simple_graph))) []) =
        Some [''C'', ''A'', ''B'', ''D'', ''F'', ''E'']"
    by code_simp
  then show ?thesis
    by (auto simp: find_graph_order_def dest: order_fuel_sound)
qed

lemma day7_time_test: "time_with_workers simple_graph 0 2 = Some 15"
proof -
  let ?init = "sort (map fst (filter (\<lambda>(k, n). indegree n = 0) simple_graph))"
  have "case order_fuel 10 simple_graph ?init [] of
          None \<Rightarrow> False
        | Some (g', ord) \<Rightarrow>
            time_fuel 30 g' 0 (fst (work_round g' 0 (replicate (nat 2) new_worker) \<lparr>work_queue = ord, finished = {}, in_progress = {}\<rparr>))
              (snd (work_round g' 0 (replicate (nat 2) new_worker) \<lparr>work_queue = ord, finished = {}, in_progress = {}\<rparr>)) 0 = Some 15"
    by code_simp
  then show ?thesis
    by (auto split: option.splits intro: time_with_workers_fuel)
qed

text \<open>The pattern on a line of the input.\<close>

lemma day7_parse_test:
  "parse_pair ''Step C must be finished before step A can begin.'' = Inr (''C'', ''A'')"
  "parse_pair ''Step C'' = Inl AttributeError"
  by code_simp+

text \<open>
  A repeated line in the input connects the same pair twice: the child set holds the
  child once, its in-degree counts two, one decrement leaves it at 1, and the step is
  never emitted.
\<close>

lemma duplicate_edge_drops_step:
  "map_option snd (find_graph_order (make_graph [(''A'', ''B''), (''A'', ''B'')])) = Some [''A'']"
proof -
  have "map_option snd (order_fuel 5 (make_graph [(''A'', ''B''), (''A'', ''B'')])
          (sort (map fst (filter (\<lambda>(k, n). indegree n = 0) (make_graph [(''A'', ''B''), (''A'', ''B'')])))) []) =
        Some [''A'']"
    by code_simp
  then show ?thesis
    by (auto simp: find_graph_order_def dest: order_fuel_sound)
qed

section \<open>Properties\<close>

text \<open>
  C28. \<^verbatim>\<open>find_graph_order\<close> ends on every graph, whatever its edges (cycles,
  self-loops and repeated edges included): the heap is emptied after finitely many pops.
\<close>

theorem find_graph_order_total: "\<exists>g' order. find_graph_order g = Some (g', order)"
  using order_loop_total [of g] by (simp add: find_graph_order_def)

end
