(* ===== verification/Day04_Guards.thy ===== *)
theory Day04_Guards
  imports Py_Text "HOL-Library.Product_Lexorder"
begin

text \<open>
  Day 4, \<^verbatim>\<open>src/day_04.py\<close>: a log of guard shifts. \<^verbatim>\<open>LogParser\<close> parses every
  line into a \<^verbatim>\<open>LogEntry\<close> (a timestamp and a message; any failure becomes
  \<^verbatim>\<open>ValueError\<close>), sorts the entries by time, and replays them: a shift start
  selects (or creates) the guard of that number, a wake-up adds one to each of the
  guard's minutes from the previous entry's minute up to its own. \<^verbatim>\<open>main\<close> picks the
  guard asleep longest and the guard most often asleep on one minute.

  The guard dictionary is an association list in insertion order (the order of
  \<^verbatim>\<open>dict.values()\<close>); the current guard is its number, through which the replay
  updates the dictionary's entry, as the Python updates the shared object. A timestamp
  is the tuple \<open>(year, month, day, hour, minute)\<close>, ordered lexicographically as
  \<^verbatim>\<open>datetime\<close> objects are. \<^verbatim>\<open>datetime.strptime\<close> is modelled for the
  zero-padded form the puzzle uses, \<^verbatim>\<open>YYYY-MM-DD HH:MM\<close>, with the range checks of
  \<^verbatim>\<open>datetime\<close> (month, day of the month with leap years, hour, minute).
\<close>

section \<open>Guards\<close>

record guard =
  guard_id :: int
  minutes :: "int list"

definition new_guard :: "int \<Rightarrow> guard" where
  "new_guard gid = \<lparr>guard_id = gid, minutes = replicate 60 0\<rparr>"

definition time_sleeping :: "guard \<Rightarrow> int" where
  "time_sleeping g = sum_list (minutes g)"

text \<open>
  The loop of \<^verbatim>\<open>favorite_minute_to_sleep\<close> over \<^verbatim>\<open>enumerate(self.minutes)\<close>:
  a strictly larger value replaces the best one, so ties keep the earliest minute.
\<close>

fun fav_loop :: "nat \<Rightarrow> int list \<Rightarrow> int \<Rightarrow> nat \<Rightarrow> nat \<times> int" where
  "fav_loop i [] amount minute = (minute, amount)"
| "fav_loop i (v # vs) amount minute =
     (if v > amount then fav_loop (Suc i) vs v i else fav_loop (Suc i) vs amount minute)"

definition favorite_minute_to_sleep :: "guard \<Rightarrow> nat \<times> int" where
  "favorite_minute_to_sleep g = fav_loop 0 (minutes g) 0 0"

section \<open>Log entries\<close>

type_synonym timestamp = "int \<times> int \<times> int \<times> int \<times> int"

definition ts_minute :: "timestamp \<Rightarrow> int" where
  "ts_minute t = snd (snd (snd (snd t)))"

datatype entry_kind = ShiftStart | FallsAsleep | WakesUp

record log_entry =
  time :: timestamp
  log :: string
  entry_guard :: "int option"
  entry_type :: "entry_kind option"

text \<open>
  \<^verbatim>\<open>LogEntry.__init__\<close>: the kind is read from the first character of the message;
  an empty message makes \<^verbatim>\<open>self.log[0]\<close> raise \<^verbatim>\<open>IndexError\<close>.
\<close>

definition make_entry :: "timestamp \<Rightarrow> string \<Rightarrow> log_entry py_result" where
  "make_entry t l =
     py_bind (py_get l 0) (\<lambda>c.
       Inr \<lparr>time = t, log = l, entry_guard = None,
            entry_type = (if c = CHR ''G'' then Some ShiftStart
                          else if c = CHR ''f'' then Some FallsAsleep
                          else if c = CHR ''w'' then Some WakesUp else None)\<rparr>)"

text \<open>
  \<^verbatim>\<open>guard_finder.search(self.log).groups()[0]\<close> with the pattern \<^verbatim>\<open>#(\d+)\<close>:
  the first \<^verbatim>\<open>#\<close> followed by a digit, and the maximal run of digits after it. No
  match makes \<^verbatim>\<open>.groups()\<close> raise \<^verbatim>\<open>AttributeError\<close>.
\<close>

definition parse_guard_id :: "string \<Rightarrow> int py_result" where
  "parse_guard_id l =
     (case filter (\<lambda>i. l ! i = CHR ''#'' \<and> Suc i < length l \<and> is_digit (l ! Suc i)) [0..<length l] of
        [] \<Rightarrow> Inl AttributeError
      | i # _ \<Rightarrow> Inr (digits_value (takeWhile is_digit (drop (Suc i) l))))"

text \<open>
  \<^verbatim>\<open>log_parser.search(line).groups()\<close> with the pattern \<^verbatim>\<open>\[(.*)\]\s(.*)\<close>: the
  leftmost \<^verbatim>\<open>[\<close> that some later \<^verbatim>\<open>]\<close> followed by whitespace closes, without a
  newline in between; the greedy first group ends at the last such \<^verbatim>\<open>]\<close>, and the
  second group runs to the end of the line or the first newline.
\<close>

definition closes :: "string \<Rightarrow> nat \<Rightarrow> nat \<Rightarrow> bool" where
  "closes s i j \<longleftrightarrow> i < j \<and> Suc j < length s \<and> s ! j = CHR '']'' \<and> is_space (s ! Suc j) \<and>
     (\<forall>k \<in> {Suc i..<j}. s ! k \<noteq> CHR 0x0A)"

definition split_log_line :: "string \<Rightarrow> (string \<times> string) option" where
  "split_log_line s =
     (case filter (\<lambda>i. s ! i = CHR ''['' \<and> (\<exists>j \<in> set [0..<length s]. closes s i j)) [0..<length s] of
        [] \<Rightarrow> None
      | i # _ \<Rightarrow>
          (let j = last (filter (closes s i) [0..<length s])
           in Some (take (j - Suc i) (drop (Suc i) s), takeWhile (\<lambda>c. c \<noteq> CHR 0x0A) (drop (j + 2) s))))"

text \<open>
  \<^verbatim>\<open>datetime.strptime(text, '%Y-%m-%d %H:%M')\<close> on the zero-padded form, with the
  range checks of the \<^verbatim>\<open>datetime\<close> constructor; anything else raises
  \<^verbatim>\<open>ValueError\<close>.
\<close>

definition all_digits :: "string \<Rightarrow> bool" where
  "all_digits s \<longleftrightarrow> (\<forall>c \<in> set s. is_digit c)"

definition days_in_month :: "int \<Rightarrow> int \<Rightarrow> int" where
  "days_in_month y m =
     (if m = 2 then (if y mod 4 = 0 \<and> (y mod 100 \<noteq> 0 \<or> y mod 400 = 0) then 29 else 28)
      else if m \<in> {4, 6, 9, 11} then 30 else 31)"

definition strptime :: "string \<Rightarrow> timestamp py_result" where
  "strptime s =
     (if length s = 16 \<and> s ! 4 = CHR ''-'' \<and> s ! 7 = CHR ''-'' \<and> s ! 10 = CHR '' '' \<and> s ! 13 = CHR '':'' \<and>
         all_digits (take 4 s @ take 2 (drop 5 s) @ take 2 (drop 8 s) @ take 2 (drop 11 s) @ drop 14 s)
      then (let y = digits_value (take 4 s); mo = digits_value (take 2 (drop 5 s));
                d = digits_value (take 2 (drop 8 s)); h = digits_value (take 2 (drop 11 s));
                mi = digits_value (drop 14 s)
            in if 1 \<le> y \<and> 1 \<le> mo \<and> mo \<le> 12 \<and> 1 \<le> d \<and> d \<le> days_in_month y mo \<and> h \<le> 23 \<and> mi \<le> 59
               then Inr (y, mo, d, h, mi) else Inl ValueError)
      else Inl ValueError)"

text \<open>
  One turn of \<^verbatim>\<open>_parse_lines\<close>: every failure inside the \<^verbatim>\<open>try\<close> becomes
  \<^verbatim>\<open>ValueError\<close>.
\<close>

definition parse_line :: "string \<Rightarrow> log_entry py_result" where
  "parse_line line =
     (case split_log_line line of
        None \<Rightarrow> Inl ValueError
      | Some (ts, l) \<Rightarrow>
          (case py_bind (strptime ts) (\<lambda>t. make_entry t l) of
             Inl _ \<Rightarrow> Inl ValueError
           | Inr e \<Rightarrow> Inr e))"

section \<open>The replay\<close>

type_synonym guards = "(int \<times> guard) list"

text \<open>\<^verbatim>\<open>_get_or_create_guard\<close>: a new guard is appended to the dictionary.\<close>

definition get_or_create_guard :: "guards \<Rightarrow> int \<Rightarrow> guards" where
  "get_or_create_guard gs gid = (if gid \<in> fst ` set gs then gs else gs @ [(gid, new_guard gid)])"

text \<open>\<^verbatim>\<open>for j in range(a, b): guard.minutes[j] += 1\<close>.\<close>

fun add_sleep :: "int list \<Rightarrow> int list \<Rightarrow> int list py_result" where
  "add_sleep ms [] = Inr ms"
| "add_sleep ms (j # js) = py_bind (py_get ms j) (\<lambda>v. py_bind (py_set ms j (v + 1)) (\<lambda>ms'. add_sleep ms' js))"

definition upd_guard :: "int \<Rightarrow> (guard \<Rightarrow> guard) \<Rightarrow> guards \<Rightarrow> guards" where
  "upd_guard gid f gs = map (\<lambda>(k, g). if k = gid then (k, f g) else (k, g)) gs"

text \<open>
  One turn of \<^verbatim>\<open>_analyze_entries\<close> on entry \<open>i\<close>: the new current guard and the
  dictionary. A wake-up reads \<^verbatim>\<open>self.entries[i - 1]\<close>, which for \<open>i = 0\<close> is the
  last entry; with no current guard it raises \<^verbatim>\<open>AttributeError\<close> as soon as the
  range is not empty. The Python holds the current guard object itself; here it is
  the guard's number, whose entry the dictionary always has (lemma
  \<open>analyze_turn_current\<close>), so the \<^verbatim>\<open>KeyError\<close> branch is never taken.
\<close>

definition analyze_turn ::
  "log_entry list \<Rightarrow> nat \<Rightarrow> int option \<Rightarrow> guards \<Rightarrow> log_entry \<Rightarrow> (int option \<times> guards) py_result" where
  "analyze_turn es i cur gs e =
     (if entry_type e = Some ShiftStart then
        py_bind (parse_guard_id (log e)) (\<lambda>gid. Inr (Some gid, get_or_create_guard gs gid))
      else if entry_type e = Some WakesUp then
        py_bind (py_get es (int i - 1)) (\<lambda>prev.
          (let js = [ts_minute (time prev)..ts_minute (time e) - 1]
           in case cur of
                None \<Rightarrow> if js = [] then Inr (cur, gs) else Inl AttributeError
              | Some gid \<Rightarrow>
                  (case map_of gs gid of
                     None \<Rightarrow> Inl KeyError
                   | Some g \<Rightarrow> py_bind (add_sleep (minutes g) js) (\<lambda>ms.
                                Inr (cur, upd_guard gid (\<lambda>g. g\<lparr>minutes := ms\<rparr>) gs)))))
      else Inr (cur, gs))"

text \<open>
  The loop: after each turn \<^verbatim>\<open>entry.guard_id = guard.guard_id\<close>, which raises
  \<^verbatim>\<open>AttributeError\<close> while there is no current guard.
\<close>

fun analyze_loop ::
  "log_entry list \<Rightarrow> nat \<Rightarrow> int option \<Rightarrow> guards \<Rightarrow> log_entry list \<Rightarrow> (guards \<times> log_entry list) py_result" where
  "analyze_loop es i cur gs [] = Inr (gs, [])"
| "analyze_loop es i cur gs (e # rest) =
     py_bind (analyze_turn es i cur gs e) (\<lambda>(cur', gs').
       (case cur' of
          None \<Rightarrow> Inl AttributeError
        | Some gid \<Rightarrow>
            py_bind (analyze_loop es (Suc i) cur' gs' rest) (\<lambda>(gs'', rest').
              Inr (gs'', e\<lparr>entry_guard := Some gid\<rparr> # rest'))))"

text \<open>
  \<^verbatim>\<open>LogParser()\<close> on the stripped lines of the input: parse every line, sort by time (Python's sort is stable, as
  \<open>sort_key\<close> is), replay. The result is the guard dictionary and the entries with
  their guard numbers.
\<close>

definition log_parser :: "string list \<Rightarrow> (guards \<times> log_entry list) py_result" where
  "log_parser lines =
     py_bind (py_map (\<lambda>line. parse_line (py_strip line)) lines) (\<lambda>es.
       (let sorted_es = sort_key time es in analyze_loop sorted_es 0 None [] sorted_es))"

text \<open>
  \<^verbatim>\<open>main\<close>: \<^verbatim>\<open>sorted(...)[-1]\<close> is the last of the guards with the greatest
  key in dictionary order; with no guard it raises \<^verbatim>\<open>IndexError\<close>.
\<close>

definition day4_part1 :: "guards \<Rightarrow> int py_result" where
  "day4_part1 gs =
     py_bind (py_get (sort_key time_sleeping (map snd gs)) (-1)) (\<lambda>g.
       Inr (guard_id g * int (fst (favorite_minute_to_sleep g))))"

definition day4_part2 :: "guards \<Rightarrow> int py_result" where
  "day4_part2 gs =
     py_bind (py_get (sort_key (\<lambda>g. snd (favorite_minute_to_sleep g)) (map snd gs)) (-1)) (\<lambda>g.
       Inr (guard_id g * int (fst (favorite_minute_to_sleep g))))"

section \<open>Specification\<close>

text \<open>
  What the replay should compute: the entry before entry \<open>i\<close> (the last one for
  \<open>i = 0\<close>, as \<^verbatim>\<open>entries[i - 1]\<close> reads it), the minutes a wake-up adds, their
  sum over the log, the total of all guards' minutes, and the well-formedness of the
  dictionary: distinct keys, each the number of its guard, sixty non-negative counts.
\<close>

definition prev_index :: "nat \<Rightarrow> nat \<Rightarrow> nat" where
  "prev_index n i = (if i = 0 then n - 1 else i - 1)"

definition wake_span :: "log_entry list \<Rightarrow> nat \<Rightarrow> nat" where
  "wake_span es i =
     (if entry_type (es ! i) = Some WakesUp
      then nat (ts_minute (time (es ! i)) - ts_minute (time (es ! prev_index (length es) i))) else 0)"

definition sleep_total :: "log_entry list \<Rightarrow> nat" where
  "sleep_total es = sum_list (map (wake_span es) [0..<length es])"

definition guards_total :: "guards \<Rightarrow> int" where
  "guards_total gs = sum_list (map (\<lambda>(k, g). time_sleeping g) gs)"

definition wf_guards :: "guards \<Rightarrow> bool" where
  "wf_guards gs \<longleftrightarrow> distinct (map fst gs) \<and>
     (\<forall>(k, g) \<in> set gs. guard_id g = k \<and> length (minutes g) = 60 \<and> (\<forall>m \<in> set (minutes g). 0 \<le> m))"

definition current_ok :: "int option \<Rightarrow> guards \<Rightarrow> bool" where
  "current_ok cur gs \<longleftrightarrow> (\<forall>gid \<in> set_option cur. gid \<in> fst ` set gs)"

text \<open>The example log of the puzzle text.\<close>

definition day4_example :: "string list" where
  "day4_example =
    [''[1518-11-01 00:00] Guard #10 begins shift'', ''[1518-11-01 00:05] falls asleep'',
     ''[1518-11-01 00:25] wakes up'', ''[1518-11-01 00:30] falls asleep'', ''[1518-11-01 00:55] wakes up'',
     ''[1518-11-01 23:58] Guard #99 begins shift'', ''[1518-11-02 00:40] falls asleep'',
     ''[1518-11-02 00:50] wakes up'', ''[1518-11-03 00:05] Guard #10 begins shift'',
     ''[1518-11-03 00:24] falls asleep'', ''[1518-11-03 00:29] wakes up'',
     ''[1518-11-04 00:02] Guard #99 begins shift'', ''[1518-11-04 00:36] falls asleep'',
     ''[1518-11-04 00:46] wakes up'', ''[1518-11-05 00:03] Guard #99 begins shift'',
     ''[1518-11-05 00:45] falls asleep'', ''[1518-11-05 00:55] wakes up'']"
section \<open>Lemmas\<close>

lemma Max_insert_set: "Max (insert a (set (v # vs))) = max v (Max (insert a (set vs)))"
  by (simp add: insert_commute [of a v] Max_insert)

lemma fav_loop_spec:
  "fav_loop i vs a m =
     (let M = Max (insert a (set vs))
      in if M = a then (m, a) else (i + length (takeWhile (\<lambda>x. x \<noteq> M) vs), M))"
proof (induction vs arbitrary: i a m)
  case (Cons v vs)
  show ?case
  proof (cases "v > a")
    case True
    have mx: "Max (insert a (insert v (set vs))) = max a (Max (insert v (set vs)))"
      by (rule Max_insert) simp_all
    have vM: "v \<le> Max (insert v (set vs))" by simp
    with True have "a \<le> Max (insert v (set vs))" by linarith
    with mx have M: "Max (insert a (set (v # vs))) = Max (insert v (set vs))"
      by (simp add: max_def)
    show ?thesis using True vM M Cons [of "Suc i" v i] by (auto simp: Let_def)
  next
    case False
    have mx: "Max (insert v (insert a (set vs))) = max v (Max (insert a (set vs)))"
      by (rule Max_insert) simp_all
    have aM: "a \<le> Max (insert a (set vs))" by simp
    with False have "v \<le> Max (insert a (set vs))" by linarith
    moreover have "insert a (set (v # vs)) = insert v (insert a (set vs))" by auto
    ultimately have "Max (insert a (set (v # vs))) = Max (insert a (set vs))"
      using mx by simp
    moreover note aM
    ultimately show ?thesis using False Cons [of "Suc i" a m] by (auto simp: Let_def)
  qed
qed simp

lemma add_sleep_props:
  "add_sleep ms js = Inr ms' \<Longrightarrow>
   length ms' = length ms \<and> sum_list ms' = sum_list ms + int (length js) \<and>
   ((\<forall>m \<in> set ms. 0 \<le> m) \<longrightarrow> (\<forall>m \<in> set ms'. 0 \<le> m))"
proof (induction js arbitrary: ms)
  case (Cons j js)
  then obtain k where k: "py_index (length ms) j = Some k"
    and r: "add_sleep (ms[k := ms ! k + 1]) js = Inr ms'"
    by (auto simp: py_get_def py_set_def split: option.splits)
  have kl: "k < length ms" using k by (rule py_index_Some_less)
  have "\<forall>m \<in> set ms. 0 \<le> m \<Longrightarrow> \<forall>m \<in> set (ms[k := ms ! k + 1]). 0 \<le> m"
    using kl by (auto dest!: subsetD [OF set_update_subset_insert])
  with Cons.IH [OF r] kl show ?case
    by (simp add: sum_list_update_group)
qed simp

lemma map_fst_upd_guard: "map fst (upd_guard gid f gs) = map fst gs"
  by (induction gs) (auto simp: upd_guard_def)

lemma upd_guard_absent: "gid \<notin> fst ` set gs \<Longrightarrow> upd_guard gid f gs = gs"
  by (induction gs) (auto simp: upd_guard_def)

lemma upd_guard_Cons:
  "upd_guard gid f ((k, g) # gs) = (if k = gid then (k, f g) else (k, g)) # upd_guard gid f gs"
  by (simp add: upd_guard_def)

lemma guards_total_upd:
  "distinct (map fst gs) \<Longrightarrow> map_of gs gid = Some g \<Longrightarrow>
   guards_total (upd_guard gid f gs) = guards_total gs - time_sleeping g + time_sleeping (f g)"
proof (induction gs)
  case (Cons kg gs)
  obtain k g0 where kg: "kg = (k, g0)" by fastforce
  show ?case
  proof (cases "k = gid")
    case True
    with Cons.prems kg have "gid \<notin> fst ` set gs" "g0 = g" by auto
    with True kg show ?thesis
      by (simp add: upd_guard_Cons upd_guard_absent guards_total_def)
  next
    case False
    with Cons kg show ?thesis by (simp add: upd_guard_Cons guards_total_def)
  qed
qed simp

lemma set_upd_guard:
  "(k, g) \<in> set (upd_guard gid f gs) \<Longrightarrow> \<exists>g0. (k, g0) \<in> set gs \<and> g = (if k = gid then f g0 else g0)"
  by (auto simp: upd_guard_def split: if_splits)

lemma wf_guards_upd:
  assumes "wf_guards gs" "length ms = 60" "\<forall>m \<in> set ms. 0 \<le> m"
  shows "wf_guards (upd_guard gid (\<lambda>g. g\<lparr>minutes := ms\<rparr>) gs)"
  unfolding wf_guards_def map_fst_upd_guard
proof (intro conjI ballI)
  show "distinct (map fst gs)" using assms(1) by (simp add: wf_guards_def)
next
  fix kg assume kg2: "kg \<in> set (upd_guard gid (\<lambda>g. g\<lparr>minutes := ms\<rparr>) gs)"
  obtain k g where kg1: "kg = (k, g)" by fastforce
  with kg2 have kg: "kg = (k, g)" "(k, g) \<in> set (upd_guard gid (\<lambda>g. g\<lparr>minutes := ms\<rparr>) gs)"
    by simp_all
  from set_upd_guard [OF kg(2)] obtain g0 where "(k, g0) \<in> set gs"
    and "g = (if k = gid then g0\<lparr>minutes := ms\<rparr> else g0)" by blast
  with assms show "case kg of (k, g) \<Rightarrow> guard_id g = k \<and> length (minutes g) = 60 \<and> (\<forall>m \<in> set (minutes g). 0 \<le> m)"
    unfolding kg(1) wf_guards_def by auto
qed

lemma keys_upd_guard: "fst ` set (upd_guard gid f gs) = fst ` set gs"
  by (metis map_fst_upd_guard set_map)

lemma keys_get_or_create: "fst ` set (get_or_create_guard gs gid) = insert gid (fst ` set gs)"
  by (auto simp: get_or_create_guard_def)

lemma new_guard_props:
  "guard_id (new_guard gid) = gid" "length (minutes (new_guard gid)) = 60"
  "time_sleeping (new_guard gid) = 0" "\<forall>m \<in> set (minutes (new_guard gid)). 0 \<le> m"
  by (simp_all add: new_guard_def time_sleeping_def sum_list_replicate)

lemma total_get_or_create: "guards_total (get_or_create_guard gs gid) = guards_total gs"
  by (simp add: get_or_create_guard_def guards_total_def new_guard_props)

lemma wf_get_or_create: "wf_guards gs \<Longrightarrow> wf_guards (get_or_create_guard gs gid)"
  unfolding wf_guards_def get_or_create_guard_def by (simp add: new_guard_props)

lemma py_get_prev:
  assumes "i < length es"
  shows "py_get es (int i - 1) = Inr (es ! prev_index (length es) i)"
proof (cases i)
  case 0
  with assms have "nat (int (length es) + -1) = length es - 1" by linarith
  moreover from assms have "Suc 0 \<le> length es" by simp
  ultimately show ?thesis using 0 by (simp add: py_get_def py_index_neg prev_index_def)
next
  case (Suc k)
  with assms show ?thesis by (simp add: py_get_nonneg prev_index_def)
qed

lemma analyze_turn_props:
  assumes r: "analyze_turn es i cur gs e = Inr (cur', gs')"
    and wf: "wf_guards gs" and ok: "current_ok cur gs" and i: "i < length es" and e: "e = es ! i"
  shows "wf_guards gs' \<and> current_ok cur' gs' \<and> guards_total gs' = guards_total gs + int (wake_span es i)"
proof -
  consider (start) "entry_type e = Some ShiftStart" | (wake) "entry_type e = Some WakesUp"
    | (other) "entry_type e \<noteq> Some ShiftStart" "entry_type e \<noteq> Some WakesUp" by blast
  then show ?thesis
  proof cases
    case start
    then obtain gid where "gs' = get_or_create_guard gs gid" "cur' = Some gid"
      using r by (auto simp: analyze_turn_def py_simps)
    moreover have "wake_span es i = 0" using start e by (simp add: wake_span_def)
    ultimately show ?thesis
      using wf by (simp add: wf_get_or_create current_ok_def keys_get_or_create total_get_or_create)
  next
    case wake
    let ?p = "es ! prev_index (length es) i"
    let ?js = "[ts_minute (time ?p)..ts_minute (time e) - 1]"
    have span: "wake_span es i = length ?js" using wake e by (simp add: wake_span_def)
    have r2: "(case cur of
                 None \<Rightarrow> if ?js = [] then Inr (cur, gs) else Inl AttributeError
               | Some gid \<Rightarrow>
                   (case map_of gs gid of
                      None \<Rightarrow> Inl KeyError
                    | Some g \<Rightarrow> py_bind (add_sleep (minutes g) ?js) (\<lambda>ms.
                                 Inr (cur, upd_guard gid (\<lambda>g. g\<lparr>minutes := ms\<rparr>) gs)))) = Inr (cur', gs')"
      using r wake i by (simp add: analyze_turn_def py_get_prev Let_def)
    show ?thesis
    proof (cases cur)
      case None
      with r2 have "?js = []" "cur' = cur" "gs' = gs" by (auto split: if_splits)
      with span ok wf show ?thesis by simp
    next
      case (Some gid)
      with ok have "map_of gs gid \<noteq> None" by (simp add: current_ok_def map_of_eq_None_iff)
      then obtain g where g: "map_of gs gid = Some g" by blast
      with r2 Some obtain ms where ms: "add_sleep (minutes g) ?js = Inr ms" and
        c: "cur' = cur" and gs': "gs' = upd_guard gid (\<lambda>g. g\<lparr>minutes := ms\<rparr>) gs"
        by (auto simp: py_simps)
      from g have "(gid, g) \<in> set gs" by (rule map_of_SomeD)
      with wf have "length (minutes g) = 60" "\<forall>m \<in> set (minutes g). 0 \<le> m" "distinct (map fst gs)"
        by (auto simp: wf_guards_def)
      with add_sleep_props [OF ms] have "length ms = 60" "\<forall>m \<in> set ms. 0 \<le> m"
        "sum_list ms = sum_list (minutes g) + int (length ?js)" by auto
      with wf ok g \<open>distinct (map fst gs)\<close> show ?thesis
        unfolding gs' c span
        by (simp add: wf_guards_upd current_ok_def keys_upd_guard guards_total_upd time_sleeping_def)
    qed
  next
    case other
    with r have "cur' = cur" "gs' = gs" by (auto simp: analyze_turn_def)
    moreover have "wake_span es i = 0" using other e by (simp add: wake_span_def)
    ultimately show ?thesis using wf ok by simp
  qed
qed

lemma analyze_loop_props:
  "analyze_loop es i cur gs xs = Inr (gs', xs') \<Longrightarrow> wf_guards gs \<Longrightarrow> current_ok cur gs \<Longrightarrow>
   drop i es = xs \<Longrightarrow>
   wf_guards gs' \<and> guards_total gs' = guards_total gs + int (sum_list (map (wake_span es) [i..<length es])) \<and>
   map time xs' = map time xs \<and> map entry_type xs' = map entry_type xs"
proof (induction xs arbitrary: i cur gs gs' xs')
  case Nil
  then show ?case by simp
next
  case (Cons e rest)
  from drop_Cons_props [OF Cons.prems(4)] have i: "i < length es" and e: "es ! i = e"
    and d: "drop (Suc i) es = rest" by auto
  from Cons.prems(1) obtain cur' gs1 gid gs2 rest' where
    t: "analyze_turn es i cur gs e = Inr (cur', gs1)" and c: "cur' = Some gid" and
    l: "analyze_loop es (Suc i) cur' gs1 rest = Inr (gs2, rest')" and
    r: "gs' = gs2" "xs' = e\<lparr>entry_guard := Some gid\<rparr> # rest'"
    by (auto simp: py_simps split: option.splits)
  from analyze_turn_props [OF t Cons.prems(2,3) i e [symmetric]] have
    inv: "wf_guards gs1" "current_ok cur' gs1" "guards_total gs1 = guards_total gs + int (wake_span es i)"
    by auto
  from Cons.IH [OF l inv(1,2) d] i inv(3) r show ?case
    by (simp add: upt_conv_Cons)
qed

lemma wake_span_cong:
  assumes m: "map time es = map time es2" "map entry_type es = map entry_type es2" and i: "i < length es"
  shows "wake_span es i = wake_span es2 i"
proof -
  have l: "length es2 = length es" using m(1) by (metis length_map)
  have t: "time (es ! k) = time (es2 ! k)" "entry_type (es ! k) = entry_type (es2 ! k)" if "k < length es" for k
    using m that l by (metis nth_map)+
  have "prev_index (length es) i < length es" using i by (auto simp: prev_index_def)
  with i show ?thesis unfolding wake_span_def by (simp add: t l)
qed

lemma sleep_total_cong:
  assumes "map time es = map time es2" "map entry_type es = map entry_type es2"
  shows "sleep_total es = sleep_total es2"
proof -
  have l: "length es2 = length es" using assms(1) by (metis length_map)
  have "map (wake_span es) [0..<length es] = map (wake_span es2) [0..<length es]"
    using wake_span_cong [OF assms] by simp
  then show ?thesis unfolding sleep_total_def l by (rule arg_cong)
qed

lemma log_parser_not_shift_first:
  assumes "py_map (\<lambda>line. parse_line (py_strip line)) lines = Inr es"
    and "sort_key time es = e # rest" and "entry_type e \<noteq> Some ShiftStart"
  shows "log_parser lines = Inl AttributeError"
proof -
  have "analyze_turn (e # rest) 0 None [] e = Inr (None, []) \<or> analyze_turn (e # rest) 0 None [] e = Inl AttributeError"
    using assms(3) by (auto simp: analyze_turn_def py_get_prev [of 0 "e # rest", simplified] Let_def)
  then show ?thesis using assms(1,2) by (auto simp: log_parser_def Let_def)
qed

text \<open>
  The example of the puzzle text: guard 10 sleeps most (50 minutes, most often at minute
  24), guard 99 is asleep at minute 45 most often (three times); the order of the lines
  does not matter.
\<close>

lemma day4_example_test:
  "(case log_parser day4_example of Inr (gs, es) \<Rightarrow> (day4_part1 gs, day4_part2 gs) | Inl e \<Rightarrow> (Inl e, Inl e)) =
   (Inr 240, Inr 4455)"
  by code_simp

lemma day4_example_succeeds: "\<exists>gs es. log_parser day4_example = Inr (gs, es)"
proof -
  have "case log_parser day4_example of Inr _ \<Rightarrow> True | Inl _ \<Rightarrow> False" by code_simp
  then show ?thesis by (auto split: sum.splits)
qed

section \<open>Properties\<close>

text \<open>
  C29. \<^verbatim>\<open>Guard.favorite_minute_to_sleep\<close> returns the greatest count and the
  first minute that has it, and \<open>(0, 0)\<close> for a guard who never slept.
\<close>

theorem favorite_minute_to_sleep_spec:
  "favorite_minute_to_sleep g =
     (let M = Max (insert 0 (set (minutes g)))
      in if M = 0 then (0, 0) else (length (takeWhile (\<lambda>x. x \<noteq> M) (minutes g)), M))"
  by (simp add: favorite_minute_to_sleep_def fav_loop_spec Let_def)

text \<open>
  C30. A log the parser accepts leaves its guards well formed: the dictionary's keys
  are distinct, each is the number of its guard, and each guard has sixty non-negative
  counts (the replay's writes stay in range and the dictionary lookups never fail).
\<close>

theorem log_parser_guards_wf:
  "log_parser lines = Inr (gs, es) \<Longrightarrow>
   distinct (map fst gs) \<and>
   (\<forall>(k, g) \<in> set gs. guard_id g = k \<and> length (minutes g) = 60 \<and> (\<forall>m \<in> set (minutes g). 0 \<le> m))"
proof -
  assume "log_parser lines = Inr (gs, es)"
  then obtain es0 where "analyze_loop (sort_key time es0) 0 None [] (sort_key time es0) = Inr (gs, es)"
    by (auto simp: log_parser_def py_simps Let_def)
  from analyze_loop_props [OF this] have "wf_guards gs"
    by (auto simp: wf_guards_def current_ok_def)
  then show ?thesis by (simp add: wf_guards_def)
qed

theorem log_parser_guards_wf_witness:
  "case log_parser day4_example of
     Inr (gs, es) \<Rightarrow> distinct (map fst gs) \<and>
       (\<forall>(k, g) \<in> set gs. guard_id g = k \<and> length (minutes g) = 60 \<and> (\<forall>m \<in> set (minutes g). 0 \<le> m))
   | Inl _ \<Rightarrow> False"
proof -
  obtain gs es where r: "log_parser day4_example = Inr (gs, es)" using day4_example_succeeds by blast
  show ?thesis using log_parser_guards_wf [OF r] r by simp
qed

text \<open>
  C31. The replay counts every minute of sleep once: the guards' counts add up to the
  sum, over the wake-up entries of the sorted log, of the minutes from the previous
  entry's minute to the wake-up's.
\<close>

theorem log_parser_sleep_total:
  "log_parser lines = Inr (gs, es) \<Longrightarrow> guards_total gs = int (sleep_total es)"
proof -
  assume "log_parser lines = Inr (gs, es)"
  then obtain es0 where "analyze_loop (sort_key time es0) 0 None [] (sort_key time es0) = Inr (gs, es)"
    by (auto simp: log_parser_def py_simps Let_def)
  from analyze_loop_props [OF this] have
    "guards_total gs = int (sleep_total (sort_key time es0))"
    "map time es = map time (sort_key time es0)" "map entry_type es = map entry_type (sort_key time es0)"
    by (auto simp: wf_guards_def current_ok_def guards_total_def sleep_total_def)
  then show ?thesis using sleep_total_cong by metis
qed

theorem log_parser_sleep_total_witness:
  "case log_parser day4_example of Inr (gs, es) \<Rightarrow> guards_total gs = int (sleep_total es) | Inl _ \<Rightarrow> False"
proof -
  obtain gs es where r: "log_parser day4_example = Inr (gs, es)" using day4_example_succeeds by blast
  show ?thesis using log_parser_sleep_total [OF r] r by simp
qed

end
