(* ===== verification/Day25_Constellations.thy ===== *)
theory Day25_Constellations
  imports Py_Text
begin

text \<open>
  Day 25, \<^verbatim>\<open>src/day_25.py\<close>: points in four dimensions joined into constellations.
  \<^verbatim>\<open>Star\<close> is a named 4-tuple (\<open>star\<close>) read from a comma-separated line;
  \<^verbatim>\<open>Galaxy.num_constellations\<close> adds an edge of a \<^verbatim>\<open>networkx\<close> graph between every
  two stars (in both orders, a star with itself included) within the tolerance and returns
  \<^verbatim>\<open>nx.number_connected_components\<close>, or \<^verbatim>\<open>None\<close> for no stars. The library's
  graph is modelled by its node set and edge relation, and the number of components by a
  merge of components node by node (\<open>components\<close>); the lemma
  \<open>components_partition\<close> and the property \<open>num_constellations_correct\<close> show
  that this counts the classes of the reachability relation.
\<close>

section \<open>Stars\<close>

record star =
  star_x :: int
  star_y :: int
  star_z :: int
  star_t :: int

text \<open>
  \<^verbatim>\<open>cls(*[int(i) for i in string.strip().split(',')])\<close>: a field that is not an
  integer raises \<^verbatim>\<open>ValueError\<close>, a number of fields other than four
  \<^verbatim>\<open>TypeError\<close> (the tuple's constructor).
\<close>

definition star_from_string :: "string \<Rightarrow> star py_result" where
  "star_from_string s =
     py_bind (py_map py_int (py_split_on CHR '','' (py_strip s))) (\<lambda>vs.
       (case vs of
          [x, y, z, t] \<Rightarrow> Inr \<lparr>star_x = x, star_y = y, star_z = z, star_t = t\<rparr>
        | _ \<Rightarrow> Inl TypeError))"

definition stars_from_lines :: "string list \<Rightarrow> star list py_result" where
  "stars_from_lines lines = py_map star_from_string (map py_strip lines)"

definition dist :: "star \<Rightarrow> star \<Rightarrow> int" where
  "dist a b = \<bar>star_x a - star_x b\<bar> + \<bar>star_y a - star_y b\<bar> + \<bar>star_z a - star_z b\<bar> + \<bar>star_t a - star_t b\<bar>"

section \<open>The graph\<close>

text \<open>
  The nodes of the graph: every star that is an end of some edge, once each (the graph
  identifies equal tuples). With a negative tolerance there is no edge and no node.
\<close>

definition graph_nodes :: "int \<Rightarrow> star list \<Rightarrow> star list" where
  "graph_nodes tol stars = remdups (filter (\<lambda>s. \<exists>t \<in> set stars. dist s t \<le> tol) stars)"

text \<open>
  Adding a node to a list of components: every component with a neighbour of the node
  is merged with it, the others are kept.
\<close>

definition insert_node :: "int \<Rightarrow> star \<Rightarrow> star list list \<Rightarrow> star list list" where
  "insert_node tol s comps =
     (s # concat (filter (\<lambda>c. \<exists>t \<in> set c. dist s t \<le> tol) comps))
       # filter (\<lambda>c. \<not> (\<exists>t \<in> set c. dist s t \<le> tol)) comps"

definition components :: "int \<Rightarrow> star list \<Rightarrow> star list list" where
  "components tol ns = foldr (insert_node tol) ns []"

definition num_constellations :: "int \<Rightarrow> star list \<Rightarrow> nat option" where
  "num_constellations tol stars =
     (if stars = [] then None else Some (length (components tol (graph_nodes tol stars))))"

section \<open>Specification\<close>

text \<open>
  Two stars of a set are connected when a chain of stars of the set, each within the
  tolerance of the next, joins them; a constellation is a class of this relation.
\<close>

definition linked :: "int \<Rightarrow> star set \<Rightarrow> star \<Rightarrow> star \<Rightarrow> bool" where
  "linked tol S = (\<lambda>a b. a \<in> S \<and> b \<in> S \<and> dist a b \<le> tol)\<^sup>*\<^sup>*"

definition constellations :: "int \<Rightarrow> star set \<Rightarrow> star set set" where
  "constellations tol S = (\<lambda>a. {b \<in> S. linked tol S a b}) ` S"

section \<open>Lemmas\<close>

lemma dist_sym: "dist a b = dist b a"
  by (simp add: dist_def abs_minus_commute)

lemma dist_self: "dist a a = 0"
  by (simp add: dist_def)

text \<open>The assertions of \<^verbatim>\<open>test_star_from_string\<close> and \<^verbatim>\<open>test_num_constellations\<close>.\<close>

lemma day25_tests:
  "star_from_string ''4,5,0,-5'' = Inr \<lparr>star_x = 4, star_y = 5, star_z = 0, star_t = -5\<rparr>"
  "py_bind (stars_from_lines [''0,0,0,0'', ''3,0,0,0'', ''0,3,0,0'', ''0,0,3,0'', ''0,0,0,3'', ''0,0,0,6'',
      ''9,0,0,0'', ''12,0,0,0'']) (\<lambda>stars. Inr (num_constellations 3 stars)) = Inr (Some 2)"
  "star_from_string ''1,2,3'' = Inl TypeError"
  by code_simp+

lemma linked_refl: "linked tol S a a"
  by (simp add: linked_def)

lemma linked_sym: "linked tol S a b \<Longrightarrow> linked tol S b a"
  unfolding linked_def
proof (induction rule: rtranclp_induct)
  case (step y z)
  then have "(\<lambda>a b. a \<in> S \<and> b \<in> S \<and> dist a b \<le> tol) z y" by (simp add: dist_sym)
  from this step.IH show ?case by (rule converse_rtranclp_into_rtranclp)
qed simp

lemma linked_mem: "linked tol S a b \<Longrightarrow> a \<in> S \<Longrightarrow> b \<in> S"
  unfolding linked_def by (induction rule: rtranclp_induct) auto

lemma linked_mono: "linked tol S a b \<Longrightarrow> S \<subseteq> S' \<Longrightarrow> linked tol S' a b"
  unfolding linked_def by (induction rule: rtranclp_induct) (auto intro: rtranclp.rtrancl_into_rtrancl)

lemma linked_step: "linked tol S a b \<Longrightarrow> b \<in> S \<Longrightarrow> c \<in> S \<Longrightarrow> dist b c \<le> tol \<Longrightarrow> linked tol S a c"
  unfolding linked_def by (rule rtranclp.rtrancl_into_rtrancl) auto

lemma linked_trans: "linked tol S a b \<Longrightarrow> linked tol S b c \<Longrightarrow> linked tol S a c"
  unfolding linked_def by (rule rtranclp_trans)

text \<open>A chain in \<open>insert s S\<close> from a star of \<open>S\<close> stays in \<open>S\<close> or reaches a neighbour of \<open>s\<close> first.\<close>

lemma linked_insert:
  assumes "linked tol (insert s S) a b" "a \<in> S" "s \<notin> S"
  shows "linked tol S a b \<or> (\<exists>t \<in> S. linked tol S a t \<and> dist t s \<le> tol)"
  using assms(1) unfolding linked_def [of tol "insert s S"]
proof (induction rule: rtranclp_induct)
  case base
  then show ?case by (simp add: linked_refl)
next
  case (step y z)
  show ?case
  proof (cases "linked tol S a y")
    case True
    from this assms(2) have y: "y \<in> S" by (rule linked_mem)
    show ?thesis
    proof (cases "z = s")
      case True
      with y step.hyps(2) \<open>linked tol S a y\<close> show ?thesis by auto
    next
      case False
      with y step.hyps(2) \<open>linked tol S a y\<close> show ?thesis by (auto intro: linked_step)
    qed
  next
    case False
    with step.IH show ?thesis by blast
  qed
qed

lemma linked_to_new:
  assumes "a \<in> S" "s \<notin> S"
  shows "linked tol (insert s S) a s \<longleftrightarrow> (\<exists>t \<in> S. linked tol S a t \<and> dist t s \<le> tol)"
proof
  assume "linked tol (insert s S) a s"
  from linked_insert [OF this assms] linked_mem [of tol S a s] assms show "\<exists>t \<in> S. linked tol S a t \<and> dist t s \<le> tol"
    by auto
next
  assume "\<exists>t \<in> S. linked tol S a t \<and> dist t s \<le> tol"
  then obtain t where "t \<in> S" "linked tol S a t" "dist t s \<le> tol" by blast
  then show "linked tol (insert s S) a s"
    by (auto intro: linked_step linked_mono)
qed

lemma linked_insert_iff:
  assumes "a \<in> S" "b \<in> S" "s \<notin> S"
  shows "linked tol (insert s S) a b \<longleftrightarrow>
         linked tol S a b \<or> (linked tol (insert s S) a s \<and> linked tol (insert s S) b s)"
proof
  assume ab: "linked tol (insert s S) a b"
  show "linked tol S a b \<or> (linked tol (insert s S) a s \<and> linked tol (insert s S) b s)"
  proof (cases "linked tol S a b")
    case False
    with linked_insert [OF ab assms(1,3)] have "linked tol (insert s S) a s"
      using assms by (simp add: linked_to_new)
    moreover from linked_insert [OF linked_sym [OF ab] assms(2,3)] False have "linked tol (insert s S) b s"
      using assms by (auto simp: linked_to_new dest: linked_sym)
    ultimately show ?thesis by simp
  qed simp
next
  assume "linked tol S a b \<or> (linked tol (insert s S) a s \<and> linked tol (insert s S) b s)"
  then show "linked tol (insert s S) a b"
    by (auto intro: linked_mono linked_trans linked_sym)
qed

lemma components_partition:
  "distinct ns \<Longrightarrow>
   (\<forall>c \<in> set (components tol ns). c \<noteq> []) \<and> distinct (concat (components tol ns)) \<and>
   set (concat (components tol ns)) = set ns \<and>
   (\<forall>c \<in> set (components tol ns). \<forall>a \<in> set c. set c = {b \<in> set ns. linked tol (set ns) a b})"
proof (induction ns)
  case Nil
  then show ?case by (simp add: components_def)
next
  case (Cons s ns)
  let ?S = "set ns" and ?S' = "insert s (set ns)" and ?cs = "components tol ns"
  let ?near = "\<lambda>c. \<exists>t \<in> set c. dist s t \<le> tol"
  have s: "s \<notin> ?S" using Cons.prems by simp
  from Cons.IH Cons.prems have ne: "\<forall>c \<in> set ?cs. c \<noteq> []" and d: "distinct (concat ?cs)"
    and cov: "set (concat ?cs) = ?S"
    and cls: "\<forall>c \<in> set ?cs. \<forall>a \<in> set c. set c = {b \<in> ?S. linked tol ?S a b}" by auto
  have new: "components tol (s # ns) = (s # concat (filter ?near ?cs)) # filter (\<lambda>c. \<not> ?near c) ?cs"
    by (simp add: components_def insert_node_def)
  text \<open>A component is near \<open>s\<close> exactly when its members reach \<open>s\<close> in the larger set.\<close>
  have near_iff: "?near c \<longleftrightarrow> linked tol ?S' a s" if "c \<in> set ?cs" "a \<in> set c" for c a
  proof -
    have a: "a \<in> ?S" using that cov by auto
    have "?near c \<longleftrightarrow> (\<exists>t \<in> ?S. linked tol ?S a t \<and> dist t s \<le> tol)"
      using cls that by (auto simp: dist_sym)
    then show ?thesis using linked_to_new [OF a s] by simp
  qed
  have owner: "\<exists>c \<in> set ?cs. b \<in> set c" if "b \<in> ?S" for b
    using that cov by auto
  have cls_s: "set (s # concat (filter ?near ?cs)) = {b \<in> ?S'. linked tol ?S' s b}"
  proof (rule set_eqI, rule iffI)
    fix b assume "b \<in> set (s # concat (filter ?near ?cs))"
    then show "b \<in> {b \<in> ?S'. linked tol ?S' s b}"
      using near_iff cov by (auto simp: linked_refl intro: linked_sym)
  next
    fix b assume b: "b \<in> {b \<in> ?S'. linked tol ?S' s b}"
    show "b \<in> set (s # concat (filter ?near ?cs))"
    proof (cases "b = s")
      case False
      with b have "b \<in> ?S" "linked tol ?S' b s" by (auto intro: linked_sym)
      with owner near_iff show ?thesis by fastforce
    qed simp
  qed
  have "\<forall>c \<in> set (components tol (s # ns)). \<forall>a \<in> set c. set c = {b \<in> ?S'. linked tol ?S' a b}"
  proof (intro ballI)
    fix c a assume c: "c \<in> set (components tol (s # ns))" and a: "a \<in> set c"
    show "set c = {b \<in> ?S'. linked tol ?S' a b}"
    proof (cases "c = s # concat (filter ?near ?cs)")
      case True
      have "linked tol ?S' a s" using a True near_iff by (auto simp: linked_refl)
      then have "linked tol ?S' a b \<longleftrightarrow> linked tol ?S' s b" for b
        by (meson linked_sym linked_trans)
      with True cls_s show ?thesis by simp
    next
      case False
      with c new have c': "c \<in> set ?cs" "\<not> ?near c" by auto
      then have as: "\<not> linked tol ?S' a s" using near_iff a by blast
      have aS: "a \<in> ?S" using c' a cov by auto
      show ?thesis
      proof (rule set_eqI)
        fix b
        show "b \<in> set c \<longleftrightarrow> b \<in> {b \<in> ?S'. linked tol ?S' a b}"
        proof (cases "b = s")
          case True
          with as c' a cov s show ?thesis by auto
        next
          case False
          then have "b \<in> ?S' \<longleftrightarrow> b \<in> ?S" by simp
          moreover have "b \<in> ?S \<Longrightarrow> linked tol ?S' a b \<longleftrightarrow> linked tol ?S a b"
            using linked_insert_iff [OF aS _ s] as by blast
          ultimately show ?thesis using cls c' a cov by auto
        qed
      qed
    qed
  qed
  moreover have "distinct (concat (components tol (s # ns)))"
    using distinct_concat_filter [OF d, of ?near] s cov by (auto simp: new)
  moreover have "set (concat (filter ?near ?cs)) \<union> set (concat (filter (\<lambda>c. \<not> ?near c) ?cs)) = set (concat ?cs)"
    by (auto simp: set_concat) blast
  then have "set (concat (components tol (s # ns))) = set (s # ns)"
    using cov by (simp add: new)
  moreover have "\<forall>c \<in> set (components tol (s # ns)). c \<noteq> []"
    using ne by (auto simp: new)
  ultimately show ?case by simp
qed

lemma length_components:
  assumes "distinct ns"
  shows "length (components tol ns) = card (constellations tol (set ns))"
proof -
  let ?cs = "components tol ns"
  from components_partition [OF assms] have ne: "\<forall>c \<in> set ?cs. c \<noteq> []"
    and d: "distinct (concat ?cs)" and cov: "set (concat ?cs) = set ns"
    and cls: "\<forall>c \<in> set ?cs. \<forall>a \<in> set c. set c = {b \<in> set ns. linked tol (set ns) a b}" by auto
  have "set (map set ?cs) = constellations tol (set ns)"
  proof (rule set_eqI, rule iffI)
    fix C assume "C \<in> set (map set ?cs)"
    then obtain c where c: "c \<in> set ?cs" "C = set c" by auto
    with ne obtain a where "a \<in> set c" by (cases c) auto
    with c cls cov show "C \<in> constellations tol (set ns)"
      unfolding constellations_def by auto
  next
    fix C assume "C \<in> constellations tol (set ns)"
    then obtain a where a: "a \<in> set ns" "C = {b \<in> set ns. linked tol (set ns) a b}"
      unfolding constellations_def by auto
    with cov obtain c where "c \<in> set ?cs" "a \<in> set c" by auto
    with a cls show "C \<in> set (map set ?cs)" by auto
  qed
  with distinct_map_set [OF d ne] show ?thesis
    by (metis distinct_card length_map)
qed

lemma graph_nodes_nonneg: "0 \<le> tol \<Longrightarrow> set (graph_nodes tol stars) = set stars"
proof -
  assume "0 \<le> tol"
  then have "dist s s \<le> tol" for s by (simp add: dist_self)
  then have "\<forall>s \<in> set stars. \<exists>t \<in> set stars. dist s t \<le> tol" by blast
  then show ?thesis by (simp add: graph_nodes_def)
qed

lemma negative_tolerance_no_nodes: "tol < 0 \<Longrightarrow> graph_nodes tol stars = []"
proof -
  assume tol: "tol < 0"
  have "\<not> dist s t \<le> tol" for s t
    using tol by (simp add: dist_def not_le)
  then show ?thesis by (simp add: graph_nodes_def)
qed

lemma negative_tolerance_zero: "stars \<noteq> [] \<Longrightarrow> tol < 0 \<Longrightarrow> num_constellations tol stars = Some 0"
  by (simp add: num_constellations_def negative_tolerance_no_nodes components_def)

section \<open>Properties\<close>

text \<open>
  C32. \<^verbatim>\<open>Galaxy.num_constellations\<close> counts the constellations: for a non-empty
  list of stars and a non-negative tolerance it returns the number of classes of stars
  joined by chains of stars each within the tolerance of the next.
\<close>

theorem num_constellations_correct:
  "stars \<noteq> [] \<Longrightarrow> 0 \<le> tol \<Longrightarrow> num_constellations tol stars = Some (card (constellations tol (set stars)))"
  using length_components [of "graph_nodes tol stars" tol] graph_nodes_nonneg [of tol stars]
  by (simp add: num_constellations_def graph_nodes_def [of tol stars])

theorem num_constellations_correct_witness:
  "num_constellations 3 [\<lparr>star_x = 0, star_y = 0, star_z = 0, star_t = 0\<rparr>, \<lparr>star_x = 3, star_y = 0, star_z = 0, star_t = 0\<rparr>,
                         \<lparr>star_x = 9, star_y = 0, star_z = 0, star_t = 0\<rparr>] =
     Some (card (constellations 3 (set [\<lparr>star_x = 0, star_y = 0, star_z = 0, star_t = 0\<rparr>,
       \<lparr>star_x = 3, star_y = 0, star_z = 0, star_t = 0\<rparr>, \<lparr>star_x = 9, star_y = 0, star_z = 0, star_t = 0\<rparr>]))) \<and>
   num_constellations 3 [\<lparr>star_x = 0, star_y = 0, star_z = 0, star_t = 0\<rparr>, \<lparr>star_x = 3, star_y = 0, star_z = 0, star_t = 0\<rparr>,
                         \<lparr>star_x = 9, star_y = 0, star_z = 0, star_t = 0\<rparr>] = Some 2"
proof
  show "num_constellations 3 [\<lparr>star_x = 0, star_y = 0, star_z = 0, star_t = 0\<rparr>, \<lparr>star_x = 3, star_y = 0, star_z = 0, star_t = 0\<rparr>,
                         \<lparr>star_x = 9, star_y = 0, star_z = 0, star_t = 0\<rparr>] = Some 2"
    by code_simp
qed (rule num_constellations_correct; simp)

end
