(* ===== verification/Day20_Regular_Map.thy ===== *)
theory Day20_Regular_Map
  imports Py_Text "HOL-Library.Extended_Nat" "HOL-Library.AList"
begin

text \<open>
  Day 20, \<^verbatim>\<open>src/day_20.py\<close>: the rooms reached by a route regular expression.
  \<^verbatim>\<open>RegularMap.explore\<close> walks the expression once with a stack of branch points and
  records in a \<^verbatim>\<open>defaultdict\<close> with default \<^verbatim>\<open>float('inf')\<close> the least number of
  doors seen so far to each room. The dictionary is an association list in insertion
  order whose values are \<open>enat\<close> (\<open>\<infinity>\<close> for \<^verbatim>\<open>inf\<close>); reading a missing key inserts
  the default, as \<^verbatim>\<open>defaultdict\<close> does. \<^verbatim>\<open>stack.pop()\<close> and \<^verbatim>\<open>stack[-1]\<close> on an
  empty stack raise \<^verbatim>\<open>IndexError\<close>; characters other than the four directions and
  \<^verbatim>\<open>( | )\<close> are skipped.
\<close>

section \<open>The walk\<close>

type_synonym point = "int \<times> int"

type_synonym cost_map = "(point \<times> enat) list"

definition direction :: "char \<Rightarrow> point option" where
  "direction c =
     (if c = CHR ''N'' then Some (0, -1) else if c = CHR ''S'' then Some (0, 1)
      else if c = CHR ''E'' then Some (1, 0) else if c = CHR ''W'' then Some (-1, 0) else None)"

definition point_add :: "point \<Rightarrow> point \<Rightarrow> point" where
  "point_add p q = (fst p + fst q, snd p + snd q)"

text \<open>\<^verbatim>\<open>costs[p]\<close> on the \<^verbatim>\<open>defaultdict\<close>: a missing key is inserted with \<open>\<infinity>\<close>.\<close>

definition cost_read :: "cost_map \<Rightarrow> point \<Rightarrow> cost_map \<times> enat" where
  "cost_read m p = (case map_of m p of Some v \<Rightarrow> (m, v) | None \<Rightarrow> (m @ [(p, \<infinity>)], \<infinity>))"

record walk =
  stack :: "point list"
  pos :: point
  costs :: cost_map

text \<open>One turn of \<^verbatim>\<open>for c in self.regex\<close>.\<close>

definition walk_step :: "walk \<Rightarrow> char \<Rightarrow> walk py_result" where
  "walk_step w c =
     (case direction c of
        Some d \<Rightarrow>
          (let new_pos = point_add (pos w) d;
               (m1, here) = cost_read (costs w) (pos w);
               (m2, there) = cost_read m1 new_pos
           in Inr (w\<lparr>costs := AList.update new_pos (min (here + 1) there) m2, pos := new_pos\<rparr>))
      | None \<Rightarrow>
          if c = CHR ''('' then Inr (w\<lparr>stack := stack w @ [pos w]\<rparr>)
          else if c = CHR '')'' then
            (if stack w = [] then Inl IndexError else Inr (w\<lparr>pos := last (stack w), stack := butlast (stack w)\<rparr>))
          else if c = CHR ''|'' then
            (if stack w = [] then Inl IndexError else Inr (w\<lparr>pos := last (stack w)\<rparr>))
          else Inr w)"

fun walk_loop :: "walk \<Rightarrow> string \<Rightarrow> walk py_result" where
  "walk_loop w [] = Inr w"
| "walk_loop w (c # cs) = py_bind (walk_step w c) (\<lambda>w'. walk_loop w' cs)"

text \<open>\<^verbatim>\<open>RegularMap.explore\<close>: start at the origin with cost 0.\<close>

definition explore :: "string \<Rightarrow> cost_map py_result" where
  "explore regex =
     py_bind (walk_loop \<lparr>stack = [], pos = (0, 0), costs = [((0, 0), 0)]\<rparr> regex) (\<lambda>w. Inr (costs w))"

text \<open>\<^verbatim>\<open>max(self.costs.values())\<close> (\<^verbatim>\<open>ValueError\<close> on an empty dictionary).\<close>

definition highest_cost :: "cost_map \<Rightarrow> enat py_result" where
  "highest_cost m = (if m = [] then Inl ValueError else Inr (Max (set (map snd m))))"

definition paths_above_n :: "cost_map \<Rightarrow> enat \<Rightarrow> nat" where
  "paths_above_n m n = length (filter (\<lambda>v. v \<ge> n) (map snd m))"

section \<open>Lemmas\<close>

text \<open>The walk keeps the dictionary's keys distinct and the origin's cost at 0.\<close>

definition walk_ok :: "walk \<Rightarrow> bool" where
  "walk_ok w \<longleftrightarrow> distinct (map fst (costs w)) \<and> map_of (costs w) (0, 0) = Some 0"

lemma cost_read_ok:
  "distinct (map fst m) \<Longrightarrow> cost_read m p = (m', v) \<Longrightarrow>
   distinct (map fst m') \<and> map_of m' = (map_of m)(p \<mapsto> v)"
  by (auto simp: cost_read_def map_of_append map_add_def fun_eq_iff split: option.splits)

lemma walk_step_ok: "walk_ok w \<Longrightarrow> walk_step w c = Inr w' \<Longrightarrow> walk_ok w'"
proof -
  assume ok: "walk_ok w" and st: "walk_step w c = Inr w'"
  show ?thesis
  proof (cases "direction c")
    case (Some d)
    let ?n = "point_add (pos w) d"
    obtain m1 here m2 there where r1: "cost_read (costs w) (pos w) = (m1, here)"
      and r2: "cost_read m1 ?n = (m2, there)" by fastforce
    from ok have "distinct (map fst (costs w))" by (simp add: walk_ok_def)
    from cost_read_ok [OF this r1] have d1: "distinct (map fst m1)" "map_of m1 = (map_of (costs w))(pos w \<mapsto> here)"
      by auto
    from cost_read_ok [OF d1(1) r2] have d2: "distinct (map fst m2)" "map_of m2 = (map_of m1)(?n \<mapsto> there)"
      by auto
    have here: "map_of (costs w) (pos w) = Some v \<Longrightarrow> here = v" for v
      using r1 by (simp add: cost_read_def)
    have w': "w' = w\<lparr>costs := AList.update ?n (min (here + 1) there) m2, pos := ?n\<rparr>"
      using st Some r1 r2 by (simp add: walk_step_def Let_def)
    have "map_of m2 (0, 0) = Some 0 \<or> ?n = (0, 0)"
      using ok d1 d2 here by (auto simp: walk_ok_def)
    moreover have "?n = (0, 0) \<Longrightarrow> there = 0"
      using ok d1 r2 here by (auto simp: walk_ok_def cost_read_def split: if_splits)
    ultimately show ?thesis
      using d2 by (auto simp: w' walk_ok_def update_conv' distinct_update min_def)
  next
    case None
    with st ok show ?thesis
      by (auto simp: walk_step_def walk_ok_def split: if_splits)
  qed
qed

lemma walk_loop_ok: "walk_ok w \<Longrightarrow> walk_loop w cs = Inr w' \<Longrightarrow> walk_ok w'"
  by (induction cs arbitrary: w) (auto simp: py_simps dest: walk_step_ok)

lemma explore_origin:
  "explore regex = Inr m \<Longrightarrow> map_of m (0, 0) = Some 0 \<and> distinct (map fst m)"
  using walk_loop_ok [of "\<lparr>stack = [], pos = (0, 0), costs = [((0, 0), 0)]\<rparr>" regex]
  by (auto simp: explore_def walk_ok_def py_simps)

text \<open>The assertions of \<^verbatim>\<open>test_sample_cases\<close>.\<close>

lemma day20_tests:
  "py_bind (explore ''^WNE$'') highest_cost = Inr 3"
  "py_bind (explore ''^ENWWW(NEEE|SSE(EE|N))$'') highest_cost = Inr 10"
  "py_bind (explore ''^ENNWSWW(NEWS|)SSSEEN(WNSE|)EE(SWEN|)NNN$'') highest_cost = Inr 18"
  by code_simp+

text \<open>An unbalanced closing parenthesis or a bar outside a group raises \<^verbatim>\<open>IndexError\<close>.\<close>

lemma day20_unbalanced:
  "explore ''^N)$'' = Inl IndexError" "explore ''^N|S$'' = Inl IndexError"
  by code_simp+

end
