(* ===== verification/Day18_Lumber.thy ===== *)
theory Day18_Lumber
  imports Py_Text
begin

text \<open>
  Day 18, \<^verbatim>\<open>src/day_18.py\<close>: a cellular automaton on a grid of acres (open
  \<^verbatim>\<open>.\<close>, trees \<^verbatim>\<open>|\<close>, lumberyard \<^verbatim>\<open>#\<close>). \<^verbatim>\<open>LumberArea\<close> holds the grid as a
  list of rows of characters with the width of the first row and the number of rows;
  \<^verbatim>\<open>tile\<close> answers \<^verbatim>\<open>None\<close> outside those bounds; \<^verbatim>\<open>step\<close> builds the next grid
  from the eight neighbours of each acre (a \<^verbatim>\<open>Counter\<close> of the neighbouring tiles,
  \<^verbatim>\<open>None\<close> included) and raises \<^verbatim>\<open>Exception\<close> on an unknown character;
  \<^verbatim>\<open>total_value\<close> multiplies the numbers of wooded acres and lumberyards. The tests
  iterate \<^verbatim>\<open>step\<close> and search the cycle of values (\<open>cycle_length\<close>, a loop that
  may not end). The lemmas show that a well-formed grid stays well formed, so that
  \<^verbatim>\<open>step\<close> never raises on one.
\<close>

section \<open>The area\<close>

definition OPEN :: char where "OPEN = CHR ''.''"
definition TREES :: char where "TREES = CHR ''|''"
definition LUMBERYARD :: char where "LUMBERYARD = CHR ''#''"

record lumber_area =
  grid :: "char list list"
  width :: int
  height :: int

text \<open>\<^verbatim>\<open>LumberArea.__init__\<close>: \<^verbatim>\<open>len(grid[0])\<close> raises \<^verbatim>\<open>IndexError\<close> on an empty grid.\<close>

definition make_area :: "char list list \<Rightarrow> lumber_area py_result" where
  "make_area g = py_bind (py_get g 0) (\<lambda>row. Inr \<lparr>grid = g, width = int (length row), height = int (length g)\<rparr>)"

definition area_from_lines :: "string list \<Rightarrow> lumber_area py_result" where
  "area_from_lines lines = make_area (map py_strip lines)"

text \<open>
  \<^verbatim>\<open>tile(x, y)\<close>: \<^verbatim>\<open>None\<close> outside \<open>[0, width) \<times> [0, height)\<close>, else
  \<^verbatim>\<open>grid[y][x]\<close> (which raises when a row is shorter than the first).
\<close>

definition tile :: "lumber_area \<Rightarrow> int \<Rightarrow> int \<Rightarrow> char option py_result" where
  "tile a x y =
     (if x < 0 \<or> y < 0 then Inr None
      else if x \<ge> width a \<or> y \<ge> height a then Inr None
      else py_bind (py_get (grid a) y) (\<lambda>row. py_bind (py_get row x) (\<lambda>c. Inr (Some c))))"

text \<open>The eight neighbours in the order of the source: W, E, NW, SW, NE, SE, N, S.\<close>

definition neighbour_offsets :: "(int \<times> int) list" where
  "neighbour_offsets = [(-1, 0), (1, 0), (-1, -1), (-1, 1), (1, -1), (1, 1), (0, -1), (0, 1)]"

definition neighbour_tiles :: "lumber_area \<Rightarrow> int \<Rightarrow> int \<Rightarrow> char option list py_result" where
  "neighbour_tiles a x y = py_map (\<lambda>(dx, dy). tile a (x + dx) (y + dy)) neighbour_offsets"

text \<open>\<^verbatim>\<open>neighbors(x, y)\<close>: the neighbouring tiles that exist.\<close>

definition neighbors :: "lumber_area \<Rightarrow> int \<Rightarrow> int \<Rightarrow> char list py_result" where
  "neighbors a x y = py_bind (neighbour_tiles a x y) (\<lambda>ts. Inr (List.map_filter id ts))"

text \<open>The rule for one acre, from its tile and the \<^verbatim>\<open>Counter\<close> of its neighbours.\<close>

definition next_tile :: "char option \<Rightarrow> char option list \<Rightarrow> char py_result" where
  "next_tile t ns =
     (let survey = (\<lambda>c. count_list ns (Some c))
      in if t = Some OPEN then Inr (if survey TREES \<ge> 3 then TREES else OPEN)
         else if t = Some TREES then Inr (if survey LUMBERYARD \<ge> 3 then LUMBERYARD else TREES)
         else if t = Some LUMBERYARD then
           Inr (if survey LUMBERYARD \<ge> 1 \<and> survey TREES \<ge> 1 then LUMBERYARD else OPEN)
         else Inl (Exception ''Unknown tile type''))"

definition step_cell :: "lumber_area \<Rightarrow> int \<Rightarrow> int \<Rightarrow> char py_result" where
  "step_cell a x y =
     py_bind (tile a x y) (\<lambda>t. py_bind (neighbour_tiles a x y) (\<lambda>ns. next_tile t ns))"

text \<open>\<^verbatim>\<open>step()\<close>: the rows \<open>y\<close> of \<^verbatim>\<open>range(self.height)\<close>, each the cells \<open>x\<close> of \<^verbatim>\<open>range(self.width)\<close>.\<close>

definition area_step :: "lumber_area \<Rightarrow> lumber_area py_result" where
  "area_step a =
     py_bind (py_map (\<lambda>y. py_map (\<lambda>x. step_cell a x y) [0..width a - 1]) [0..height a - 1]) (\<lambda>g.
       Inr (a\<lparr>grid := g\<rparr>))"

definition survey :: "lumber_area \<Rightarrow> char \<Rightarrow> nat" where
  "survey a c = count_list (concat (grid a)) c"

definition total_value :: "lumber_area \<Rightarrow> nat" where
  "total_value a = survey a TREES * survey a LUMBERYARD"

text \<open>\<^verbatim>\<open>for _ in range(n): lumber_area.step()\<close>.\<close>

fun steps :: "nat \<Rightarrow> lumber_area \<Rightarrow> lumber_area py_result" where
  "steps 0 a = Inr a"
| "steps (Suc n) a = py_bind (area_step a) (steps n)"

text \<open>
  \<^verbatim>\<open>test_part_2\<close>: the number of steps taken for a billion minutes, from the stable
  point and the cycle length found by \<^verbatim>\<open>test_find_cycles\<close>.
\<close>

definition part2_steps :: "nat \<Rightarrow> nat \<Rightarrow> nat \<Rightarrow> nat" where
  "part2_steps stable_after cycle_len iterations =
     stable_after + (iterations - stable_after) mod cycle_len"

text \<open>
  \<^verbatim>\<open>cycle_length()\<close> in \<^verbatim>\<open>test_find_cycles\<close>: step until a total value repeats and
  return the number of values seen. It need not end (a step may raise; the loop is a
  \<^theory_text>\<open>partial_function\<close> whose value \<open>None\<close> is divergence).
\<close>

definition cycle_turn :: "lumber_area \<Rightarrow> nat set \<Rightarrow> (nat py_result + lumber_area \<times> nat set)" where
  "cycle_turn a seen =
     (case area_step a of
        Inl e \<Rightarrow> Inl (Inl e)
      | Inr a' \<Rightarrow> if total_value a' \<in> seen then Inl (Inr (card seen)) else Inr (a', insert (total_value a') seen))"

partial_function (option) cycle_loop :: "lumber_area \<Rightarrow> nat set \<Rightarrow> nat py_result option" where
  "cycle_loop a seen = (case cycle_turn a seen of Inl r \<Rightarrow> Some r | Inr (a', seen') \<Rightarrow> cycle_loop a' seen')"

definition cycle_length :: "lumber_area \<Rightarrow> nat py_result option" where
  "cycle_length a = cycle_loop a {total_value a}"

section \<open>Specification\<close>

text \<open>A well-formed area: rectangular, as wide and high as recorded, of known tiles.\<close>

definition wf_area :: "lumber_area \<Rightarrow> bool" where
  "wf_area a \<longleftrightarrow> height a = int (length (grid a)) \<and>
     list_all (\<lambda>row. int (length row) = width a \<and> list_all (\<lambda>c. c \<in> {OPEN, TREES, LUMBERYARD}) row) (grid a)"

definition day18_example :: "string list" where
  "day18_example =
     [''.#.#...|#.'', ''.....#|##|'', ''.|..|...#.'', ''..|#.....#'', ''#.#|||#|#|'',
      ''...#.||...'', ''.|....|...'', ''||...#|.#|'', ''|.||||..|.'', ''...#.|..|.'']"

section \<open>Lemmas\<close>

lemma tile_wf:
  assumes "wf_area a"
  shows "\<exists>t. tile a x y = Inr t \<and> (\<forall>c. t = Some c \<longrightarrow> c \<in> {OPEN, TREES, LUMBERYARD}) \<and>
           (0 \<le> x \<and> x < width a \<and> 0 \<le> y \<and> y < height a \<longrightarrow> t \<noteq> None)"
proof (cases "x < 0 \<or> y < 0 \<or> x \<ge> width a \<or> y \<ge> height a")
  case False
  let ?row = "grid a ! nat y"
  have y: "nat y < length (grid a)" using False assms by (simp add: wf_area_def nat_less_iff)
  then have "?row \<in> set (grid a)" by simp
  with assms have row: "int (length ?row) = width a" "\<forall>c \<in> set ?row. c \<in> {OPEN, TREES, LUMBERYARD}"
    by (auto simp: wf_area_def list_all_iff)
  with False have "nat x < length ?row" by (simp add: nat_less_iff)
  with row y False show ?thesis by (auto simp: tile_def py_get_nonneg)
qed (auto simp: tile_def)

lemma next_tile_known:
  "c \<in> {OPEN, TREES, LUMBERYARD} \<Longrightarrow> \<exists>c'. next_tile (Some c) ns = Inr c' \<and> c' \<in> {OPEN, TREES, LUMBERYARD}"
  by (auto simp: next_tile_def Let_def)

lemma step_cell_wf:
  assumes "wf_area a" "0 \<le> x" "x < width a" "0 \<le> y" "y < height a"
  shows "\<exists>c. step_cell a x y = Inr c \<and> c \<in> {OPEN, TREES, LUMBERYARD}"
proof -
  from tile_wf [OF assms(1), of x y] assms obtain c where t: "tile a x y = Inr (Some c)"
    and c: "c \<in> {OPEN, TREES, LUMBERYARD}" by auto
  have "\<exists>ns. neighbour_tiles a x y = Inr ns \<and> length ns = length neighbour_offsets \<and> (\<forall>n \<in> set ns. True)"
  proof -
    have tt: "\<forall>x y. \<exists>t. tile a x y = Inr t" using tile_wf [OF assms(1)] by blast
    show ?thesis unfolding neighbour_tiles_def
      by (rule py_map_ok) (use tt in \<open>auto simp: split_beta\<close>)
  qed
  then obtain ns where "neighbour_tiles a x y = Inr ns" by blast
  with t next_tile_known [OF c, of ns] show ?thesis by (simp add: step_cell_def)
qed

text \<open>\<^verbatim>\<open>step\<close> never raises on a well-formed area, and keeps it well formed.\<close>

lemma step_wf:
  assumes "wf_area a"
  shows "\<exists>a'. area_step a = Inr a' \<and> wf_area a' \<and> width a' = width a \<and> height a' = height a"
proof -
  have w: "0 \<le> width a" if "0 < height a"
  proof -
    from that assms have "grid a \<noteq> []" by (auto simp: wf_area_def)
    then obtain r rs where "grid a = r # rs" by (cases "grid a") auto
    with assms show ?thesis by (auto simp: wf_area_def)
  qed
  have row: "\<exists>row. py_map (\<lambda>x. step_cell a x y) [0..width a - 1] = Inr row \<and>
               length row = length [0..width a - 1] \<and> (\<forall>c \<in> set row. c \<in> {OPEN, TREES, LUMBERYARD})"
    if "y \<in> set [0..height a - 1]" for y
  proof (rule py_map_ok)
    fix x assume "x \<in> set [0..width a - 1]"
    with that have "0 \<le> x" "x < width a" "0 \<le> y" "y < height a" by auto
    from step_cell_wf [OF assms this] show "\<exists>c. step_cell a x y = Inr c \<and> c \<in> {OPEN, TREES, LUMBERYARD}" .
  qed
  have "\<exists>g. py_map (\<lambda>y. py_map (\<lambda>x. step_cell a x y) [0..width a - 1]) [0..height a - 1] = Inr g \<and>
            length g = length [0..height a - 1] \<and>
            (\<forall>row \<in> set g. length row = length [0..width a - 1] \<and> (\<forall>c \<in> set row. c \<in> {OPEN, TREES, LUMBERYARD}))"
    by (rule py_map_ok) (rule row)
  then obtain g where g: "area_step a = Inr (a\<lparr>grid := g\<rparr>)" "length g = length [0..height a - 1]"
    "\<forall>row \<in> set g. length row = length [0..width a - 1] \<and> (\<forall>c \<in> set row. c \<in> {OPEN, TREES, LUMBERYARD})"
    by (auto simp: area_step_def)
  have "0 \<le> height a" using assms by (simp add: wf_area_def)
  moreover have "0 < height a" if "g \<noteq> []"
  proof -
    from that have "0 < length g" by simp
    with g(2) show ?thesis by simp
  qed
  ultimately have "wf_area (a\<lparr>grid := g\<rparr>)"
    using g(2,3) w by (auto simp: wf_area_def list_all_iff)
  with g(1) show ?thesis by simp
qed

lemma steps_wf: "wf_area a \<Longrightarrow> \<exists>a'. steps n a = Inr a' \<and> wf_area a'"
proof (induction n arbitrary: a)
  case (Suc n)
  from step_wf [OF Suc.prems] obtain a' where "area_step a = Inr a'" "wf_area a'" by blast
  with Suc.IH [of a'] show ?case by simp
qed simp

text \<open>\<^verbatim>\<open>test_sample_area\<close>: ten steps of the example give the value 1147.\<close>

lemma day18_example_test:
  "py_bind (area_from_lines day18_example) (\<lambda>a. py_bind (steps 10 a) (\<lambda>a'. Inr (total_value a'))) = Inr 1147"
  by code_simp

end
