(* ===== verification/Day13_Mine_Carts.thy ===== *)
theory Day13_Mine_Carts
  imports Py_Text "HOL-Library.Product_Lexorder"
begin

text \<open>
  Day 13, \<^verbatim>\<open>src/day_13.py\<close>: carts on a track. \<^verbatim>\<open>Cart\<close> objects are shared: the
  map's list \<^verbatim>\<open>self.carts\<close> and the sorted copy a tick iterates over refer to the same
  objects, compared by identity (\<^verbatim>\<open>is not\<close>, and \<^verbatim>\<open>list.remove\<close>, since the class
  defines no equality). The model keeps an explicit store: the carts are records in a
  list indexed by a cart number, and \<^verbatim>\<open>self.carts\<close> is a list of numbers.
  \<^verbatim>\<open>MineCartMap.step\<close> moves the carts of a sorted snapshot in order; a crash appends
  the point to \<^verbatim>\<open>collisions\<close> and removes both carts from \<^verbatim>\<open>self.carts\<close>
  (\<^verbatim>\<open>ValueError\<close> when one of them is not there), but the snapshot still holds them, so
  removed carts keep moving during the tick. Track characters are read with Python's
  indexing (negative indices from the end, \<^verbatim>\<open>IndexError\<close> beyond).
\<close>

section \<open>Carts\<close>

record cart =
  cchar :: char
  cpoint :: "int \<times> int"
  intersections :: int

definition turn_order :: string where
  "turn_order = ''>^<v''"

text \<open>\<^verbatim>\<open>list.index\<close>: the first position of the value, or \<^verbatim>\<open>ValueError\<close>.\<close>

definition py_list_index :: "'a \<Rightarrow> 'a list \<Rightarrow> int py_result" where
  "py_list_index v xs = (if v \<in> set xs then Inr (int (length (takeWhile (\<lambda>y. y \<noteq> v) xs))) else Inl ValueError)"

text \<open>\<^verbatim>\<open>Cart.turn\<close>: left, straight, right in turn; the list of characters lists left turns.\<close>

definition cart_turn :: "cart \<Rightarrow> cart py_result" where
  "cart_turn c =
     (let cycle = intersections c mod 3
      in py_bind (py_list_index (cchar c) turn_order) (\<lambda>curr.
           (let delta = (if cycle = 0 then 1 else if cycle = 2 then -1 else 0 :: int)
            in Inr (c\<lparr>cchar := turn_order ! nat ((curr + delta) mod 4), intersections := intersections c + 1\<rparr>))))"

text \<open>\<^verbatim>\<open>list.remove\<close>: the first occurrence, or \<^verbatim>\<open>ValueError\<close>.\<close>

definition py_remove :: "'a \<Rightarrow> 'a list \<Rightarrow> 'a list py_result" where
  "py_remove v xs = (if v \<in> set xs then Inr (remove1 v xs) else Inl ValueError)"

section \<open>The map\<close>

record mine =
  lines :: "char list list"
  store :: "cart list"
  carts :: "nat list"
  collisions :: "(int \<times> int) list"

text \<open>
  \<^verbatim>\<open>map_from_filepath\<close> after reading: scan the characters row by row; a cart
  character becomes a new cart (the next number) and the track under it.
\<close>

definition track_under :: "char \<Rightarrow> char" where
  "track_under c = (if c = CHR ''>'' \<or> c = CHR ''<'' then CHR ''-'' else CHR ''|'')"

definition scan_cell :: "mine \<Rightarrow> nat \<times> nat \<Rightarrow> mine" where
  "scan_cell m p =
     (let (y, x) = p; c = lines m ! y ! x
      in if c \<in> {CHR ''v'', CHR ''^'', CHR ''>'', CHR ''<''}
         then m\<lparr>store := store m @ [\<lparr>cchar = c, cpoint = (int x, int y), intersections = 0\<rparr>],
                carts := carts m @ [length (store m)],
                lines := (lines m)[y := (lines m ! y)[x := track_under c]]\<rparr>
         else m)"

definition map_from_lines :: "char list list \<Rightarrow> mine" where
  "map_from_lines ls =
     foldl scan_cell \<lparr>lines = ls, store = [], carts = [], collisions = []\<rparr>
       (concat (map (\<lambda>y. map (\<lambda>x. (y, x)) [0..<length (ls ! y)]) [0..<length ls]))"

definition move_point :: "char \<Rightarrow> int \<times> int \<Rightarrow> int \<times> int" where
  "move_point c p =
     (let (x, y) = p
      in if c = CHR ''>'' then (x + 1, y) else if c = CHR ''<'' then (x - 1, y)
         else if c = CHR ''^'' then (x, y - 1) else if c = CHR ''v'' then (x, y + 1) else (x, y))"

text \<open>
  The inner loop \<^verbatim>\<open>for other in ordered_carts\<close>: every other cart of the snapshot at
  the same point records a collision and removes both carts from \<^verbatim>\<open>self.carts\<close>.
\<close>

fun collide_loop :: "nat \<Rightarrow> nat list \<Rightarrow> mine \<Rightarrow> mine py_result" where
  "collide_loop cid [] m = Inr m"
| "collide_loop cid (other # os) m =
     (if other \<noteq> cid \<and> cpoint (store m ! other) = cpoint (store m ! cid)
      then py_bind (py_remove other (carts m)) (\<lambda>cs1.
             py_bind (py_remove cid cs1) (\<lambda>cs2.
               collide_loop cid os (m\<lparr>collisions := collisions m @ [cpoint (store m ! cid)], carts := cs2\<rparr>)))
      else collide_loop cid os m)"

text \<open>The turn taken on the track character under the cart.\<close>

definition track_turn :: "char \<Rightarrow> cart \<Rightarrow> cart py_result" where
  "track_turn t c =
     (if t = CHR ''/'' then
        Inr (c\<lparr>cchar := (if cchar c = CHR ''<'' then CHR ''v'' else if cchar c = CHR ''^'' then CHR ''>''
                          else if cchar c = CHR ''>'' then CHR ''^'' else if cchar c = CHR ''v'' then CHR ''<''
                          else cchar c)\<rparr>)
      else if t = CHR 0x5C then
        Inr (c\<lparr>cchar := (if cchar c = CHR ''>'' then CHR ''v'' else if cchar c = CHR ''^'' then CHR ''<''
                          else if cchar c = CHR ''<'' then CHR ''^'' else if cchar c = CHR ''v'' then CHR ''>''
                          else cchar c)\<rparr>)
      else if t = CHR ''+'' then cart_turn c
      else Inr c)"

text \<open>One turn of \<^verbatim>\<open>for cart in ordered_carts\<close>: move, collide, turn.\<close>

definition cart_tick :: "nat list \<Rightarrow> mine \<Rightarrow> nat \<Rightarrow> mine py_result" where
  "cart_tick ordered m cid =
     (let c = store m ! cid;
          m1 = m\<lparr>store := (store m)[cid := c\<lparr>cpoint := move_point (cchar c) (cpoint c)\<rparr>]\<rparr>
      in py_bind (collide_loop cid ordered m1) (\<lambda>m2.
           (let p = cpoint (store m2 ! cid)
            in py_bind (py_get (lines m2) (snd p)) (\<lambda>row.
                 py_bind (py_get row (fst p)) (\<lambda>t.
                   py_bind (track_turn t (store m2 ! cid)) (\<lambda>c'.
                     Inr (m2\<lparr>store := (store m2)[cid := c']\<rparr>)))))))"

fun tick_loop :: "nat list \<Rightarrow> nat list \<Rightarrow> mine \<Rightarrow> mine py_result" where
  "tick_loop ordered [] m = Inr m"
| "tick_loop ordered (cid # cs) m = py_bind (cart_tick ordered m cid) (tick_loop ordered cs)"

text \<open>\<^verbatim>\<open>MineCartMap.step\<close>: the snapshot sorted (stably) by row, then column.\<close>

definition step :: "mine \<Rightarrow> mine py_result" where
  "step m =
     (let ordered = sort_key (\<lambda>cid. (snd (cpoint (store m ! cid)), fst (cpoint (store m ! cid)))) (carts m)
      in tick_loop ordered ordered m)"

text \<open>
  The loops of the tests, \<^verbatim>\<open>while not m.collisions: m.step()\<close> and
  \<^verbatim>\<open>while len(m.carts) > 1: m.step()\<close>, which need not end.
\<close>

definition collision_turn :: "mine \<Rightarrow> (mine py_result + mine)" where
  "collision_turn m =
     (if collisions m \<noteq> [] then Inl (Inr m) else case step m of Inl e \<Rightarrow> Inl (Inl e) | Inr m' \<Rightarrow> Inr m')"

partial_function (option) until_collision :: "mine \<Rightarrow> mine py_result option" where
  "until_collision m = (case collision_turn m of Inl r \<Rightarrow> Some r | Inr m' \<Rightarrow> until_collision m')"

definition removal_turn :: "mine \<Rightarrow> (mine py_result + mine)" where
  "removal_turn m =
     (if length (carts m) \<le> 1 then Inl (Inr m) else case step m of Inl e \<Rightarrow> Inl (Inl e) | Inr m' \<Rightarrow> Inr m')"

partial_function (option) until_one_cart :: "mine \<Rightarrow> mine py_result option" where
  "until_one_cart m = (case removal_turn m of Inl r \<Rightarrow> Some r | Inr m' \<Rightarrow> until_one_cart m')"

text \<open>The same loop with a budget of ticks, for evaluating concrete runs.\<close>

fun collision_fuel :: "nat \<Rightarrow> mine \<Rightarrow> mine py_result option" where
  "collision_fuel 0 m = None"
| "collision_fuel (Suc n) m = (case collision_turn m of Inl r \<Rightarrow> Some r | Inr m' \<Rightarrow> collision_fuel n m')"

section \<open>Specification\<close>

text \<open>
  The longer example of the puzzle text (\<open>L\<close> stands for the backslash), whose first
  crash is at \<open>(7, 3)\<close>, and three carts of which two crash into the first.
\<close>

definition unescape :: "string \<Rightarrow> string" where
  "unescape s = map (\<lambda>c. if c = CHR ''L'' then CHR 0x5C else c) s"

definition day13_example :: "char list list" where
  "day13_example = map unescape
     [''/->-L        '', ''|   |  /----L'', ''| /-+--+-L  |'', ''| | |  | v  |'', ''L-+-/  L-+--/'', ''  L------/   '']"

definition three_carts :: "char list list" where
  "three_carts = ['' v '', ''>+<'']"

section \<open>Lemmas\<close>

lemma collision_fuel_sound: "collision_fuel n m = Some r \<Longrightarrow> until_collision m = Some r"
proof (induction n arbitrary: m)
  case (Suc n)
  then show ?case
    by (subst until_collision.simps) (auto split: sum.splits)
qed simp

lemma py_remove_subset: "py_remove v xs = Inr ys \<Longrightarrow> set ys \<subseteq> set xs"
  by (cases "v \<in> set xs") (use set_remove1_subset [of v xs] in \<open>auto simp: py_remove_def\<close>)

text \<open>The inner loop changes neither the track nor the store; it only records and removes.\<close>

lemma collide_loop_frame:
  "collide_loop cid os m = Inr m' \<Longrightarrow>
   lines m' = lines m \<and> store m' = store m \<and> set (carts m') \<subseteq> set (carts m) \<and>
   (\<exists>ps. collisions m' = collisions m @ ps)"
proof (induction cid os m rule: collide_loop.induct)
  case (2 cid other os m)
  show ?case
  proof (cases "other \<noteq> cid \<and> cpoint (store m ! other) = cpoint (store m ! cid)")
    case True
    with "2.prems" obtain cs1 cs2 where r1: "py_remove other (carts m) = Inr cs1" and r2: "py_remove cid cs1 = Inr cs2"
      and r: "collide_loop cid os (m\<lparr>collisions := collisions m @ [cpoint (store m ! cid)], carts := cs2\<rparr>) = Inr m'"
      by (auto simp: py_simps)
    have "set cs2 \<subseteq> set (carts m)"
      using py_remove_subset [OF r1] py_remove_subset [OF r2] by blast
    with "2.IH"(1) [OF True r] show ?thesis by fastforce
  next
    case False
    with "2.IH"(2) "2.prems" show ?thesis by simp
  qed
qed simp

text \<open>\<^verbatim>\<open>test_collision\<close> on the longer example: the first crash is at \<open>(7, 3)\<close>.\<close>

lemma day13_example_test:
  "map_option (map_sum id collisions) (until_collision (map_from_lines day13_example)) = Some (Inr [(7, 3)])"
proof -
  have "map_option (map_sum id collisions) (collision_fuel 20 (map_from_lines day13_example)) = Some (Inr [(7, 3)])"
    by code_simp
  then show ?thesis by (auto dest: collision_fuel_sound)
qed

text \<open>
  A cart removed in a crash stays in the tick's snapshot: when a third cart then
  reaches the crash point, \<^verbatim>\<open>self.carts.remove\<close> fails and \<^verbatim>\<open>step\<close> raises
  \<^verbatim>\<open>ValueError\<close>.
\<close>

lemma three_carts_crash: "step (map_from_lines three_carts) = Inl ValueError"
  by code_simp

end
