(* ===== verification/Day11_Fuel_Cells.thy ===== *)
theory Day11_Fuel_Cells
  imports Py_Text
begin

text \<open>
  Day 11, \<^verbatim>\<open>src/day_11.py\<close>: a grid of fuel cells and the square of greatest total
  power. \<^verbatim>\<open>FuelCells\<close> fills a \<^verbatim>\<open>numpy\<close> array \<^verbatim>\<open>cells[x][y]\<close> for
  \<open>0 \<le> x, y < size\<close> with the power level of the coordinates \<open>(x, y)\<close> and builds the
  summed-area table \<^verbatim>\<open>cells.cumsum(axis=0).cumsum(axis=1)\<close>; a square is totalled
  from four entries of the table. Array entries are floats holding small integers, so
  they are \<open>int\<close> here; Python's \<^verbatim>\<open>//\<close> and \<^verbatim>\<open>%\<close> round towards minus infinity,
  as \<open>div\<close> and \<open>mod\<close> on \<open>int\<close> do. \<^verbatim>\<open>cumsum\<close> is modelled by its meaning, the
  prefix sums; an index of the table is read with Python's indexing.
\<close>

section \<open>The grid\<close>

text \<open>\<^verbatim>\<open>FuelCells.serial_to_power_level\<close>.\<close>

definition serial_to_power_level :: "int \<Rightarrow> int \<Rightarrow> int \<Rightarrow> int" where
  "serial_to_power_level serial x y =
     (let rack_id = x + 10;
          power_level = (rack_id * y + serial) * rack_id
      in power_level div 100 mod 10 - 5)"

record fuel_cells =
  serial_number :: int
  grid_size :: nat
  cells :: "int list list"
  summed :: "int list list"

text \<open>\<^verbatim>\<open>set_cell_power_levels\<close>: \<^verbatim>\<open>cells[x][y]\<close> for \<open>x, y\<close> in \<^verbatim>\<open>range(size)\<close>.\<close>

definition cell_power_levels :: "int \<Rightarrow> nat \<Rightarrow> int list list" where
  "cell_power_levels serial sz =
     map (\<lambda>x. map (\<lambda>y. serial_to_power_level serial (int x) (int y)) [0..<sz]) [0..<sz]"

text \<open>\<^verbatim>\<open>cumsum(axis=0)\<close> (down the first index) and \<^verbatim>\<open>cumsum(axis=1)\<close> (along each row).\<close>

definition cumsum_axis0 :: "int list list \<Rightarrow> int list list" where
  "cumsum_axis0 m =
     map (\<lambda>k. map (\<lambda>j. sum_list (map (\<lambda>r. r ! j) (take (Suc k) m))) [0..<length (m ! k)]) [0..<length m]"

definition cumsum_axis1 :: "int list list \<Rightarrow> int list list" where
  "cumsum_axis1 m = map (\<lambda>r. map (\<lambda>k. sum_list (take (Suc k) r)) [0..<length r]) m"

definition make_fuel_cells :: "int \<Rightarrow> nat \<Rightarrow> fuel_cells" where
  "make_fuel_cells serial sz =
     (let cs = cell_power_levels serial sz
      in \<lparr>serial_number = serial, grid_size = sz, cells = cs, summed = cumsum_axis1 (cumsum_axis0 cs)\<rparr>)"

text \<open>\<^verbatim>\<open>total_in_square(x, y, size)\<close>: \<open>d - b - c + a\<close> from four entries of the table.\<close>

definition table_get :: "int list list \<Rightarrow> int \<Rightarrow> int \<Rightarrow> int py_result" where
  "table_get t x y = py_bind (py_get t x) (\<lambda>row. py_get row y)"

definition total_in_square :: "fuel_cells \<Rightarrow> int \<Rightarrow> int \<Rightarrow> int \<Rightarrow> int py_result" where
  "total_in_square fc x y sz =
     py_bind (table_get (summed fc) x y) (\<lambda>a.
     py_bind (table_get (summed fc) (x + sz) y) (\<lambda>b.
     py_bind (table_get (summed fc) x (y + sz)) (\<lambda>c.
     py_bind (table_get (summed fc) (x + sz) (y + sz)) (\<lambda>d. Inr (d - b - c + a)))))"

text \<open>
  \<^verbatim>\<open>find_highest_total_power(size)\<close>: scan \<open>x, y\<close> in \<^verbatim>\<open>range(self.size - size)\<close>
  and keep the first strictly greater total, reporting \<^verbatim>\<open>Point(x + 1, y + 1)\<close>.
\<close>

fun best_loop :: "fuel_cells \<Rightarrow> int \<Rightarrow> (int \<times> int) list \<Rightarrow> (int \<times> int) option \<times> int \<Rightarrow>
                  ((int \<times> int) option \<times> int) py_result" where
  "best_loop fc sz [] acc = Inr acc"
| "best_loop fc sz ((x, y) # ps) (point, highest) =
     py_bind (total_in_square fc x y sz) (\<lambda>total.
       best_loop fc sz ps (if total > highest then (Some (x + 1, y + 1), total) else (point, highest)))"

definition find_highest_total_power :: "fuel_cells \<Rightarrow> int \<Rightarrow> ((int \<times> int) option \<times> int) py_result" where
  "find_highest_total_power fc sz =
     (let r = [0..int (grid_size fc) - sz - 1]
      in best_loop fc sz (concat (map (\<lambda>x. map (\<lambda>y. (x, y)) r) r)) (None, 0))"

text \<open>\<^verbatim>\<open>find_highest_any_size\<close>: the sizes \<open>1 .. self.size - 2\<close>.\<close>

fun any_size_loop :: "fuel_cells \<Rightarrow> int list \<Rightarrow> (int \<times> int) option \<times> int \<times> int \<Rightarrow>
                      ((int \<times> int) option \<times> int \<times> int) py_result" where
  "any_size_loop fc [] acc = Inr acc"
| "any_size_loop fc (i # is) (point, sz, highest) =
     py_bind (find_highest_total_power fc i) (\<lambda>(location, power).
       any_size_loop fc is (if power > highest then (location, i, power) else (point, sz, highest)))"

definition find_highest_any_size :: "fuel_cells \<Rightarrow> ((int \<times> int) option \<times> int \<times> int) py_result" where
  "find_highest_any_size fc = any_size_loop fc [1..int (grid_size fc) - 2] (None, 1, 0)"

section \<open>Specification\<close>

text \<open>The total power of the square of side \<open>s\<close> whose top-left cell is \<open>(x, y)\<close>.\<close>

definition square_power :: "int \<Rightarrow> nat \<Rightarrow> nat \<Rightarrow> nat \<Rightarrow> int" where
  "square_power serial x y s =
     (\<Sum>i \<in> {x..<x + s}. \<Sum>j \<in> {y..<y + s}. serial_to_power_level serial (int i) (int j))"

section \<open>Lemmas\<close>


lemma take_Suc_nth: "k < length m \<Longrightarrow> take (Suc k) m = map ((!) m) [0..<Suc k]"
  by (metis Suc_leI add_0 map_nth take_map take_upt)

lemma sum_list_upt_atMost: "sum_list (map f [0..<Suc k]) = (\<Sum>a\<le>k. f a)"
  by (simp add: interv_sum_list_conv_sum_set_nat atLeast0LessThan lessThan_Suc_atMost del: upt_Suc)

lemma cumsum_axis0_entry:
  assumes "\<And>r. r \<in> set m \<Longrightarrow> length r = n" "k < length m" "j < n"
  shows "cumsum_axis0 m ! k ! j = (\<Sum>a\<le>k. m ! a ! j)"
  using assms by (simp add: cumsum_axis0_def take_Suc_nth comp_def sum_list_upt_atMost del: upt_Suc)

lemma cumsum_axis1_entry:
  "i < length m \<Longrightarrow> j < length (m ! i) \<Longrightarrow> cumsum_axis1 m ! i ! j = (\<Sum>b\<le>j. m ! i ! b)"
  by (simp add: cumsum_axis1_def take_Suc_nth sum_list_upt_atMost del: upt_Suc)

lemma summed_make:
  "summed (make_fuel_cells serial n) = cumsum_axis1 (cumsum_axis0 (cell_power_levels serial n))"
  by (simp add: make_fuel_cells_def Let_def)

lemma summed_entry:
  assumes "i < n" "j < n"
  shows "summed (make_fuel_cells serial n) ! i ! j = (\<Sum>a\<le>i. \<Sum>b\<le>j. serial_to_power_level serial (int a) (int b))"
proof -
  let ?cs = "cell_power_levels serial n"
  have cs: "\<And>r. r \<in> set ?cs \<Longrightarrow> length r = n" "length ?cs = n"
    "\<And>a b. a < n \<Longrightarrow> b < n \<Longrightarrow> ?cs ! a ! b = serial_to_power_level serial (int a) (int b)"
    by (auto simp: cell_power_levels_def)
  have c0: "length (cumsum_axis0 ?cs) = n" "\<And>k. k < n \<Longrightarrow> length (cumsum_axis0 ?cs ! k) = n"
    using cs by (auto simp: cumsum_axis0_def)
  have "summed (make_fuel_cells serial n) ! i ! j = (\<Sum>b\<le>j. cumsum_axis0 ?cs ! i ! b)"
    using assms c0 by (simp add: summed_make cumsum_axis1_entry)
  also have "\<dots> = (\<Sum>b\<le>j. \<Sum>a\<le>i. serial_to_power_level serial (int a) (int b))"
    using assms cs by (intro sum.cong refl) (simp add: cumsum_axis0_entry)
  finally show ?thesis by (simp add: sum.swap [of _ "{..j}"])
qed

lemma summed_lengths:
  "length (summed (make_fuel_cells serial n)) = n"
  "i < n \<Longrightarrow> length (summed (make_fuel_cells serial n) ! i) = n"
  by (simp_all add: summed_make cumsum_axis1_def cumsum_axis0_def cell_power_levels_def)

lemma sum_atMost_split:
  "(\<Sum>a\<le>x + s. g a) = (\<Sum>a\<le>x. g a) + (\<Sum>a = Suc x..<Suc x + s. g a)" for g :: "nat \<Rightarrow> int"
  by (induction s) simp_all

lemma summed_area:
  fixes f :: "nat \<Rightarrow> nat \<Rightarrow> int"
  defines "S \<equiv> \<lambda>i j. \<Sum>a\<le>i. \<Sum>b\<le>j. f a b"
  shows "S (x + s) (y + s) - S (x + s) y - S x (y + s) + S x y =
         (\<Sum>a = Suc x..<Suc x + s. \<Sum>b = Suc y..<Suc y + s. f a b)"
proof -
  let ?A = "{Suc x..<Suc x + s}" and ?B = "{Suc y..<Suc y + s}"
  have outer: "S (x + s) j = S x j + (\<Sum>a\<in>?A. \<Sum>b\<le>j. f a b)" for j
    unfolding S_def by (rule sum_atMost_split)
  have inner: "(\<Sum>a\<in>I. \<Sum>b\<le>y + s. f a b) = (\<Sum>a\<in>I. \<Sum>b\<le>y. f a b) + (\<Sum>a\<in>I. \<Sum>b\<in>?B. f a b)" for I
    by (simp only: sum_atMost_split sum.distrib)
  show ?thesis
    unfolding outer using inner [of "{..x}"] inner [of ?A] by (simp add: S_def)
qed

lemma total_in_square_eq:
  assumes "x + s < n" "y + s < n"
  shows "total_in_square (make_fuel_cells serial n) (int x) (int y) (int s) = Inr (square_power serial (Suc x) (Suc y) s)"
proof -
  let ?t = "summed (make_fuel_cells serial n)"
  let ?S = "\<lambda>i j. \<Sum>a\<le>i. \<Sum>b\<le>j. serial_to_power_level serial (int a) (int b)"
  have get: "table_get ?t (int i) (int j) = Inr (?S i j)" if "i < n" "j < n" for i j
    using that by (simp add: table_get_def py_get_def summed_lengths summed_entry py_simps)
  have "?S (x + s) (y + s) - ?S (x + s) y - ?S x (y + s) + ?S x y = square_power serial (Suc x) (Suc y) s"
    unfolding square_power_def by (rule summed_area)
  then show ?thesis
    using assms get [of x y] get [of "x + s" y] get [of x "y + s"] get [of "x + s" "y + s"]
    by (simp add: total_in_square_def py_simps)
qed

lemma best_loop_spec:
  assumes "\<And>x y. (x, y) \<in> set ps \<Longrightarrow> total_in_square fc x y s = Inr (f (x, y))"
  shows "\<exists>pt' h'. best_loop fc s ps (pt, h) = Inr (pt', h') \<and> h \<le> h' \<and> (\<forall>p\<in>set ps. f p \<le> h') \<and>
           ((pt' = pt \<and> h' = h) \<or> (\<exists>x y. (x, y) \<in> set ps \<and> pt' = Some (x + 1, y + 1) \<and> f (x, y) = h'))"
  using assms
proof (induction ps arbitrary: pt h)
  case Nil
  then show ?case by simp
next
  case (Cons p ps)
  obtain x y where p: "p = (x, y)" by fastforce
  define acc where "acc = (if f (x, y) > h then (Some (x + 1, y + 1), f (x, y)) else (pt, h))"
  have t: "total_in_square fc x y s = Inr (f (x, y))" using Cons.prems p by simp
  have "\<And>x y. (x, y) \<in> set ps \<Longrightarrow> total_in_square fc x y s = Inr (f (x, y))"
    using Cons.prems by simp
  from Cons.IH [of "fst acc" "snd acc", OF this]
  obtain pt' h' where r: "best_loop fc s ps acc = Inr (pt', h')" "snd acc \<le> h'" "\<forall>q\<in>set ps. f q \<le> h'"
    and c: "(pt' = fst acc \<and> h' = snd acc) \<or> (\<exists>x y. (x, y) \<in> set ps \<and> pt' = Some (x + 1, y + 1) \<and> f (x, y) = h')"
    by auto
  have "best_loop fc s (p # ps) (pt, h) = Inr (pt', h')" using r(1) t p by (simp add: py_simps acc_def)
  moreover have "h \<le> h'" "f p \<le> h'" using r(2) p by (simp_all add: acc_def split: if_splits)
  moreover have "(pt' = pt \<and> h' = h) \<or> (\<exists>x' y'. (x', y') \<in> set (p # ps) \<and> pt' = Some (x' + 1, y' + 1) \<and> f (x', y') = h')"
  proof (cases "f (x, y) > h")
    case True
    then show ?thesis using c p by (auto simp: acc_def)
  next
    case False
    then show ?thesis using c p by (auto simp: acc_def)
  qed
  ultimately show ?case using r(3) by auto
qed

lemma square_range:
  "(x, y) \<in> set (concat (map (\<lambda>x. map (\<lambda>y. (x, y)) [0..int n - int s - 1]) [0..int n - int s - 1])) \<longleftrightarrow>
   (\<exists>x' y'. x = int x' \<and> y = int y' \<and> x' + s < n \<and> y' + s < n)"
proof -
  have r: "z \<in> {0..int n - int s - 1} \<longleftrightarrow> (\<exists>z'. z = int z' \<and> z' + s < n)" for z
  proof
    assume "z \<in> {0..int n - int s - 1}"
    then show "\<exists>z'. z = int z' \<and> z' + s < n" by (intro exI [of _ "nat z"]) auto
  qed auto
  have "(x, y) \<in> set (concat (map (\<lambda>x. map (\<lambda>y. (x, y)) [0..int n - int s - 1]) [0..int n - int s - 1])) \<longleftrightarrow>
        x \<in> {0..int n - int s - 1} \<and> y \<in> {0..int n - int s - 1}"
    by (simp add: product_concat_map [symmetric])
  then show ?thesis using r [of x] r [of y] by blast
qed

text \<open>
  C33. \<^verbatim>\<open>find_highest_total_power(size)\<close> on a grid of side \<open>n\<close> returns, without
  error, a total no less than 0 and no less than the power of every square of side
  \<open>size\<close> whose top-left cell \<open>(x + 1, y + 1)\<close> has \<open>x + size < n\<close> and
  \<open>y + size < n\<close>; it reports no point with total 0, or the top-left cell of such a
  square whose power is that total.
\<close>

theorem find_highest_total_power_spec:
  "\<exists>pt h. find_highest_total_power (make_fuel_cells serial n) (int s) = Inr (pt, h) \<and> 0 \<le> h \<and>
     (\<forall>x y. x + s < n \<longrightarrow> y + s < n \<longrightarrow> square_power serial (Suc x) (Suc y) s \<le> h) \<and>
     ((pt = None \<and> h = 0) \<or>
      (\<exists>x y. x + s < n \<and> y + s < n \<and> pt = Some (int (Suc x), int (Suc y)) \<and> square_power serial (Suc x) (Suc y) s = h))"
proof -
  let ?fc = "make_fuel_cells serial n"
  let ?ps = "concat (map (\<lambda>x. map (\<lambda>y. (x, y)) [0..int n - int s - 1]) [0..int n - int s - 1])"
  let ?f = "\<lambda>(x, y). square_power serial (Suc (nat x)) (Suc (nat y)) s"
  have "total_in_square ?fc x y (int s) = Inr (?f (x, y))" if "(x, y) \<in> set ?ps" for x y
    using that total_in_square_eq [of _ s n _ serial] unfolding square_range by auto
  from best_loop_spec [of ?ps ?fc "int s" ?f None 0, OF this]
  obtain pt h where r: "best_loop ?fc (int s) ?ps (None, 0) = Inr (pt, h)" "0 \<le> h" "\<forall>p\<in>set ?ps. ?f p \<le> h"
    and c: "(pt = None \<and> h = 0) \<or> (\<exists>x y. (x, y) \<in> set ?ps \<and> pt = Some (x + 1, y + 1) \<and> ?f (x, y) = h)"
    by blast
  have "find_highest_total_power ?fc (int s) = Inr (pt, h)"
    using r(1) by (simp add: find_highest_total_power_def make_fuel_cells_def Let_def)
  moreover have "square_power serial (Suc x) (Suc y) s \<le> h" if "x + s < n" "y + s < n" for x y
  proof -
    have "(int x, int y) \<in> set ?ps" using square_range [of "int x" "int y" n s] that by blast
    with r(3) show ?thesis by fastforce
  qed
  moreover have "(pt = None \<and> h = 0) \<or>
      (\<exists>x y. x + s < n \<and> y + s < n \<and> pt = Some (int (Suc x), int (Suc y)) \<and> square_power serial (Suc x) (Suc y) s = h)"
    using c square_range by fastforce
  ultimately show ?thesis using r(2) by blast
qed

theorem find_highest_total_power_spec_witness:
  "\<exists>pt h. find_highest_total_power (make_fuel_cells 18 6) (int 3) = Inr (pt, h) \<and>
          square_power 18 (Suc 0) (Suc 0) 3 \<le> h"
  using find_highest_total_power_spec [of 18 6 3] by force

lemma find_highest_total_power_ok:
  "\<exists>r. find_highest_total_power (make_fuel_cells serial n) (int s) = Inr r"
proof -
  let ?ps = "concat (map (\<lambda>x. map (\<lambda>y. (x, y)) [0..int n - int s - 1]) [0..int n - int s - 1])"
  let ?f = "\<lambda>(x, y). square_power serial (Suc (nat x)) (Suc (nat y)) s"
  have "total_in_square (make_fuel_cells serial n) x y (int s) = Inr (?f (x, y))"
    if "(x, y) \<in> set ?ps" for x y
    using that total_in_square_eq [of _ s n _ serial] unfolding square_range by auto
  from best_loop_spec [of ?ps _ "int s" ?f None 0, OF this] show ?thesis
    by (auto simp: find_highest_total_power_def make_fuel_cells_def Let_def)
qed

text \<open>\<^verbatim>\<open>find_highest_any_size\<close> raises no error: every size it tries is positive.\<close>

lemma find_highest_any_size_ok:
  "\<exists>r. find_highest_any_size (make_fuel_cells serial n) = Inr r"
proof -
  have "\<forall>i\<in>set is. 0 \<le> i \<Longrightarrow> \<exists>r. any_size_loop (make_fuel_cells serial n) is acc = Inr r" for "is" acc
  proof (induction "is" arbitrary: acc)
    case Nil
    show ?case by (cases acc) simp
  next
    case (Cons i "is")
    obtain p h where "find_highest_total_power (make_fuel_cells serial n) (int (nat i)) = Inr (p, h)"
      using find_highest_total_power_ok by (metis surj_pair)
    moreover obtain pt sz h' where "acc = (pt, sz, h')" by (metis prod.collapse)
    ultimately show ?case using Cons by (auto simp: py_simps)
  qed
  then show ?thesis by (simp add: find_highest_any_size_def)
qed

lemma day11_power_levels:
  "serial_to_power_level 8 3 5 = 4" "serial_to_power_level 57 122 79 = -5"
  "serial_to_power_level 39 217 196 = 0" "serial_to_power_level 71 101 153 = 4"
  by (simp_all add: serial_to_power_level_def)

lemma day11_small_grid:
  "find_highest_total_power (make_fuel_cells 18 6) 3 = Inr (Some (1, 3), 12)"
  "find_highest_any_size (make_fuel_cells 18 6) = Inr (Some (1, 3), 3, 12)"
  by code_simp+


end
