(* ===== verification/Day23_Nanobots.thy ===== *)
theory Day23_Nanobots
  imports Elf_Instruction "HOL-Library.Multiset" "HOL-Library.Product_Lexorder" "HOL-Library.AList"
begin

text \<open>
  Day 23, \<^verbatim>\<open>src/day_23.py\<close>: nanobots with a position and a signal radius.
  \<^verbatim>\<open>BotSwarm\<close> keeps a dictionary from positions to bots and two parallel lists of
  points and radii; \<^verbatim>\<open>bots_near_strongest_bot\<close> counts the bots in range of the
  strongest one, and \<^verbatim>\<open>most_central_location\<close> runs a best-first search over a
  \<^verbatim>\<open>heapq\<close> of \<^verbatim>\<open>SearchArea\<close>s ordered by \<^verbatim>\<open>SearchArea.__lt__\<close>, each
  popped area of positive size pushing one area of half the size for every point of a
  sample grid around its centre (\<^verbatim>\<open>octants\<close>).

  \<^verbatim>\<open>util.number_grabber\<close> is not in the repository; its namesake of day 16
  (\<open>Elf_Instruction.number_grabber\<close>) is used. \<^verbatim>\<open>scipy\<close>'s
  \<^verbatim>\<open>cdist(..., 'cityblock')\<close> is the Manhattan distance (exact on the integer
  coordinates). The order in which the search visits a \<^verbatim>\<open>set\<close> of points and the
  order in which \<^verbatim>\<open>heappop\<close> breaks ties between areas equal under
  \<^verbatim>\<open>__lt__\<close> are left open: the search is the relation \<open>central_run\<close> over the
  multiset of areas in the heap, popping any least area, and \<open>central_det\<close> is one
  executable instance of it. The \<^verbatim>\<open>print\<close> calls of the loop are not modelled.
\<close>

section \<open>Points and bots\<close>

type_synonym point3 = "int \<times> int \<times> int"

text \<open>\<^verbatim>\<open>Point.dist\<close>, also the \<^verbatim>\<open>cityblock\<close> metric of \<^verbatim>\<open>cdist\<close>.\<close>

fun dist3 :: "point3 \<Rightarrow> point3 \<Rightarrow> int" where
  "dist3 (x1, y1, z1) (x2, y2, z2) = \<bar>x1 - x2\<bar> + \<bar>y1 - y2\<bar> + \<bar>z1 - z2\<bar>"

record nanobot =
  pos :: point3
  radius :: int

text \<open>\<^verbatim>\<open>Nanobot.nanobot_from_string\<close>: fewer than four numbers raise \<^verbatim>\<open>IndexError\<close>.\<close>

definition nanobot_from_string :: "string \<Rightarrow> nanobot py_result" where
  "nanobot_from_string s =
     (let numbers = number_grabber s
      in py_bind (py_get numbers 0) (\<lambda>x. py_bind (py_get numbers 1) (\<lambda>y.
         py_bind (py_get numbers 2) (\<lambda>z. py_bind (py_get numbers 3) (\<lambda>r.
         Inr \<lparr>pos = (x, y, z), radius = r\<rparr>)))))"

record bot_swarm =
  bots :: "(point3 \<times> nanobot) list"
  points :: "point3 list"
  radii :: "int list"

definition empty_swarm :: bot_swarm where
  "empty_swarm = \<lparr>bots = [], points = [], radii = []\<rparr>"

text \<open>
  The loop of \<^verbatim>\<open>BotSwarm.swarm_from_file\<close> on the stripped lines: a second bot at a
  position replaces the first in the dictionary (keeping its place), while both are
  appended to the lists.
\<close>

fun swarm_loop :: "bot_swarm \<Rightarrow> string list \<Rightarrow> bot_swarm py_result" where
  "swarm_loop sw [] = Inr sw"
| "swarm_loop sw (line # ls) =
     py_bind (nanobot_from_string line) (\<lambda>bot.
       swarm_loop (sw\<lparr>bots := AList.update (pos bot) bot (bots sw),
                      points := points sw @ [pos bot], radii := radii sw @ [radius bot]\<rparr>) ls)"

definition swarm_from_lines :: "string list \<Rightarrow> bot_swarm py_result" where
  "swarm_from_lines lines = swarm_loop empty_swarm (map py_strip lines)"

section \<open>Counting bots in range\<close>

definition distances_from_point :: "bot_swarm \<Rightarrow> point3 \<Rightarrow> int list" where
  "distances_from_point sw p = map (dist3 p) (points sw)"

text \<open>The loop of \<^verbatim>\<open>bots_in_range\<close> over \<^verbatim>\<open>enumerate(distances)\<close>.\<close>

fun count_loop :: "int list \<Rightarrow> int \<Rightarrow> nat \<Rightarrow> int list \<Rightarrow> nat \<Rightarrow> nat py_result" where
  "count_loop rs sz i [] cnt = Inr cnt"
| "count_loop rs sz i (d # ds) cnt =
     py_bind (py_get rs (int i)) (\<lambda>r.
       count_loop rs sz (Suc i) ds (if r + sz \<ge> d then Suc cnt else cnt))"

definition bots_in_range :: "bot_swarm \<Rightarrow> point3 \<Rightarrow> int \<Rightarrow> nat py_result" where
  "bots_in_range sw p sz = count_loop (radii sw) sz 0 (distances_from_point sw p) 0"

text \<open>
  The loop of \<^verbatim>\<open>bots_near_strongest_bot\<close> over the dictionary's values: the first
  bot of greatest radius. With no bots, \<^verbatim>\<open>None.pos\<close> raises \<^verbatim>\<open>AttributeError\<close>.
\<close>

fun strongest_loop :: "nanobot option \<Rightarrow> nanobot list \<Rightarrow> nanobot option" where
  "strongest_loop s [] = s"
| "strongest_loop s (b # bs) =
     strongest_loop (case s of None \<Rightarrow> Some b | Some t \<Rightarrow> if radius b > radius t then Some b else s) bs"

definition bots_near_strongest_bot :: "bot_swarm \<Rightarrow> nat py_result" where
  "bots_near_strongest_bot sw =
     (case strongest_loop None (map snd (bots sw)) of
        None \<Rightarrow> Inl AttributeError
      | Some t \<Rightarrow> Inr (length (filter (\<lambda>d. d \<le> radius t) (distances_from_point sw (pos t)))))"

section \<open>The search\<close>

record search_area =
  center :: point3
  area_bots :: nat
  search_size :: int

text \<open>\<^verbatim>\<open>SearchArea.dist_to_origin\<close>: \<^verbatim>\<open>abs(sum(self.center))\<close>.\<close>

fun dist_to_origin :: "search_area \<Rightarrow> int" where
  "dist_to_origin a = (case center a of (x, y, z) \<Rightarrow> \<bar>x + y + z\<bar>)"

text \<open>\<^verbatim>\<open>SearchArea.__lt__\<close>.\<close>

definition area_lt :: "search_area \<Rightarrow> search_area \<Rightarrow> bool" where
  "area_lt a b =
     (if area_bots a > area_bots b then True
      else if area_bots a = area_bots b then (search_size a, dist_to_origin a) < (search_size b, dist_to_origin b)
      else False)"

text \<open>
  \<^verbatim>\<open>range(a, b, step)\<close> for the positive steps \<^verbatim>\<open>octants\<close> uses
  (\<^verbatim>\<open>max(1, ...)\<close>).
\<close>

function py_range_step :: "int \<Rightarrow> int \<Rightarrow> int \<Rightarrow> int list" where
  "py_range_step a b step = (if 0 < step \<and> a < b then a # py_range_step (a + step) b step else [])"
  by pat_completeness auto
termination by (relation "measure (\<lambda>(a, b, step). nat (b - a))") auto

text \<open>\<^verbatim>\<open>BotSwarm.octants\<close>, as the list of its points before \<^verbatim>\<open>set(points)\<close>.\<close>

definition octants :: "int \<Rightarrow> point3 \<Rightarrow> int \<Rightarrow> point3 list" where
  "octants sz c samples =
     (let half = max 1 (sz div 2);
          step = max 1 (sz div samples);
          (cx, cy, cz) = c
      in c # [(x, y, z). x \<leftarrow> py_range_step (cx - half) (cx + half + 1) step,
                         y \<leftarrow> py_range_step (cy - half) (cy + half + 1) step,
                         z \<leftarrow> py_range_step (cz - half) (cz + half + 1) step])"

text \<open>
  The areas pushed after popping \<open>a\<close>: one per point of \<^verbatim>\<open>set(octants(...))\<close>, with
  half the size. The set is enumerated without repetition in the order of
  \<open>remdups\<close>; only a \<^verbatim>\<open>bots_in_range\<close> error depends on that order.
\<close>

definition children :: "bot_swarm \<Rightarrow> search_area \<Rightarrow> search_area list py_result" where
  "children sw a =
     py_map (\<lambda>p. py_bind (bots_in_range sw p (search_size a div 2)) (\<lambda>n.
               Inr \<lparr>center = p, area_bots = n, search_size = search_size a div 2\<rparr>))
            (remdups (octants (search_size a) (center a) 3))"

text \<open>The set-up of \<^verbatim>\<open>most_central_location\<close> before the loop.\<close>

definition initial_area :: "bot_swarm \<Rightarrow> search_area py_result" where
  "initial_area sw =
     (let xs = map fst (points sw); ys = map (fst \<circ> snd) (points sw); zs = map (snd \<circ> snd) (points sw)
      in if points sw = [] then Inl ZeroDivisionError
         else
           (let mean_point = (sum_list xs div int (length xs), sum_list ys div int (length ys),
                              sum_list zs div int (length zs));
                sz = max (max \<bar>Max (set xs) - Min (set xs)\<bar> \<bar>Max (set ys) - Min (set ys)\<bar>)
                           \<bar>Max (set zs) - Min (set zs)\<bar> div 2
            in py_bind (bots_in_range sw mean_point sz) (\<lambda>n.
                 Inr \<lparr>center = mean_point, area_bots = n, search_size = sz\<rparr>)))"

text \<open>An area \<^verbatim>\<open>heappop\<close> may return: no area of the heap is less than it.\<close>

definition heap_min :: "search_area \<Rightarrow> search_area multiset \<Rightarrow> bool" where
  "heap_min a H \<longleftrightarrow> a \<in># H \<and> filter_mset (\<lambda>b. area_lt b a) H = {#}"

text \<open>
  The \<^verbatim>\<open>while heap\<close> loop: the relation between a heap and the value the loop
  returns (\<open>None\<close> once the heap is empty), over every choice of least area.
\<close>

inductive central_run :: "bot_swarm \<Rightarrow> search_area multiset \<Rightarrow> search_area option py_result \<Rightarrow> bool" where
  run_empty: "central_run sw {#} (Inr None)"
| run_found: "heap_min a H \<Longrightarrow> search_size a = 0 \<Longrightarrow> central_run sw H (Inr (Some a))"
| run_error: "heap_min a H \<Longrightarrow> search_size a \<noteq> 0 \<Longrightarrow> children sw a = Inl e \<Longrightarrow> central_run sw H (Inl e)"
| run_expand: "heap_min a H \<Longrightarrow> search_size a \<noteq> 0 \<Longrightarrow> children sw a = Inr cs \<Longrightarrow>
                central_run sw (H - {#a#} + mset cs) r \<Longrightarrow> central_run sw H r"

text \<open>One turn of the loop that does not return.\<close>

definition central_step :: "bot_swarm \<Rightarrow> search_area multiset \<Rightarrow> search_area multiset \<Rightarrow> bool" where
  "central_step sw H H' \<longleftrightarrow>
     (\<exists>a cs. heap_min a H \<and> search_size a \<noteq> 0 \<and> children sw a = Inr cs \<and> H' = H - {#a#} + mset cs)"

definition most_central_location :: "bot_swarm \<Rightarrow> search_area option py_result \<Rightarrow> bool" where
  "most_central_location sw r =
     (case initial_area sw of Inl e \<Rightarrow> r = Inl e | Inr a \<Rightarrow> central_run sw {#a#} r)"

text \<open>
  An executable instance: the heap is a list, \<^verbatim>\<open>heappop\<close> takes its first least
  area and the children are appended.
\<close>

fun first_min :: "search_area list \<Rightarrow> search_area option" where
  "first_min [] = None"
| "first_min (a # as) =
     (case first_min as of None \<Rightarrow> Some a | Some b \<Rightarrow> if area_lt b a then Some b else Some a)"

partial_function (option) central_det ::
  "bot_swarm \<Rightarrow> search_area list \<Rightarrow> search_area option py_result option" where
  "central_det sw hs =
     (case first_min hs of
        None \<Rightarrow> Some (Inr None)
      | Some a \<Rightarrow>
          if search_size a = 0 then Some (Inr (Some a))
          else (case children sw a of
                  Inl e \<Rightarrow> Some (Inl e)
                | Inr cs \<Rightarrow> central_det sw (remove1 a hs @ cs)))"

fun central_fuel :: "nat \<Rightarrow> bot_swarm \<Rightarrow> search_area list \<Rightarrow> search_area option py_result option" where
  "central_fuel 0 sw hs = None"
| "central_fuel (Suc n) sw hs =
     (case first_min hs of
        None \<Rightarrow> Some (Inr None)
      | Some a \<Rightarrow>
          if search_size a = 0 then Some (Inr (Some a))
          else (case children sw a of
                  Inl e \<Rightarrow> Some (Inl e)
                | Inr cs \<Rightarrow> central_fuel n sw (remove1 a hs @ cs)))"
section \<open>Specification\<close>

text \<open>
  The order of \<^verbatim>\<open>__lt__\<close> as a key compared lexicographically; the number of bots
  whose range, widened by \<open>s\<close>, reaches a point; a swarm whose two lists have the same
  length; and a heap whose areas have non-negative sizes and correct counts.
\<close>

definition area_key :: "search_area \<Rightarrow> int \<times> int \<times> int" where
  "area_key a = (- int (area_bots a), search_size a, dist_to_origin a)"

definition in_range_count :: "bot_swarm \<Rightarrow> point3 \<Rightarrow> int \<Rightarrow> nat" where
  "in_range_count sw c s = length (filter (\<lambda>(p, r). dist3 c p \<le> r + s) (zip (points sw) (radii sw)))"

definition swarm_ok :: "bot_swarm \<Rightarrow> bool" where
  "swarm_ok sw \<longleftrightarrow> length (points sw) = length (radii sw)"

definition heap_ok :: "bot_swarm \<Rightarrow> search_area multiset \<Rightarrow> bool" where
  "heap_ok sw H \<longleftrightarrow> (\<forall>b\<in>#H. 0 \<le> search_size b \<and> area_bots b = in_range_count sw (center b) (search_size b))"


section \<open>Examples\<close>

definition day23_example :: "string list" where
  "day23_example =
     [''pos=<0,0,0>, r=4'', ''pos=<1,0,0>, r=1'', ''pos=<4,0,0>, r=3'', ''pos=<0,2,0>, r=1'',
      ''pos=<0,5,0>, r=3'', ''pos=<0,0,3>, r=1'', ''pos=<1,1,1>, r=1'', ''pos=<1,1,2>, r=1'',
      ''pos=<1,3,1>, r=1'']"

definition day23_small :: "string list" where
  "day23_small = [''pos=<0,0,0>, r=1'', ''pos=<4,0,0>, r=3'', ''pos=<1,1,0>, r=1'']"

definition day23_example2 :: "string list" where
  "day23_example2 =
     [''pos=<10,12,12>, r=2'', ''pos=<12,14,12>, r=2'', ''pos=<16,12,12>, r=4'',
      ''pos=<14,14,14>, r=6'', ''pos=<50,50,50>, r=200'', ''pos=<10,10,10>, r=5'']"

section \<open>Lemmas\<close>

lemma area_lt_key: "area_lt a b \<longleftrightarrow> area_key a < area_key b"
  by (auto simp: area_lt_def area_key_def less_prod_def)

lemma heap_min_iff: "heap_min a H \<longleftrightarrow> a \<in># H \<and> (\<forall>b\<in>#H. \<not> area_lt b a)"
  by (auto simp: heap_min_def filter_mset_eq_mempty_iff)

lemma heap_min_exists:
  assumes "H \<noteq> {#}" shows "\<exists>a. heap_min a H"
proof -
  let ?k = "Min (area_key ` set_mset H)"
  have fin: "finite (area_key ` set_mset H)" by (rule finite_imageI) simp
  have ne: "area_key ` set_mset H \<noteq> {}" using assms by (simp only: image_is_empty set_mset_eq_empty_iff not_False_eq_True)
  from Min_in [OF fin ne] obtain a where a: "a \<in># H" "area_key a = ?k" by (metis imageE)
  have "\<not> area_lt b a" if "b \<in># H" for b
  proof -
    have "?k \<le> area_key b" using Min_le [OF fin] that by blast
    then show ?thesis unfolding area_lt_key a(2) by simp
  qed
  with a(1) show ?thesis unfolding heap_min_iff by blast
qed

lemma first_min_None: "first_min hs = None \<longleftrightarrow> hs = []"
  by (induction hs) (auto split: option.splits)

lemma first_min_heap_min: "first_min hs = Some a \<Longrightarrow> heap_min a (mset hs)"
proof (induction hs arbitrary: a)
  case Nil
  then show ?case by simp
next
  case (Cons c hs)
  show ?case
  proof (cases "first_min hs")
    case None
    then show ?thesis using Cons.prems by (auto simp: heap_min_iff first_min_None area_lt_key)
  next
    case (Some b)
    have b: "b \<in> set hs" "\<And>d. d \<in> set hs \<Longrightarrow> \<not> area_key d < area_key b"
      using Cons.IH [OF Some] by (auto simp: heap_min_iff area_lt_key)
    show ?thesis
    proof (cases "area_lt b c")
      case True
      then show ?thesis using Cons.prems Some b by (auto simp: heap_min_iff area_lt_key)
    next
      case False
      then have "\<not> area_key d < area_key c" if "d \<in> set hs" for d
        using b(2) [OF that] by (auto simp: area_lt_key)
      then show ?thesis using Cons.prems Some False by (auto simp: heap_min_iff area_lt_key)
    qed
  qed
qed

lemma py_map_Inr_mem: "py_map f xs = Inr ys \<Longrightarrow> y \<in> set ys \<Longrightarrow> \<exists>x\<in>set xs. f x = Inr y"
  by (induction xs arbitrary: ys) (auto simp: py_simps)

lemma children_size: "children sw a = Inr cs \<Longrightarrow> b \<in> set cs \<Longrightarrow> search_size b = search_size a div 2"
  unfolding children_def by (drule py_map_Inr_mem) (auto simp: py_simps)

lemma count_loop_spec:
  "length ds + i \<le> length rs \<Longrightarrow>
   count_loop rs sz i ds cnt = Inr (cnt + length (filter (\<lambda>(d, r). d \<le> r + sz) (zip ds (drop i rs))))"
proof (induction ds arbitrary: i cnt)
  case Nil
  then show ?case by simp
next
  case (Cons d ds)
  then have i: "i < length rs" by simp
  then have "drop i rs = rs ! i # drop (Suc i) rs" by (simp add: Cons_nth_drop_Suc)
  with i Cons show ?case by (simp add: py_simps py_get_nonneg)
qed

lemma bots_in_range_spec: "swarm_ok sw \<Longrightarrow> bots_in_range sw p sz = Inr (in_range_count sw p sz)"
  by (simp add: bots_in_range_def count_loop_spec swarm_ok_def distances_from_point_def
                in_range_count_def zip_map1 comp_def split_def)

lemma swarm_loop_ok:
  "swarm_ok sw \<Longrightarrow> swarm_loop sw ls = Inr sw' \<Longrightarrow> swarm_ok sw' \<and> length (points sw') = length (points sw) + length ls"
  by (induction sw ls rule: swarm_loop.induct) (auto simp: py_simps swarm_ok_def)

lemma swarm_from_lines_ok:
  "swarm_from_lines ls = Inr sw \<Longrightarrow> swarm_ok sw \<and> length (points sw) = length ls"
  using swarm_loop_ok [of empty_swarm "map py_strip ls" sw]
  by (simp add: swarm_from_lines_def swarm_ok_def empty_swarm_def)

lemma children_ok:
  assumes "swarm_ok sw"
  shows "children sw a = Inr (map (\<lambda>p. \<lparr>center = p, area_bots = in_range_count sw p (search_size a div 2),
                                        search_size = search_size a div 2\<rparr>)
                                 (remdups (octants (search_size a) (center a) 3)))"
proof -
  show ?thesis
    unfolding children_def using bots_in_range_spec [OF assms] by (simp add: py_map_Inr py_simps)
qed

lemma octants_ne: "octants sz c samples \<noteq> []"
  by (simp add: octants_def Let_def split: prod.splits)

lemma children_heap_ok:
  assumes "swarm_ok sw" "0 \<le> search_size a" "search_size a \<noteq> 0"
  shows "\<exists>cs. children sw a = Inr cs \<and> cs \<noteq> [] \<and> heap_ok sw (mset cs) \<and>
              (\<forall>b\<in>set cs. search_size b < search_size a)"
  using children_ok [OF assms(1), of a] assms(2,3) octants_ne [of "search_size a" "center a" 3]
  by (auto simp: heap_ok_def)

lemma heap_ok_expand:
  "heap_ok sw H \<Longrightarrow> heap_ok sw (mset cs) \<Longrightarrow> heap_ok sw (H - {#a#} + mset cs)"
  unfolding heap_ok_def by (metis in_diffD union_iff)

text \<open>
  Whatever areas \<^verbatim>\<open>heappop\<close> picks among the least ones, the loop of
  \<^verbatim>\<open>most_central_location\<close> cannot turn forever on a heap of areas of non-negative
  size: its turns that do not return are a well-founded relation.
\<close>

theorem central_terminates:
  "wf {(H', H). central_step sw H H' \<and> set_mset H \<subseteq> {a. 0 \<le> search_size a}}"
proof (rule wf_subset)
  let ?m = "\<lambda>H. image_mset (nat \<circ> search_size) H"
  show "wf (inv_image (mult less_than) ?m)" by (intro wf_inv_image wf_mult wf_less_than)
  show "{(H', H). central_step sw H H' \<and> set_mset H \<subseteq> {a. 0 \<le> search_size a}} \<subseteq> inv_image (mult less_than) ?m"
  proof clarify
    fix H' H
    assume st: "central_step sw H H'" and nn: "set_mset H \<subseteq> {a. 0 \<le> search_size a}"
    then obtain a cs where a: "heap_min a H" "search_size a \<noteq> 0" "children sw a = Inr cs"
      and H': "H' = H - {#a#} + mset cs" unfolding central_step_def by blast
    have aH: "a \<in># H" using a(1) by (simp add: heap_min_iff)
    have pos: "0 < search_size a" using nn aH a(2) by force
    have small: "\<forall>k\<in>#?m (mset cs). \<exists>j\<in>#{#nat (search_size a)#}. (k, j) \<in> less_than"
      using children_size [OF a(3)] pos by auto
    have "(?m (H - {#a#}) + ?m (mset cs), ?m (H - {#a#}) + {#nat (search_size a)#}) \<in> mult less_than"
      by (rule one_step_implies_mult [OF _ small]) simp
    moreover have "?m H = ?m (H - {#a#}) + {#nat (search_size a)#}"
      using aH by (metis (no_types, lifting) add_mset_remove_trivial_If comp_apply image_mset_add_mset union_mset_add_mset_right add.right_neutral)
    ultimately show "(H', H) \<in> inv_image (mult less_than) ?m" by (simp add: H')
  qed
qed

lemma heap_ok_nonneg: "heap_ok sw H \<Longrightarrow> set_mset H \<subseteq> {a. 0 \<le> search_size a}"
  by (auto simp: heap_ok_def)

lemma central_run_results:
  "central_run sw H r \<Longrightarrow> swarm_ok sw \<Longrightarrow> heap_ok sw H \<Longrightarrow> H \<noteq> {#} \<Longrightarrow>
   \<exists>a. r = Inr (Some a) \<and> search_size a = 0 \<and> area_bots a = in_range_count sw (center a) 0"
proof (induction rule: central_run.induct)
  case (run_empty sw)
  then show ?case by simp
next
  case (run_found a H sw)
  then show ?case by (auto simp: heap_min_iff heap_ok_def)
next
  case (run_error a H sw e)
  then have "0 \<le> search_size a" by (auto simp: heap_min_iff heap_ok_def)
  with run_error children_heap_ok [of sw a] show ?case by auto
next
  case (run_expand a H sw cs r)
  then have "0 \<le> search_size a" by (auto simp: heap_min_iff heap_ok_def)
  with run_expand children_heap_ok [of sw a] have "heap_ok sw (mset cs)" "cs \<noteq> []" by auto
  with run_expand show ?case by (simp add: heap_ok_expand)
qed

lemma central_run_exists:
  "swarm_ok sw \<Longrightarrow> heap_ok sw H \<Longrightarrow> H \<noteq> {#} \<Longrightarrow> \<exists>r. central_run sw H r"
proof (induction H rule: wf_induct_rule [OF central_terminates [of sw]])
  case (1 H)
  obtain a where a: "heap_min a H" using heap_min_exists [OF "1.prems"(3)] by blast
  show ?case
  proof (cases "search_size a = 0")
    case True
    then show ?thesis using a by (blast intro: run_found)
  next
    case False
    have "0 \<le> search_size a" using a "1.prems"(2) by (auto simp: heap_min_iff heap_ok_def)
    with children_heap_ok [OF "1.prems"(1) this False]
    obtain cs where cs: "children sw a = Inr cs" "cs \<noteq> []" "heap_ok sw (mset cs)" by blast
    let ?H = "H - {#a#} + mset cs"
    have "central_step sw H ?H" using a False cs(1) by (auto simp: central_step_def)
    with heap_ok_nonneg [OF "1.prems"(2)]
    have "\<exists>r. central_run sw ?H r"
      using "1.IH" [of ?H] "1.prems"(1) heap_ok_expand [OF "1.prems"(2) cs(3)] cs(2) by simp
    then show ?thesis using a False cs(1) by (blast intro: run_expand)
  qed
qed

lemma initial_area_ok:
  "swarm_ok sw \<Longrightarrow> points sw \<noteq> [] \<Longrightarrow> \<exists>a. initial_area sw = Inr a \<and> heap_ok sw {#a#}"
  by (auto simp: initial_area_def Let_def bots_in_range_spec heap_ok_def py_simps le_max_iff_disj)

lemma central_step_ok:
  assumes "swarm_ok sw" "heap_ok sw H" "central_step sw H H'"
  shows "heap_ok sw H'"
proof -
  obtain a cs where a: "heap_min a H" "search_size a \<noteq> 0" "children sw a = Inr cs"
    and H': "H' = H - {#a#} + mset cs" using assms(3) unfolding central_step_def by blast
  have "0 \<le> search_size a" using assms(2) a(1) by (auto simp: heap_min_iff heap_ok_def)
  then obtain cs' where "children sw a = Inr cs'" "heap_ok sw (mset cs')"
    using children_heap_ok [OF assms(1) _ a(2)] by blast
  then show ?thesis using a(3) H' heap_ok_expand [OF assms(2)] by simp
qed

lemma central_no_infinite_run:
  assumes "swarm_ok sw" "heap_ok sw H0"
  shows "\<not> (\<exists>Hs. Hs 0 = H0 \<and> (\<forall>i. central_step sw (Hs i) (Hs (Suc i))))"
proof
  assume "\<exists>Hs. Hs 0 = H0 \<and> (\<forall>i. central_step sw (Hs i) (Hs (Suc i)))"
  then obtain Hs where Hs: "Hs 0 = H0" "\<And>i. central_step sw (Hs i) (Hs (Suc i))" by blast
  have ok: "heap_ok sw (Hs i)" for i
    by (induction i) (use Hs assms central_step_ok in auto)
  have "\<forall>i. (Hs (Suc i), Hs i) \<in> {(H', H). central_step sw H H' \<and> set_mset H \<subseteq> {a. 0 \<le> search_size a}}"
    using Hs(2) ok heap_ok_nonneg by blast
  with central_terminates [of sw] show False
    unfolding wf_iff_no_infinite_down_chain by blast
qed

text \<open>
  C34. For a swarm read from a non-empty list of lines, \<^verbatim>\<open>most_central_location\<close>
  returns on every choice \<^verbatim>\<open>heappop\<close> can make among equal areas: some run returns,
  no sequence of loop turns from the initial heap goes on forever (each turn pops any least
  area and pushes its children), and every value a run can return is an area of search
  size 0 whose count is the number of bots in range of its centre.
\<close>

theorem most_central_location_correct:
  assumes "swarm_from_lines lines = Inr sw" "lines \<noteq> []"
  shows "(\<exists>r. most_central_location sw r) \<and>
         \<not> (\<exists>a Hs. initial_area sw = Inr a \<and> Hs 0 = {#a#} \<and> (\<forall>i. central_step sw (Hs i) (Hs (Suc i)))) \<and>
         (\<forall>r. most_central_location sw r \<longrightarrow>
            (\<exists>a. r = Inr (Some a) \<and> search_size a = 0 \<and> area_bots a = in_range_count sw (center a) 0))"
proof -
  have ok: "swarm_ok sw" "points sw \<noteq> []" using swarm_from_lines_ok [OF assms(1)] assms(2) by auto
  obtain a where a: "initial_area sw = Inr a" "heap_ok sw {#a#}" using initial_area_ok [OF ok] by blast
  show ?thesis
    using central_run_exists [OF ok(1) a(2)] central_run_results [OF _ ok(1) a(2)] a(1)
      central_no_infinite_run [OF ok(1) a(2)]
    by (simp add: most_central_location_def)
qed

theorem most_central_location_correct_witness:
  "\<exists>sw. swarm_from_lines day23_small = Inr sw \<and> (\<exists>r. most_central_location sw r)"
proof -
  have "case swarm_from_lines day23_small of Inr _ \<Rightarrow> True | Inl _ \<Rightarrow> False" by code_simp
  then obtain sw where sw: "swarm_from_lines day23_small = Inr sw" by (auto split: sum.splits)
  have "day23_small \<noteq> []" by (simp add: day23_small_def)
  from most_central_location_correct [OF sw this] sw show ?thesis by blast
qed

lemma strongest_loop_Some_ne: "\<exists>t. strongest_loop (Some s) bs = Some t"
  by (induction bs arbitrary: s) auto

lemma strongest_loop_Some:
  "strongest_loop (Some s) bs = Some t \<Longrightarrow>
   (t = s \<and> (\<forall>b\<in>set bs. radius b \<le> radius s)) \<or>
   (\<exists>pre post. bs = pre @ t # post \<and> radius s < radius t \<and>
      (\<forall>b\<in>set pre. radius b < radius t) \<and> (\<forall>b\<in>set post. radius b \<le> radius t))"
proof (induction bs arbitrary: s)
  case Nil
  then show ?case by simp
next
  case (Cons b bs)
  show ?case
  proof (cases "radius b > radius s")
    case True
    then have "strongest_loop (Some b) bs = Some t" using Cons.prems by simp
    from Cons.IH [OF this] show ?thesis
    proof
      assume "t = b \<and> (\<forall>c\<in>set bs. radius c \<le> radius b)"
      then show ?thesis using True by (intro disjI2 exI [of _ "[]"] exI [of _ bs]) auto
    next
      assume "\<exists>pre post. bs = pre @ t # post \<and> radius b < radius t \<and>
                (\<forall>c\<in>set pre. radius c < radius t) \<and> (\<forall>c\<in>set post. radius c \<le> radius t)"
      then obtain pre post where "bs = pre @ t # post" "radius b < radius t"
        "\<forall>c\<in>set pre. radius c < radius t" "\<forall>c\<in>set post. radius c \<le> radius t" by blast
      then show ?thesis using True by (intro disjI2 exI [of _ "b # pre"] exI [of _ post]) auto
    qed
  next
    case False
    then have "strongest_loop (Some s) bs = Some t" using Cons.prems by simp
    from Cons.IH [OF this] show ?thesis
    proof
      assume "t = s \<and> (\<forall>c\<in>set bs. radius c \<le> radius s)"
      then show ?thesis using False by simp
    next
      assume "\<exists>pre post. bs = pre @ t # post \<and> radius s < radius t \<and>
                (\<forall>c\<in>set pre. radius c < radius t) \<and> (\<forall>c\<in>set post. radius c \<le> radius t)"
      then obtain pre post where "bs = pre @ t # post" "radius s < radius t"
        "\<forall>c\<in>set pre. radius c < radius t" "\<forall>c\<in>set post. radius c \<le> radius t" by blast
      then show ?thesis using False by (intro disjI2 exI [of _ "b # pre"] exI [of _ post]) auto
    qed
  qed
qed

text \<open>
  C35. For a non-empty dictionary of bots, \<^verbatim>\<open>bots_near_strongest_bot\<close> takes the
  first bot of greatest radius in the dictionary's order and returns the number of points
  of the swarm within that radius of its position.
\<close>

theorem bots_near_strongest_bot_spec:
  assumes "bots sw \<noteq> []"
  shows "\<exists>pre t post. map snd (bots sw) = pre @ t # post \<and>
           (\<forall>b\<in>set pre. radius b < radius t) \<and> (\<forall>b\<in>set post. radius b \<le> radius t) \<and>
           bots_near_strongest_bot sw = Inr (length (filter (\<lambda>p. dist3 (pos t) p \<le> radius t) (points sw)))"
proof -
  obtain v vs where v: "map snd (bots sw) = v # vs" using assms by (cases "bots sw") auto
  obtain t where t: "strongest_loop (Some v) vs = Some t"
    using strongest_loop_Some_ne [of v vs] by blast
  have r: "bots_near_strongest_bot sw = Inr (length (filter (\<lambda>p. dist3 (pos t) p \<le> radius t) (points sw)))"
    using v t by (simp add: bots_near_strongest_bot_def distances_from_point_def filter_map comp_def)
  from strongest_loop_Some [OF t] show ?thesis
  proof
    assume "t = v \<and> (\<forall>b\<in>set vs. radius b \<le> radius v)"
    then show ?thesis using v r by (intro exI [of _ "[]"] exI [of _ t] exI [of _ vs]) auto
  next
    assume "\<exists>pre post. vs = pre @ t # post \<and> radius v < radius t \<and>
              (\<forall>b\<in>set pre. radius b < radius t) \<and> (\<forall>b\<in>set post. radius b \<le> radius t)"
    then obtain pre post where "vs = pre @ t # post" "radius v < radius t"
      "\<forall>b\<in>set pre. radius b < radius t" "\<forall>b\<in>set post. radius b \<le> radius t" by blast
    then show ?thesis using v r by (intro exI [of _ "v # pre"] exI [of _ t] exI [of _ post]) auto
  qed
qed

theorem bots_near_strongest_bot_spec_witness:
  "\<exists>sw t. swarm_from_lines day23_example = Inr sw \<and> t \<in> set (map snd (bots sw)) \<and>
          bots_near_strongest_bot sw = Inr (length (filter (\<lambda>p. dist3 (pos t) p \<le> radius t) (points sw)))"
proof -
  have "case swarm_from_lines day23_example of Inr sw \<Rightarrow> bots sw \<noteq> [] | Inl _ \<Rightarrow> False" by code_simp
  then obtain sw where sw: "swarm_from_lines day23_example = Inr sw" "bots sw \<noteq> []" by (auto split: sum.splits)
  from bots_near_strongest_bot_spec [OF sw(2)] sw(1) show ?thesis by fastforce
qed

text \<open>The bounded search is an instance of the relation, and of the partial function.\<close>

lemma central_fuel_run: "central_fuel n sw hs = Some r \<Longrightarrow> central_run sw (mset hs) r"
proof (induction n arbitrary: hs)
  case 0
  then show ?case by simp
next
  case (Suc n)
  show ?case
  proof (cases "first_min hs")
    case None
    then show ?thesis using Suc.prems by (auto simp: first_min_None intro: run_empty)
  next
    case (Some a)
    note m = first_min_heap_min [OF Some]
    show ?thesis
    proof (cases "search_size a = 0")
      case True
      then show ?thesis using Suc.prems Some m by (auto intro: run_found)
    next
      case False
      show ?thesis
      proof (cases "children sw a")
        case (Inl e)
        then show ?thesis using Suc.prems Some m False by (auto intro: run_error)
      next
        case (Inr cs)
        then have "central_fuel n sw (remove1 a hs @ cs) = Some r" using Suc.prems Some False by simp
        from Suc.IH [OF this] have "central_run sw (mset hs - {#a#} + mset cs) r" by simp
        then show ?thesis using m False Inr by (auto intro: run_expand)
      qed
    qed
  qed
qed

lemma central_fuel_det: "central_fuel n sw hs = Some r \<Longrightarrow> central_det sw hs = Some r"
proof (induction n arbitrary: hs)
  case 0
  then show ?case by simp
next
  case (Suc n)
  then show ?case
    by (subst central_det.simps) (auto split: option.splits if_splits sum.splits)
qed

lemma day23_small_search:
  "py_bind (swarm_from_lines day23_small) (\<lambda>sw. py_bind (initial_area sw) (\<lambda>a.
     case central_fuel 3 sw [a] of Some r \<Rightarrow> r | None \<Rightarrow> Inr None)) =
   Inr (Some \<lparr>center = (1, 0, 0), area_bots = 3, search_size = 0\<rparr>)"
  by code_simp

text \<open>The assertions of \<^verbatim>\<open>test_sample_swarm\<close> and of \<^verbatim>\<open>test_bots_in_range\<close> (on the example of the puzzle's second part).\<close>

lemma day23_tests:
  "py_bind (swarm_from_lines day23_example) bots_near_strongest_bot = Inr 7"
  "py_bind (swarm_from_lines day23_example2) (\<lambda>sw. bots_in_range sw (12, 12, 12) 0) = Inr 5"
  by code_simp+

text \<open>
  \<^verbatim>\<open>dist_to_origin\<close> is the absolute value of the sum of the coordinates, not the
  Manhattan distance to the origin: the centre \<open>(1, -1, 0)\<close> is at distance 2 and gets 0.
\<close>

lemma dist_to_origin_not_manhattan:
  "dist_to_origin \<lparr>center = (1, -1, 0), area_bots = 0, search_size = 0\<rparr> = 0 \<and> dist3 (1, -1, 0) (0, 0, 0) = 2"
  by simp

end
