(* ===== verification/Day06_Coordinates.thy ===== *)
theory Day06_Coordinates
  imports Py_Text
begin

text \<open>
  Day 6, \<^verbatim>\<open>src/day_06.py\<close>: areas of the points closest to each coordinate, in
  Manhattan distance. \<^verbatim>\<open>make_groups\<close> reads the coordinates (the module's
  \<^verbatim>\<open>lines\<close>, the stripped lines of the input split at commas, are a parameter);
  \<^verbatim>\<open>mark_grid\<close> floods a \<open>size \<times> size\<close> grid of \<open>(group, distance)\<close> pairs
  from every group at once with a \<^verbatim>\<open>deque\<close> (popped at the right, new cells
  pushed at the left) and a set of seen \<open>(x, y, group)\<close> triples;
  \<^verbatim>\<open>biggest_non_inf_group\<close> counts the cells of each group and
  \<^verbatim>\<open>most_central_region\<close> floods, from the mean of the coordinates, the cells whose
  total distance to the coordinates is below 10000.

  A \<^verbatim>\<open>Group\<close> is a mutable object: the groups are a list updated by index (so the
  index \<open>-1\<close> is the last group, as in Python). The \<^verbatim>\<open>numpy\<close> grid is a list of
  rows of pairs; it is only read and written at indices the loop has checked to be in
  \<open>[0, size)\<close>. A deque is a list whose right end is its last element. Both floods
  are \<^verbatim>\<open>while\<close> loops, modelled as partial functions and proved to end.
\<close>

section \<open>Groups\<close>

record group =
  gx :: int
  gy :: int
  gi :: int
  is_infinite :: bool
  cell_count :: int

definition input_lines :: "string list \<Rightarrow> string list list" where
  "input_lines ls = map (\<lambda>l. py_split_on CHR '','' (py_strip l)) ls"

fun make_groups_loop :: "nat \<Rightarrow> string list list \<Rightarrow> group list py_result" where
  "make_groups_loop i [] = Inr []"
| "make_groups_loop i (line # ls) =
     py_bind (py_get line 0) (\<lambda>a. py_bind (py_int a) (\<lambda>x.
     py_bind (py_get line 1) (\<lambda>b. py_bind (py_int b) (\<lambda>y.
     py_bind (make_groups_loop (Suc i) ls) (\<lambda>gs.
       Inr (\<lparr>gx = x, gy = y, gi = int i, is_infinite = False, cell_count = 0\<rparr> # gs))))))"

definition make_groups :: "string list list \<Rightarrow> group list py_result" where
  "make_groups lines = make_groups_loop 0 lines"

section \<open>Marking the grid\<close>

definition grid_neighbors :: "int \<Rightarrow> int \<Rightarrow> (int \<times> int) list" where
  "grid_neighbors x y = [(x - 1, y), (x + 1, y), (x, y - 1), (x, y + 1)]"

type_synonym cell_grid = "(int \<times> int) list list"

definition grid_at :: "cell_grid \<Rightarrow> int \<Rightarrow> int \<Rightarrow> int \<times> int" where
  "grid_at g x y = g ! nat x ! nat y"

definition grid_put :: "cell_grid \<Rightarrow> int \<Rightarrow> int \<Rightarrow> int \<times> int \<Rightarrow> cell_grid" where
  "grid_put g x y v = g[nat x := (g ! nat x)[nat y := v]]"

text \<open>The inner \<^verbatim>\<open>for neighbor in neighbors(x, y)\<close> of \<^verbatim>\<open>mark_grid\<close>.\<close>

fun push_neighbors :: "(int \<times> int) list \<Rightarrow> int \<Rightarrow> int \<Rightarrow> (int \<times> int \<times> int) set \<Rightarrow>
                       (int \<times> int \<times> int \<times> int) list \<Rightarrow> (int \<times> int \<times> int) set \<times> (int \<times> int \<times> int \<times> int) list" where
  "push_neighbors [] i dist seen queue = (seen, queue)"
| "push_neighbors ((nx, ny) # ns) i dist seen queue =
     (if (nx, ny, i) \<notin> seen
      then push_neighbors ns i dist (insert (nx, ny, i) seen) ((nx, ny, i, dist + 1) # queue)
      else push_neighbors ns i dist seen queue)"

record mark_state =
  marks :: cell_grid
  mark_seen :: "(int \<times> int \<times> int) set"
  mark_queue :: "(int \<times> int \<times> int \<times> int) list"

text \<open>
  One turn of the \<^verbatim>\<open>while queue\<close> loop of \<^verbatim>\<open>mark_grid\<close>: \<open>Inl\<close> the grid it
  returns once the queue is empty, \<open>Inr\<close> the state after the turn.
\<close>

definition mark_turn :: "int \<Rightarrow> mark_state \<Rightarrow> cell_grid + mark_state" where
  "mark_turn sz st =
     (if mark_queue st = [] then Inl (marks st)
      else
        (let (x, y, i, dist) = last (mark_queue st); st = st\<lparr>mark_queue := butlast (mark_queue st)\<rparr>
         in if x < 0 \<or> y < 0 \<or> x > sz - 1 \<or> y > sz - 1 then Inr st
            else
              (let prev_dist = snd (grid_at (marks st) x y);
                   (seen', queue') = push_neighbors (grid_neighbors x y) i dist (mark_seen st) (mark_queue st);
                   marked = \<lparr>marks = grid_put (marks st) x y (i, dist), mark_seen = seen', mark_queue = queue'\<rparr>
               in if dist < prev_dist \<or> prev_dist = -1 then Inr marked
                  else if dist = prev_dist then Inr marked
                  else Inr st)))"

partial_function (option) mark_loop :: "int \<Rightarrow> mark_state \<Rightarrow> cell_grid option" where
  "mark_loop sz st = (case mark_turn sz st of Inl g \<Rightarrow> Some g | Inr st' \<Rightarrow> mark_loop sz st')"

fun mark_fuel :: "nat \<Rightarrow> int \<Rightarrow> mark_state \<Rightarrow> cell_grid option" where
  "mark_fuel 0 sz st = None"
| "mark_fuel (Suc n) sz st = (case mark_turn sz st of Inl g \<Rightarrow> Some g | Inr st' \<Rightarrow> mark_fuel n sz st')"

definition initial_grid :: "int \<Rightarrow> cell_grid" where
  "initial_grid sz = replicate (nat sz) (replicate (nat sz) (-1, -1))"

definition mark_start :: "int \<Rightarrow> group list \<Rightarrow> mark_state" where
  "mark_start sz groups =
     \<lparr>marks = initial_grid sz, mark_seen = set (map (\<lambda>g. (gx g, gy g, gi g)) groups),
      mark_queue = map (\<lambda>g. (gx g, gy g, gi g, 0)) groups\<rparr>"

definition mark_grid :: "int \<Rightarrow> group list \<Rightarrow> cell_grid option" where
  "mark_grid sz groups = mark_loop sz (mark_start sz groups)"

section \<open>Part 1\<close>

text \<open>
  One cell of \<^verbatim>\<open>biggest_non_inf_group\<close>: the test \<^verbatim>\<open>i == 10e6\<close> compares with a
  float no cell holds, and \<^verbatim>\<open>groups[i]\<close> with \<open>i = -1\<close> is the last group.
\<close>

definition count_cell :: "int \<Rightarrow> cell_grid \<Rightarrow> group list \<Rightarrow> int \<times> int \<Rightarrow> group list py_result" where
  "count_cell sz grid groups p =
     (let (x, y) = p; (i, dist) = grid_at grid x y
      in if i = 10000000 then Inr groups
         else py_bind (py_get groups i) (\<lambda>g.
                let g' = g\<lparr>cell_count := cell_count g + 1\<rparr>;
                    g'' = (if x = 0 \<or> y = 0 \<or> x = sz - 1 \<or> y = sz - 1 then g'\<lparr>is_infinite := True\<rparr> else g')
                in py_set groups i g''))"

fun count_loop6 :: "int \<Rightarrow> cell_grid \<Rightarrow> group list \<Rightarrow> (int \<times> int) list \<Rightarrow> group list py_result" where
  "count_loop6 sz grid groups [] = Inr groups"
| "count_loop6 sz grid groups (p # ps) =
     py_bind (count_cell sz grid groups p) (\<lambda>groups'. count_loop6 sz grid groups' ps)"

definition biggest_non_inf_group :: "group list \<Rightarrow> cell_grid \<Rightarrow> int \<Rightarrow> group py_result" where
  "biggest_non_inf_group groups grid sz =
     py_bind (count_loop6 sz grid groups [(x, y). x \<leftarrow> [0..sz - 1], y \<leftarrow> [0..sz - 1]]) (\<lambda>groups'.
       let non_inf_groups = sort_key cell_count (filter (\<lambda>g. \<not> is_infinite g) groups')
       in py_get non_inf_groups (-1))"

section \<open>Part 2\<close>

definition distance :: "int \<Rightarrow> int \<Rightarrow> int \<Rightarrow> int \<Rightarrow> int" where
  "distance x1 y1 x2 y2 = \<bar>x1 - x2\<bar> + \<bar>y1 - y2\<bar>"

definition is_within_dist_of_all :: "int \<Rightarrow> int \<Rightarrow> group list \<Rightarrow> bool" where
  "is_within_dist_of_all x y groups = (sum_list (map (\<lambda>g. distance x y (gx g) (gy g)) groups) < 10000)"

text \<open>The inner loop of \<^verbatim>\<open>most_central_region\<close>: new points are pushed at the right.\<close>

fun push_points :: "(int \<times> int) list \<Rightarrow> (int \<times> int) set \<Rightarrow> (int \<times> int) list \<Rightarrow> (int \<times> int) set \<times> (int \<times> int) list" where
  "push_points [] seen queue = (seen, queue)"
| "push_points (p # ps) seen queue =
     (if p \<notin> seen then push_points ps (insert p seen) (queue @ [p]) else push_points ps seen queue)"

record region_state =
  region_seen :: "(int \<times> int) set"
  region_queue :: "(int \<times> int) list"
  central_cells :: "(int \<times> int) list"

definition region_turn :: "int \<Rightarrow> group list \<Rightarrow> region_state \<Rightarrow> (int \<times> int) list + region_state" where
  "region_turn sz groups st =
     (if region_queue st = [] then Inl (central_cells st)
      else
        (let (x, y) = last (region_queue st); st = st\<lparr>region_queue := butlast (region_queue st)\<rparr>
         in if x < 0 \<or> y < 0 \<or> x > sz - 1 \<or> y > sz - 1 then Inr st
            else if \<not> is_within_dist_of_all x y groups then Inr st
            else
              (let (seen', queue') = push_points (grid_neighbors x y) (region_seen st) (region_queue st)
               in Inr \<lparr>region_seen = seen', region_queue = queue', central_cells = central_cells st @ [(x, y)]\<rparr>)))"

partial_function (option) region_loop :: "int \<Rightarrow> group list \<Rightarrow> region_state \<Rightarrow> (int \<times> int) list option" where
  "region_loop sz groups st =
     (case region_turn sz groups st of Inl cells \<Rightarrow> Some cells | Inr st' \<Rightarrow> region_loop sz groups st')"

fun region_fuel :: "nat \<Rightarrow> int \<Rightarrow> group list \<Rightarrow> region_state \<Rightarrow> (int \<times> int) list option" where
  "region_fuel 0 sz groups st = None"
| "region_fuel (Suc n) sz groups st =
     (case region_turn sz groups st of Inl cells \<Rightarrow> Some cells | Inr st' \<Rightarrow> region_fuel n sz groups st')"

definition most_central_region :: "group list \<Rightarrow> int \<Rightarrow> nat py_result option" where
  "most_central_region groups sz =
     (if groups = [] then Some (Inl ZeroDivisionError)
      else
        (let avg_x = sum_list (map gx groups) div int (length groups);
             avg_y = sum_list (map gy groups) div int (length groups)
         in map_option (\<lambda>cells. Inr (length cells))
              (region_loop sz groups
                 \<lparr>region_seen = {(avg_x, avg_y)}, region_queue = [(avg_x, avg_y)], central_cells = []\<rparr>)))"

section \<open>Specification\<close>

text \<open>
  The measures of the two floods: five times the number of cells of the box around the
  grid not yet seen, plus the length of the queue; the cells of the region of part 2.
\<close>

definition nbr_triples :: "(int \<times> int) list \<Rightarrow> int \<Rightarrow> (int \<times> int \<times> int) set" where
  "nbr_triples ns i = (\<lambda>(nx, ny). (nx, ny, i)) ` set ns"

definition mark_box :: "int \<Rightarrow> int set \<Rightarrow> (int \<times> int \<times> int) set" where
  "mark_box sz I = {-1..sz} \<times> {-1..sz} \<times> I"

definition mark_measure :: "int \<Rightarrow> int set \<Rightarrow> mark_state \<Rightarrow> nat" where
  "mark_measure sz I st = 5 * card (mark_box sz I - mark_seen st) + length (mark_queue st)"

definition ids_ok :: "int set \<Rightarrow> mark_state \<Rightarrow> bool" where
  "ids_ok I st \<longleftrightarrow> (\<forall>e\<in>set (mark_queue st). fst (snd (snd e)) \<in> I)"

definition region_cells :: "int \<Rightarrow> group list \<Rightarrow> (int \<times> int) set" where
  "region_cells sz groups = {(x, y). 0 \<le> x \<and> x < sz \<and> 0 \<le> y \<and> y < sz \<and> is_within_dist_of_all x y groups}"

definition region_box :: "int \<Rightarrow> (int \<times> int) set" where
  "region_box sz = {-1..sz} \<times> {-1..sz}"

definition region_measure :: "int \<Rightarrow> region_state \<Rightarrow> nat" where
  "region_measure sz st = 5 * card (region_box sz - region_seen st) + length (region_queue st)"

definition region_ok :: "int \<Rightarrow> group list \<Rightarrow> region_state \<Rightarrow> bool" where
  "region_ok sz groups st \<longleftrightarrow>
     distinct (central_cells st @ region_queue st) \<and> set (central_cells st @ region_queue st) \<subseteq> region_seen st \<and>
     set (central_cells st) \<subseteq> region_cells sz groups"

definition two_groups :: "group list" where
  "two_groups = [\<lparr>gx = 0, gy = 0, gi = 0, is_infinite = False, cell_count = 0\<rparr>,
                 \<lparr>gx = 2, gy = 0, gi = 1, is_infinite = False, cell_count = 0\<rparr>]"

section \<open>Lemmas\<close>



lemma card_Diff_grow:
  assumes "finite B" "S \<subseteq> S'" "S' - S \<subseteq> B"
  shows "card (B - S') + card (S' - S) = card (B - S)"
proof -
  have "B - S = (B - S') \<union> (S' - S)" using assms(2,3) by blast
  moreover have "(B - S') \<inter> (S' - S) = {}" by blast
  moreover have "finite (S' - S)" using assms(1,3) finite_subset by blast
  ultimately show ?thesis using assms(1) by (simp add: card_Un_disjoint)
qed

lemma nbr_triples_Nil: "nbr_triples [] i = {}"
  by (simp add: nbr_triples_def)

lemma nbr_triples_Cons: "nbr_triples ((nx, ny) # ns) i = insert (nx, ny, i) (nbr_triples ns i)"
  by (simp add: nbr_triples_def)

lemma finite_nbr_triples: "finite (nbr_triples ns i)"
  by (simp add: nbr_triples_def)

lemma push_neighbors_seen: "fst (push_neighbors ns i d S Q) = S \<union> nbr_triples ns i"
  by (induction ns i d S Q rule: push_neighbors.induct) (auto simp: nbr_triples_Cons nbr_triples_Nil)

lemma push_neighbors_ids:
  "e \<in> set (snd (push_neighbors ns i d S Q)) \<Longrightarrow> e \<in> set Q \<or> fst (snd (snd e)) = i"
  by (induction ns i d S Q rule: push_neighbors.induct) (auto split: if_splits)

lemma card_Diff_insert_new:
  assumes "p \<notin> S" "p \<in> S'" "finite (S' - S)"
  shows "card (S' - S) = Suc (card (S' - insert p S))"
proof -
  have e: "S' - S = insert p (S' - insert p S)" using assms(1,2) by blast
  have f: "finite (S' - insert p S)" using assms(3) by (rule finite_subset [rotated]) blast
  show ?thesis unfolding e by (rule card_insert_disjoint [OF f]) blast
qed

lemma push_neighbors_new:
  "fst (push_neighbors ns i d S Q) - S \<subseteq> nbr_triples ns i"
  unfolding push_neighbors_seen by blast

lemma push_neighbors_length:
  "length (snd (push_neighbors ns i d S Q)) = length Q + card (fst (push_neighbors ns i d S Q) - S)"
proof (induction ns i d S Q rule: push_neighbors.induct)
  case (1 i dist seen queue)
  then show ?case by simp
next
  case (2 nx ny ns i dist seen queue)
  let ?p = "(nx, ny, i)"
  show ?case
  proof (cases "?p \<in> seen")
    case True
    then show ?thesis using "2.IH"(2) by simp
  next
    case False
    let ?S' = "fst (push_neighbors ns i dist (insert ?p seen) ((nx, ny, i, dist + 1) # queue))"
    have fin: "finite (?S' - seen)"
    proof (rule finite_subset)
      show "?S' - seen \<subseteq> insert ?p (nbr_triples ns i)" unfolding push_neighbors_seen by blast
    qed (simp add: finite_nbr_triples)
    have "?p \<in> ?S'" unfolding push_neighbors_seen by blast
    from card_Diff_insert_new [OF False this fin] show ?thesis using "2.IH"(1) [OF False] False by simp
  qed
qed

lemma mark_turn_cases:
  assumes "mark_turn sz st = Inr st'"
  obtains x y i d where "mark_queue st \<noteq> []" "last (mark_queue st) = (x, y, i, d)"
    "st' = st\<lparr>mark_queue := butlast (mark_queue st)\<rparr> \<or>
     (0 \<le> x \<and> 0 \<le> y \<and> x \<le> sz - 1 \<and> y \<le> sz - 1 \<and>
      st' = \<lparr>marks = grid_put (marks st) x y (i, d),
             mark_seen = fst (push_neighbors (grid_neighbors x y) i d (mark_seen st) (butlast (mark_queue st))),
             mark_queue = snd (push_neighbors (grid_neighbors x y) i d (mark_seen st) (butlast (mark_queue st)))\<rparr>)"
proof -
  obtain x y i d where l: "last (mark_queue st) = (x, y, i, d)" by (metis prod_cases4)
  have ne: "mark_queue st \<noteq> []" using assms by (auto simp: mark_turn_def)
  show ?thesis
  proof (rule that [OF ne l])
    show "st' = st\<lparr>mark_queue := butlast (mark_queue st)\<rparr> \<or>
     (0 \<le> x \<and> 0 \<le> y \<and> x \<le> sz - 1 \<and> y \<le> sz - 1 \<and>
      st' = \<lparr>marks = grid_put (marks st) x y (i, d),
             mark_seen = fst (push_neighbors (grid_neighbors x y) i d (mark_seen st) (butlast (mark_queue st))),
             mark_queue = snd (push_neighbors (grid_neighbors x y) i d (mark_seen st) (butlast (mark_queue st)))\<rparr>)"
      using assms ne l by (auto simp: mark_turn_def Let_def split: prod.splits if_splits)
  qed
qed

lemma neighbors_in_box:
  "0 \<le> x \<Longrightarrow> 0 \<le> y \<Longrightarrow> x \<le> sz - 1 \<Longrightarrow> y \<le> sz - 1 \<Longrightarrow> i \<in> I \<Longrightarrow>
   nbr_triples (grid_neighbors x y) i \<subseteq> mark_box sz I"
  by (auto simp: nbr_triples_def grid_neighbors_def mark_box_def)

lemma mark_turn_decreases:
  assumes fin: "finite I" and ok: "ids_ok I st" and t: "mark_turn sz st = Inr st'"
  shows "ids_ok I st' \<and> mark_measure sz I st' < mark_measure sz I st"
proof -
  from t obtain x y i d where ne: "mark_queue st \<noteq> []" and l: "last (mark_queue st) = (x, y, i, d)"
    and c: "st' = st\<lparr>mark_queue := butlast (mark_queue st)\<rparr> \<or>
     (0 \<le> x \<and> 0 \<le> y \<and> x \<le> sz - 1 \<and> y \<le> sz - 1 \<and>
      st' = \<lparr>marks = grid_put (marks st) x y (i, d),
             mark_seen = fst (push_neighbors (grid_neighbors x y) i d (mark_seen st) (butlast (mark_queue st))),
             mark_queue = snd (push_neighbors (grid_neighbors x y) i d (mark_seen st) (butlast (mark_queue st)))\<rparr>)"
    by (rule mark_turn_cases)
  have iI: "i \<in> I" using ok ne l last_in_set [OF ne] by (force simp: ids_ok_def)
  have okb: "ids_ok I (st\<lparr>mark_queue := butlast (mark_queue st)\<rparr>)"
    using ok by (auto simp: ids_ok_def dest: in_set_butlastD)
  from c show ?thesis
  proof
    assume "st' = st\<lparr>mark_queue := butlast (mark_queue st)\<rparr>"
    then show ?thesis using okb ne by (simp add: mark_measure_def)
  next
    assume g: "0 \<le> x \<and> 0 \<le> y \<and> x \<le> sz - 1 \<and> y \<le> sz - 1 \<and>
      st' = \<lparr>marks = grid_put (marks st) x y (i, d),
             mark_seen = fst (push_neighbors (grid_neighbors x y) i d (mark_seen st) (butlast (mark_queue st))),
             mark_queue = snd (push_neighbors (grid_neighbors x y) i d (mark_seen st) (butlast (mark_queue st)))\<rparr>"
    let ?P = "push_neighbors (grid_neighbors x y) i d (mark_seen st) (butlast (mark_queue st))"
    let ?B = "mark_box sz I"
    have sub: "mark_seen st \<subseteq> fst ?P" unfolding push_neighbors_seen by blast
    have new: "fst ?P - mark_seen st \<subseteq> ?B"
      using push_neighbors_new neighbors_in_box g iI by blast
    have finB: "finite ?B" using fin by (simp add: mark_box_def)
    have card: "card (?B - fst ?P) + card (fst ?P - mark_seen st) = card (?B - mark_seen st)"
      by (rule card_Diff_grow [OF finB sub new])
    have len: "length (snd ?P) = length (butlast (mark_queue st)) + card (fst ?P - mark_seen st)"
      by (rule push_neighbors_length)
    have "fst (snd (snd e)) \<in> I" if "e \<in> set (snd ?P)" for e
      using push_neighbors_ids [OF that] okb iI by (auto simp: ids_ok_def)
    then have "ids_ok I st'" using g by (simp add: ids_ok_def)
    moreover have "mark_measure sz I st' < mark_measure sz I st"
    proof -
      have "0 < length (mark_queue st)" using ne by simp
      then show ?thesis using g card len by (simp add: mark_measure_def, linarith)
    qed
    ultimately show ?thesis by blast
  qed
qed

lemma mark_loop_total: "finite I \<Longrightarrow> ids_ok I st \<Longrightarrow> \<exists>g. mark_loop sz st = Some g"
proof (induction "mark_measure sz I st" arbitrary: st rule: less_induct)
  case less
  show ?case
  proof (cases "mark_turn sz st")
    case (Inl g)
    then show ?thesis by (subst mark_loop.simps) simp
  next
    case (Inr st')
    from mark_turn_decreases [OF less.prems Inr] less.hyps less.prems(1)
    obtain g where "mark_loop sz st' = Some g" by blast
    then show ?thesis using Inr by (subst mark_loop.simps) simp
  qed
qed

text \<open>
  C36. \<^verbatim>\<open>mark_grid\<close> ends on every grid size and every list of groups, although
  its queue may hold cells outside the grid.
\<close>

theorem mark_grid_total: "\<exists>g. mark_grid sz groups = Some g"
proof -
  have "ids_ok (gi ` set groups) (mark_start sz groups)" by (auto simp: ids_ok_def mark_start_def)
  from mark_loop_total [OF _ this] show ?thesis by (simp add: mark_grid_def)
qed

lemma mark_fuel_sound: "mark_fuel n sz st = Some g \<Longrightarrow> mark_loop sz st = Some g"
proof (induction n arbitrary: st)
  case (Suc n)
  then show ?case by (subst mark_loop.simps) (auto split: sum.splits)
qed simp

lemma region_fuel_sound: "region_fuel n sz groups st = Some c \<Longrightarrow> region_loop sz groups st = Some c"
proof (induction n arbitrary: st)
  case (Suc n)
  then show ?case by (subst region_loop.simps) (auto split: sum.splits)
qed simp

lemma push_points_props:
  "push_points ps S Q = (S', Q') \<Longrightarrow>
   S' = S \<union> set ps \<and> (\<exists>new. Q' = Q @ new \<and> distinct new \<and> set new = S' - S)"
proof (induction ps S Q arbitrary: S' Q' rule: push_points.induct)
  case (1 seen queue)
  then show ?case by simp
next
  case (2 p ps seen queue)
  show ?case
  proof (cases "p \<in> seen")
    case True
    then have "push_points ps seen queue = (S', Q')" using "2.prems" by simp
    with "2.IH"(2) True show ?thesis by (auto simp: insert_absorb)
  next
    case False
    then have "push_points ps (insert p seen) (queue @ [p]) = (S', Q')" using "2.prems" by simp
    with "2.IH"(1) [OF False]
    obtain new where S': "S' = insert p seen \<union> set ps" and Q': "Q' = (queue @ [p]) @ new"
      and d: "distinct new" "set new = S' - insert p seen" by blast
    have "Q' = queue @ (p # new)" "distinct (p # new)" "set (p # new) = S' - seen"
      using Q' d S' False by auto
    then show ?thesis using S' by auto
  qed
qed

lemma region_turn_cases:
  assumes "region_turn sz groups st = Inr st'"
  obtains x y where "region_queue st \<noteq> []" "last (region_queue st) = (x, y)"
    "st' = st\<lparr>region_queue := butlast (region_queue st)\<rparr> \<or>
     ((x, y) \<in> region_cells sz groups \<and>
      st' = \<lparr>region_seen = fst (push_points (grid_neighbors x y) (region_seen st) (butlast (region_queue st))),
             region_queue = snd (push_points (grid_neighbors x y) (region_seen st) (butlast (region_queue st))),
             central_cells = central_cells st @ [(x, y)]\<rparr>)"
proof -
  obtain x y where l: "last (region_queue st) = (x, y)" by fastforce
  have ne: "region_queue st \<noteq> []" using assms by (auto simp: region_turn_def)
  show ?thesis
  proof (rule that [OF ne l])
    show "st' = st\<lparr>region_queue := butlast (region_queue st)\<rparr> \<or>
     ((x, y) \<in> region_cells sz groups \<and>
      st' = \<lparr>region_seen = fst (push_points (grid_neighbors x y) (region_seen st) (butlast (region_queue st))),
             region_queue = snd (push_points (grid_neighbors x y) (region_seen st) (butlast (region_queue st))),
             central_cells = central_cells st @ [(x, y)]\<rparr>)"
      using assms ne l by (auto simp: region_turn_def region_cells_def Let_def split: prod.splits if_splits)
  qed
qed

lemma region_turn_decreases:
  assumes ok: "region_ok sz groups st" and t: "region_turn sz groups st = Inr st'"
  shows "region_ok sz groups st' \<and> region_measure sz st' < region_measure sz st"
proof -
  from t obtain x y where ne: "region_queue st \<noteq> []" and l: "last (region_queue st) = (x, y)"
    and c: "st' = st\<lparr>region_queue := butlast (region_queue st)\<rparr> \<or>
     ((x, y) \<in> region_cells sz groups \<and>
      st' = \<lparr>region_seen = fst (push_points (grid_neighbors x y) (region_seen st) (butlast (region_queue st))),
             region_queue = snd (push_points (grid_neighbors x y) (region_seen st) (butlast (region_queue st))),
             central_cells = central_cells st @ [(x, y)]\<rparr>)"
    by (rule region_turn_cases)
  let ?C = "central_cells st" and ?Q = "butlast (region_queue st)" and ?S = "region_seen st"
  have q: "region_queue st = ?Q @ [(x, y)]" using ne l by (metis append_butlast_last_id)
  have d: "distinct (?C @ ?Q @ [(x, y)])" "set (?C @ ?Q @ [(x, y)]) \<subseteq> ?S" "set ?C \<subseteq> region_cells sz groups"
    using ok q by (simp_all add: region_ok_def)
  from c show ?thesis
  proof
    assume "st' = st\<lparr>region_queue := butlast (region_queue st)\<rparr>"
    then show ?thesis using d ne by (auto simp: region_ok_def region_measure_def)
  next
    assume g: "(x, y) \<in> region_cells sz groups \<and>
      st' = \<lparr>region_seen = fst (push_points (grid_neighbors x y) ?S ?Q),
             region_queue = snd (push_points (grid_neighbors x y) ?S ?Q),
             central_cells = ?C @ [(x, y)]\<rparr>"
    obtain S' Q' where P: "push_points (grid_neighbors x y) ?S ?Q = (S', Q')" by fastforce
    with push_points_props [OF P] obtain new where S': "S' = ?S \<union> set (grid_neighbors x y)"
      and Q': "Q' = ?Q @ new" and n: "distinct new" "set new = S' - ?S" by blast
    have st': "st' = \<lparr>region_seen = S', region_queue = ?Q @ new, central_cells = ?C @ [(x, y)]\<rparr>"
      using g P Q' by simp
    have xy: "(x, y) \<in> region_cells sz groups" using g by simp
    have "region_ok sz groups st'"
      using d n xy S' unfolding st' region_ok_def by auto
    moreover have "region_measure sz st' < region_measure sz st"
    proof -
      have box: "S' - ?S \<subseteq> region_box sz"
        using xy S' by (auto simp: region_cells_def region_box_def grid_neighbors_def)
      have "card (region_box sz - S') + card (S' - ?S) = card (region_box sz - ?S)"
        by (rule card_Diff_grow [OF _ _ box]) (auto simp: region_box_def S')
      moreover have "length new = card (S' - ?S)" using n by (metis distinct_card)
      moreover have "0 < length (region_queue st)" using ne by simp
      ultimately show ?thesis by (simp add: st' region_measure_def, linarith)
    qed
    ultimately show ?thesis by blast
  qed
qed

lemma region_loop_total:
  "region_ok sz groups st \<Longrightarrow>
   \<exists>cells. region_loop sz groups st = Some cells \<and> distinct cells \<and> set cells \<subseteq> region_cells sz groups"
proof (induction "region_measure sz st" arbitrary: st rule: less_induct)
  case less
  show ?case
  proof (cases "region_turn sz groups st")
    case (Inl cells)
    then have "cells = central_cells st" by (simp add: region_turn_def Let_def split: if_splits prod.splits)
    then show ?thesis using Inl less.prems by (subst region_loop.simps) (simp add: region_ok_def)
  next
    case (Inr st')
    from region_turn_decreases [OF less.prems Inr] less.hyps
    obtain cells where "region_loop sz groups st' = Some cells" "distinct cells" "set cells \<subseteq> region_cells sz groups"
      by blast
    then show ?thesis using Inr by (subst region_loop.simps) simp
  qed
qed

lemma finite_region_cells: "finite (region_cells sz groups)"
  by (rule finite_subset [of _ "{0..sz} \<times> {0..sz}"]) (auto simp: region_cells_def)

text \<open>
  C37. For a non-empty list of groups, \<^verbatim>\<open>most_central_region\<close> ends without error and
  returns at most the number of cells of the grid whose total distance to the
  coordinates is below 10000: it counts distinct such cells.
\<close>

theorem most_central_region_spec:
  assumes "groups \<noteq> []"
  shows "\<exists>n. most_central_region groups sz = Some (Inr n) \<and> n \<le> card (region_cells sz groups)"
proof -
  let ?a = "(sum_list (map gx groups) div int (length groups), sum_list (map gy groups) div int (length groups))"
  have "region_ok sz groups \<lparr>region_seen = {?a}, region_queue = [?a], central_cells = []\<rparr>"
    by (simp add: region_ok_def)
  from region_loop_total [OF this] obtain cells where
    r: "region_loop sz groups \<lparr>region_seen = {?a}, region_queue = [?a], central_cells = []\<rparr> = Some cells"
    and c: "distinct cells" "set cells \<subseteq> region_cells sz groups" by blast
  have "length cells \<le> card (region_cells sz groups)"
    using card_mono [OF finite_region_cells c(2)] distinct_card [OF c(1)] by simp
  then show ?thesis using r assms by (simp add: most_central_region_def Let_def)
qed

theorem most_central_region_spec_witness:
  "\<exists>n. most_central_region two_groups 3 = Some (Inr n) \<and> n \<le> card (region_cells 3 two_groups)"
  using most_central_region_spec [of two_groups 3] by (simp add: two_groups_def)

text \<open>
  A cell at equal distance of two groups is not marked as a tie: it keeps the group
  whose flood reaches it last (here group 0, popped after group 1), with the distance.
\<close>

lemma tie_fuel: "map_option (\<lambda>g. grid_at g 1 0) (mark_fuel 100 3 (mark_start 3 two_groups)) = Some (0, 1)"
  by code_simp

lemma tie_not_marked: "map_option (\<lambda>g. grid_at g 1 0) (mark_grid 3 two_groups) = Some (0, 1)"
proof -
  obtain g where "mark_fuel 100 3 (mark_start 3 two_groups) = Some g" "grid_at g 1 0 = (0, 1)"
    using tie_fuel by auto
  then show ?thesis by (simp add: mark_grid_def mark_fuel_sound)
qed

text \<open>Every cell of a \<open>3 \<times> 3\<close> grid is within the bound of two groups, and the flood counts them all.\<close>

lemma day6_region_test: "most_central_region two_groups 3 = Some (Inr 9)"
proof -
  have "map_option length (region_fuel 100 3 two_groups
          \<lparr>region_seen = {(1, 0)}, region_queue = [(1, 0)], central_cells = []\<rparr>) = Some 9"
    by code_simp
  then show ?thesis
    by (auto simp: most_central_region_def two_groups_def dest: region_fuel_sound)
qed

end
