(* ===== verification/Day10_Stars.thy ===== *)
theory Day10_Stars
  imports Py_Text
begin

text \<open>
  Day 10, \<^verbatim>\<open>src/day_10.py\<close>: points of light moving at constant velocities.
  \<^verbatim>\<open>Starmap\<close> holds two \<^verbatim>\<open>numpy\<close> arrays of shape \<open>(n, 2)\<close>, modelled as lists of
  integer pairs (the float entries hold small integers exactly);
  \<^verbatim>\<open>find_convergence\<close> steps all points forward while the spread of their \<open>y\<close>
  coordinates (\<^verbatim>\<open>ydiff\<close>) shrinks, steps back once and prints the number of steps
  taken, which the model returns. The regular expression
  \<^verbatim>\<open>position=<(.+)> velocity=<(.+)>\<close> is matched as \<^verbatim>\<open>re.match\<close> does: anchored
  at the start only, each \<^verbatim>\<open>.+\<close> taking the longest text that lets the rest match.
  Plotting (\<^verbatim>\<open>draw\<close>) and the module-level file read are not modelled.
\<close>

section \<open>Parsing\<close>

text \<open>
  \<^verbatim>\<open>(.+)\<close> followed by the literal \<open>sep\<close>: the splits \<open>s = g @ sep @ rest\<close> with a
  non-empty \<open>g\<close>, longest \<open>g\<close> first, as the greedy group backtracks.
\<close>

definition greedy_splits :: "string \<Rightarrow> string \<Rightarrow> (string \<times> string) list" where
  "greedy_splits sep s =
     [(take k s, drop (k + length sep) s). k \<leftarrow> rev [1..<Suc (length s)], take (length sep) (drop k s) = sep]"

definition match_starline :: "string \<Rightarrow> (string \<times> string) option" where
  "match_starline s =
     (if take 10 s \<noteq> ''position=<'' then None
      else
        (case [(g1, g2). (g1, rest) \<leftarrow> greedy_splits ''> velocity=<'' (drop 10 s),
                         (g2, _) \<leftarrow> greedy_splits ''>'' rest] of
           [] \<Rightarrow> None
         | m # _ \<Rightarrow> Some m))"

record starmap =
  positions :: "(int \<times> int) list"
  velocities :: "(int \<times> int) list"

text \<open>
  \<^verbatim>\<open>starmap.positions[i] = [int(n) for n in ....split(",")]\<close>: a row of \<^verbatim>\<open>numpy\<close>
  takes two numbers, broadcasts a single one, and raises \<^verbatim>\<open>ValueError\<close> otherwise.
\<close>

definition numbers_row :: "string \<Rightarrow> (int \<times> int) py_result" where
  "numbers_row s =
     py_bind (py_map py_int (py_split_on CHR '','' s)) (\<lambda>ns.
       case ns of [a] \<Rightarrow> Inr (a, a) | [a, b] \<Rightarrow> Inr (a, b) | _ \<Rightarrow> Inl ValueError)"

text \<open>One line of \<^verbatim>\<open>starmap_from_string\<close>: no match gives \<^verbatim>\<open>None.groups()\<close>.\<close>

definition star_from_line :: "string \<Rightarrow> ((int \<times> int) \<times> (int \<times> int)) py_result" where
  "star_from_line line =
     (case match_starline (py_strip line) of
        None \<Rightarrow> Inl AttributeError
      | Some (position, velocity) \<Rightarrow>
          py_bind (numbers_row position) (\<lambda>p. py_bind (numbers_row velocity) (\<lambda>v. Inr (p, v))))"

definition starmap_from_string :: "string list \<Rightarrow> starmap py_result" where
  "starmap_from_string lines =
     py_bind (py_map star_from_line lines) (\<lambda>stars.
       Inr \<lparr>positions = map fst stars, velocities = map snd stars\<rparr>)"

section \<open>Moving the stars\<close>

text \<open>
  \<^verbatim>\<open>Starmap.ydiff\<close>: \<^verbatim>\<open>max\<close> of an empty column raises \<^verbatim>\<open>ValueError\<close>; the
  difference of the maximum and the minimum is never negative, so it is a \<open>nat\<close>.
\<close>

definition ydiff :: "starmap \<Rightarrow> nat py_result" where
  "ydiff sm =
     (if positions sm = [] then Inl ValueError
      else Inr (nat (Max (set (map snd (positions sm))) - Min (set (map snd (positions sm))))))"

text \<open>\<^verbatim>\<open>positions += velocities\<close> and \<^verbatim>\<open>-=\<close>: arrays of different shapes raise \<^verbatim>\<open>ValueError\<close>.\<close>

definition step_forward :: "starmap \<Rightarrow> starmap py_result" where
  "step_forward sm =
     (if length (positions sm) \<noteq> length (velocities sm) then Inl ValueError
      else Inr (sm\<lparr>positions := map2 (\<lambda>(x, y) (vx, vy). (x + vx, y + vy)) (positions sm) (velocities sm)\<rparr>))"

definition step_backwards :: "starmap \<Rightarrow> starmap py_result" where
  "step_backwards sm =
     (if length (positions sm) \<noteq> length (velocities sm) then Inl ValueError
      else Inr (sm\<lparr>positions := map2 (\<lambda>(x, y) (vx, vy). (x - vx, y - vy)) (positions sm) (velocities sm)\<rparr>))"

text \<open>
  The \<^verbatim>\<open>while True\<close> loop of \<^verbatim>\<open>find_convergence\<close>. It ends: it only goes on when
  the spread has strictly decreased.
\<close>

function convergence_loop :: "starmap \<Rightarrow> nat \<Rightarrow> nat \<Rightarrow> (starmap \<times> nat) py_result" where
  "convergence_loop sm start yd =
     py_bind (step_forward sm) (\<lambda>sm'.
       py_bind (ydiff sm') (\<lambda>yd'.
         if yd' < yd then convergence_loop sm' (Suc start) yd'
         else py_bind (step_backwards sm') (\<lambda>sm''. Inr (sm'', Suc start))))"
  by pat_completeness auto
termination by (relation "measure (\<lambda>(sm, start, yd). yd)") auto

text \<open>\<^verbatim>\<open>find_convergence\<close>, returning the map and the number it prints.\<close>

definition find_convergence :: "starmap \<Rightarrow> (starmap \<times> nat) py_result" where
  "find_convergence sm =
     py_bind (ydiff sm) (\<lambda>yd. py_bind (convergence_loop sm 0 yd) (\<lambda>(sm', start). Inr (sm', start - 1)))"

section \<open>Specification\<close>

text \<open>
  The positions after \<open>k\<close> steps, the spread of a list of positions, the spread after
  \<open>k\<close> steps, and the test map of \<^verbatim>\<open>TestStarmap\<close>.
\<close>

definition at_time :: "starmap \<Rightarrow> nat \<Rightarrow> (int \<times> int) list" where
  "at_time sm k = map2 (\<lambda>(x, y) (vx, vy). (x + int k * vx, y + int k * vy)) (positions sm) (velocities sm)"

definition spread :: "(int \<times> int) list \<Rightarrow> nat" where
  "spread ps = nat (Max (set (map snd ps)) - Min (set (map snd ps)))"

definition ydiff_at :: "starmap \<Rightarrow> nat \<Rightarrow> nat" where
  "ydiff_at sm k = spread (at_time sm k)"

definition day10_example :: "string list" where
  "day10_example =
    [''position=< 9,  1> velocity=< 0,  2>'',
     ''position=< 7,  0> velocity=<-1,  0>'',
     ''position=< 3, -2> velocity=<-1,  1>'',
     ''position=< 6, 10> velocity=<-2, -1>'',
     ''position=< 2, -4> velocity=< 2,  2>'',
     ''position=<-6, 10> velocity=< 2, -2>'',
     ''position=< 1,  8> velocity=< 1, -1>'',
     ''position=< 1,  7> velocity=< 1,  0>'',
     ''position=<-3, 11> velocity=< 1, -2>'',
     ''position=< 7,  6> velocity=<-1, -1>'',
     ''position=<-2,  3> velocity=< 1,  0>'',
     ''position=<-4,  3> velocity=< 2,  0>'',
     ''position=<10, -3> velocity=<-1,  1>'',
     ''position=< 5, 11> velocity=< 1, -2>'',
     ''position=< 4,  7> velocity=< 0, -1>'',
     ''position=< 8, -2> velocity=< 0,  1>'',
     ''position=<15,  0> velocity=<-2,  0>'',
     ''position=< 1,  6> velocity=< 1,  0>'',
     ''position=< 8,  9> velocity=< 0, -1>'',
     ''position=< 3,  3> velocity=<-1,  1>'',
     ''position=< 0,  5> velocity=< 0, -1>'',
     ''position=<-2,  2> velocity=< 2,  0>'',
     ''position=< 5, -2> velocity=< 1,  2>'',
     ''position=< 1,  4> velocity=< 2,  1>'',
     ''position=<-2,  7> velocity=< 2, -2>'',
     ''position=< 3,  6> velocity=<-1, -1>'',
     ''position=< 5,  0> velocity=< 1,  0>'',
     ''position=<-6,  0> velocity=< 2,  0>'',
     ''position=< 5,  9> velocity=< 1, -2>'',
     ''position=<14,  7> velocity=<-2,  0>'',
     ''position=<-3,  6> velocity=< 2, -1>'']"

section \<open>Lemmas\<close>

lemma at_time_length: "length (velocities sm) = length (positions sm) \<Longrightarrow> length (at_time sm k) = length (positions sm)"
  by (simp add: at_time_def)

lemma at_time_0: "length (velocities sm) = length (positions sm) \<Longrightarrow> at_time sm 0 = positions sm"
  by (simp add: at_time_def list_eq_iff_nth_eq split: prod.splits)

lemma step_forward_at:
  "length (velocities sm) = length (positions sm) \<Longrightarrow>
   step_forward (sm\<lparr>positions := at_time sm k\<rparr>) = Inr (sm\<lparr>positions := at_time sm (Suc k)\<rparr>)"
  by (simp add: step_forward_def at_time_def list_eq_iff_nth_eq algebra_simps split: prod.splits)

lemma step_backwards_at:
  "length (velocities sm) = length (positions sm) \<Longrightarrow>
   step_backwards (sm\<lparr>positions := at_time sm (Suc k)\<rparr>) = Inr (sm\<lparr>positions := at_time sm k\<rparr>)"
  by (simp add: step_backwards_def at_time_def list_eq_iff_nth_eq algebra_simps split: prod.splits)

lemma ydiff_at_time:
  "length (velocities sm) = length (positions sm) \<Longrightarrow> positions sm \<noteq> [] \<Longrightarrow>
   ydiff (sm\<lparr>positions := at_time sm k\<rparr>) = Inr (ydiff_at sm k)"
proof -
  assume l: "length (velocities sm) = length (positions sm)" and ne: "positions sm \<noteq> []"
  then have "at_time sm k \<noteq> []" using at_time_length [OF l, of k] by auto
  then show ?thesis by (simp add: ydiff_def ydiff_at_def spread_def)
qed

lemma convergence_loop_spec:
  assumes l: "length (velocities sm) = length (positions sm)" and ne: "positions sm \<noteq> []"
  shows "\<exists>t\<ge>k. convergence_loop (sm\<lparr>positions := at_time sm k\<rparr>) k (ydiff_at sm k) =
                  Inr (sm\<lparr>positions := at_time sm t\<rparr>, Suc t) \<and>
               ydiff_at sm t \<le> ydiff_at sm (Suc t) \<and>
               (\<forall>j. k \<le> j \<and> j < t \<longrightarrow> ydiff_at sm (Suc j) < ydiff_at sm j)"
proof (induction "ydiff_at sm k" arbitrary: k rule: less_induct)
  case less
  have unf: "convergence_loop (sm\<lparr>positions := at_time sm k\<rparr>) k (ydiff_at sm k) =
      (if ydiff_at sm (Suc k) < ydiff_at sm k
       then convergence_loop (sm\<lparr>positions := at_time sm (Suc k)\<rparr>) (Suc k) (ydiff_at sm (Suc k))
       else Inr (sm\<lparr>positions := at_time sm k\<rparr>, Suc k))"
    by (subst convergence_loop.simps) (simp add: step_forward_at [OF l] ydiff_at_time [OF l ne] step_backwards_at [OF l])
  show ?case
  proof (cases "ydiff_at sm (Suc k) < ydiff_at sm k")
    case True
    from less.hyps [OF True] obtain t where t: "Suc k \<le> t"
      "convergence_loop (sm\<lparr>positions := at_time sm (Suc k)\<rparr>) (Suc k) (ydiff_at sm (Suc k)) =
         Inr (sm\<lparr>positions := at_time sm t\<rparr>, Suc t)"
      "ydiff_at sm t \<le> ydiff_at sm (Suc t)"
      "\<forall>j. Suc k \<le> j \<and> j < t \<longrightarrow> ydiff_at sm (Suc j) < ydiff_at sm j" by blast
    have "\<forall>j. k \<le> j \<and> j < t \<longrightarrow> ydiff_at sm (Suc j) < ydiff_at sm j"
    proof clarify
      fix j assume "k \<le> j" "j < t"
      then show "ydiff_at sm (Suc j) < ydiff_at sm j" using t(4) True by (cases "j = k") auto
    qed
    then show ?thesis using t True unf by (intro exI [of _ t]) auto
  next
    case False
    then show ?thesis using unf by (intro exI [of _ k]) auto
  qed
qed

text \<open>
  C38. On a map with at least one star and as many velocities as positions,
  \<^verbatim>\<open>find_convergence\<close> ends, leaves the stars at their positions after \<open>t\<close> steps and
  prints \<open>t\<close>, where \<open>t\<close> is the first time at which the spread of the \<open>y\<close>
  coordinates stops decreasing: it decreases at every earlier step and not at step
  \<open>t + 1\<close>.
\<close>

theorem find_convergence_spec:
  assumes l: "length (velocities sm) = length (positions sm)" and ne: "positions sm \<noteq> []"
  shows "\<exists>t. find_convergence sm = Inr (sm\<lparr>positions := at_time sm t\<rparr>, t) \<and>
             ydiff_at sm t \<le> ydiff_at sm (Suc t) \<and> (\<forall>j<t. ydiff_at sm (Suc j) < ydiff_at sm j)"
proof -
  have sm: "sm\<lparr>positions := at_time sm 0\<rparr> = sm" by (simp add: at_time_0 [OF l])
  from convergence_loop_spec [OF l ne, of 0] obtain t where
    "convergence_loop sm 0 (ydiff_at sm 0) = Inr (sm\<lparr>positions := at_time sm t\<rparr>, Suc t)"
    "ydiff_at sm t \<le> ydiff_at sm (Suc t)" "\<forall>j<t. ydiff_at sm (Suc j) < ydiff_at sm j"
    unfolding sm by auto
  moreover have "ydiff sm = Inr (ydiff_at sm 0)" using ydiff_at_time [OF l ne, of 0] sm by simp
  ultimately show ?thesis by (intro exI [of _ t]) (simp add: find_convergence_def)
qed

lemma starmap_from_string_lengths:
  "starmap_from_string lines = Inr sm \<Longrightarrow>
   length (velocities sm) = length (positions sm) \<and> length (positions sm) = length lines"
  by (auto simp: starmap_from_string_def py_simps dest: py_map_length)

theorem find_convergence_spec_witness:
  "\<exists>sm t. starmap_from_string day10_example = Inr sm \<and>
          find_convergence sm = Inr (sm\<lparr>positions := at_time sm t\<rparr>, t)"
proof -
  have "case starmap_from_string day10_example of Inr _ \<Rightarrow> True | Inl _ \<Rightarrow> False" by code_simp
  then obtain sm where sm: "starmap_from_string day10_example = Inr sm" by (auto split: sum.splits)
  with starmap_from_string_lengths [OF sm] have "length (velocities sm) = length (positions sm)" "positions sm \<noteq> []"
    by (auto simp: day10_example_def)
  from find_convergence_spec [OF this] sm show ?thesis by blast
qed

text \<open>The test map of \<^verbatim>\<open>test_starmap\<close> converges after 3 steps, as in the puzzle.\<close>

lemma day10_test: "py_bind (starmap_from_string day10_example) (\<lambda>sm. py_bind (find_convergence sm) (\<lambda>r. Inr (snd r))) = Inr 3"
  by code_simp

text \<open>A single number in a group is broadcast to both coordinates by \<^verbatim>\<open>numpy\<close>.\<close>

lemma single_number_broadcasts: "star_from_line ''position=<5> velocity=<-1>'' = Inr ((5, 5), (-1, -1))"
  by code_simp

end
