(* ===== verification/Day22_Cave.thy ===== *)
theory Day22_Cave
  imports Py_Text
begin

text \<open>
  Day 22, \<^verbatim>\<open>src/day_22.py\<close>: the cave of geologic indices and erosion levels.
  \<^verbatim>\<open>Cave.generate_grid\<close> fills two dictionaries keyed by points, row by row over the
  rectangle \<^verbatim>\<open>bounds\<close> (three times the target's coordinates); they are maps
  \<open>(int \<times> int) \<rightharpoonup> _\<close> here, a missing key raising \<^verbatim>\<open>KeyError\<close>.
  \<^verbatim>\<open>risk_level\<close> adds the risk of the tiles of the rectangle from the mouth to the
  target. \<^verbatim>\<open>rescue_time\<close> builds a \<^verbatim>\<open>networkx\<close> graph of (point, item) nodes
  and asks \<^verbatim>\<open>dijkstra_path_length\<close>: the graph is modelled by its list of weighted
  edges and the library call by its meaning, the least weight of a path
  (\<open>path_weight\<close>). \<^verbatim>\<open>__str__\<close> is not modelled.

  \<open>erosion_rows\<close> computes the erosion levels row by row from the puzzle's rules;
  it reproduces the values the puzzle text gives for the example cave.
\<close>

section \<open>Tiles and items\<close>

datatype cave_tile = Rocky | Wet | Narrow | Mouth | Target

datatype item = Torch | Climbing | Neither

text \<open>\<^verbatim>\<open>TileItemMap\<close> (no entry for \<^verbatim>\<open>Mouth\<close> and \<^verbatim>\<open>Target\<close>).\<close>

fun tile_item_map :: "cave_tile \<Rightarrow> item list py_result" where
  "tile_item_map Rocky = Inr [Torch, Climbing]"
| "tile_item_map Wet = Inr [Climbing, Neither]"
| "tile_item_map Narrow = Inr [Torch, Neither]"
| "tile_item_map _ = Inl KeyError"

text \<open>\<^verbatim>\<open>ErosionTileMap\<close>.\<close>

definition erosion_tile_map :: "int \<Rightarrow> cave_tile py_result" where
  "erosion_tile_map n =
     (if n = 0 then Inr Rocky else if n = 1 then Inr Wet else if n = 2 then Inr Narrow else Inl KeyError)"

section \<open>The cave\<close>

type_synonym cave_point = "int \<times> int"

record cave =
  depth :: int
  target :: cave_point
  bounds :: "int \<times> int"
  grid :: "cave_point \<rightharpoonup> cave_tile"

text \<open>The geologic index of \<^verbatim>\<open>generate_grid\<close>, reading the erosion levels computed so far.\<close>

definition geo_index :: "cave \<Rightarrow> (cave_point \<rightharpoonup> int) \<Rightarrow> int \<Rightarrow> int \<Rightarrow> int py_result" where
  "geo_index cv em x y =
     (if x = 0 \<and> y = 0 \<or> (x, y) = target cv then Inr 0
      else if y = 0 then Inr (x * 16807)
      else if x = 0 then Inr (y * 48271)
      else (case (em (x - 1, y), em (x, y - 1)) of
              (Some a, Some b) \<Rightarrow> Inr (a * b)
            | _ \<Rightarrow> Inl KeyError))"

text \<open>The inner loop \<^verbatim>\<open>for x in range(max_x)\<close> and the outer loop over the rows.\<close>

fun cell_loop :: "cave \<Rightarrow> int \<Rightarrow> int list \<Rightarrow> (cave_point \<rightharpoonup> int) \<times> (cave_point \<rightharpoonup> cave_tile) \<Rightarrow>
                  ((cave_point \<rightharpoonup> int) \<times> (cave_point \<rightharpoonup> cave_tile)) py_result" where
  "cell_loop cv y [] acc = Inr acc"
| "cell_loop cv y (x # xs) (em, g) =
     py_bind (geo_index cv em x y) (\<lambda>geo.
       let erosion_level = (geo + depth cv) mod 20183
       in py_bind (erosion_tile_map (erosion_level mod 3)) (\<lambda>t.
            cell_loop cv y xs (em((x, y) \<mapsto> erosion_level), g((x, y) \<mapsto> t))))"

fun row_loop :: "cave \<Rightarrow> int list \<Rightarrow> (cave_point \<rightharpoonup> int) \<times> (cave_point \<rightharpoonup> cave_tile) \<Rightarrow>
                 ((cave_point \<rightharpoonup> int) \<times> (cave_point \<rightharpoonup> cave_tile)) py_result" where
  "row_loop cv [] acc = Inr acc"
| "row_loop cv (y # ys) acc = py_bind (cell_loop cv y [0..fst (bounds cv) - 1] acc) (row_loop cv ys)"

text \<open>
  \<^verbatim>\<open>generate_grid\<close>: \<^verbatim>\<open>not self.depth\<close> holds for depth 0 only, and
  \<^verbatim>\<open>not self.target\<close> never holds, a \<^verbatim>\<open>Point\<close> being a non-empty tuple.
\<close>

definition generate_grid :: "cave \<Rightarrow> cave py_result" where
  "generate_grid cv =
     (if depth cv = 0 then Inl (Exception ''Need depth and target to generate grid'')
      else py_bind (row_loop cv [0..snd (bounds cv) - 1] (Map.empty, Map.empty)) (\<lambda>(em, g).
             Inr (cv\<lparr>grid := g\<rparr>)))"

definition make_cave :: "int \<Rightarrow> cave_point \<Rightarrow> cave py_result" where
  "make_cave d t =
     generate_grid \<lparr>depth = d, target = t, bounds = (fst t * 3, snd t * 3), grid = Map.empty\<rparr>"

text \<open>\<^verbatim>\<open>Cave.risk_level\<close>.\<close>

definition tile_risk :: "cave_tile \<Rightarrow> nat" where
  "tile_risk t = (if t = Wet then 1 else if t = Narrow then 2 else 0)"

fun risk_loop :: "cave \<Rightarrow> cave_point list \<Rightarrow> nat \<Rightarrow> nat py_result" where
  "risk_loop cv [] risk = Inr risk"
| "risk_loop cv (p # ps) risk =
     (case grid cv p of None \<Rightarrow> Inl KeyError | Some t \<Rightarrow> risk_loop cv ps (risk + tile_risk t))"

definition risk_level :: "cave \<Rightarrow> nat py_result" where
  "risk_level cv =
     risk_loop cv [(x, y). y \<leftarrow> [0..snd (target cv)], x \<leftarrow> [0..fst (target cv)]] 0"

section \<open>The rescue graph\<close>

type_synonym graph_node = "int \<times> int \<times> item"

definition moves :: "cave_point list" where
  "moves = [(-1, 0), (1, 0), (0, -1), (0, 1)]"

text \<open>\<^verbatim>\<open>in_bounds\<close> of \<^verbatim>\<open>rescue_time\<close>.\<close>

definition in_bounds :: "cave \<Rightarrow> cave_point \<Rightarrow> bool" where
  "in_bounds cv p =
     (p \<in> dom (grid cv) \<and> 0 \<le> fst p \<and> fst p \<le> fst (bounds cv) \<and> 0 \<le> snd p \<and> snd p \<le> snd (bounds cv))"

text \<open>The edges added for one point: the change of item, and one move per common item.\<close>

definition point_edges :: "cave \<Rightarrow> cave_point \<Rightarrow> (graph_node \<times> graph_node \<times> nat) list py_result" where
  "point_edges cv p =
     (case grid cv p of
        None \<Rightarrow> Inl KeyError
      | Some t \<Rightarrow>
          py_bind (tile_item_map t) (\<lambda>items.
          py_bind (py_get items 0) (\<lambda>i0. py_bind (py_get items 1) (\<lambda>i1.
          py_bind (py_map (\<lambda>d.
              let q = (fst p + fst d, snd p + snd d)
              in if in_bounds cv q
                 then py_bind (case grid cv q of None \<Rightarrow> Inl KeyError | Some t' \<Rightarrow> tile_item_map t') (\<lambda>new_items.
                        Inr [((fst p, snd p, i), (fst q, snd q, i), 1). i \<leftarrow> items, i \<in> set new_items])
                 else Inr []) moves) (\<lambda>es.
          Inr (((fst p, snd p, i0), (fst p, snd p, i1), 7) # concat es))))))"

definition rescue_graph :: "cave \<Rightarrow> (graph_node \<times> graph_node \<times> nat) list py_result" where
  "rescue_graph cv =
     py_bind (py_map (point_edges cv)
                [(x, y). y \<leftarrow> [0..snd (bounds cv) - 1], x \<leftarrow> [0..fst (bounds cv) - 1]]) (\<lambda>ess.
       Inr (concat ess))"

text \<open>
  \<^verbatim>\<open>nx.dijkstra_path_length\<close> on the undirected graph: the weights of the walks from
  one node to another along edges in either direction; the call returns the least one.
\<close>

inductive path_weight :: "(graph_node \<times> graph_node \<times> nat) list \<Rightarrow> graph_node \<Rightarrow> graph_node \<Rightarrow> nat \<Rightarrow> bool" where
  path_refl: "path_weight es a a 0"
| path_fwd: "(a, b, w) \<in> set es \<Longrightarrow> path_weight es b c n \<Longrightarrow> path_weight es a c (w + n)"
| path_bwd: "(b, a, w) \<in> set es \<Longrightarrow> path_weight es b c n \<Longrightarrow> path_weight es a c (w + n)"

definition rescue_time :: "cave \<Rightarrow> nat \<Rightarrow> bool" where
  "rescue_time cv n \<longleftrightarrow>
     (\<exists>es. rescue_graph cv = Inr es \<and>
        path_weight es (0, 0, Torch) (fst (target cv), snd (target cv), Torch) n \<and>
        (\<forall>m. path_weight es (0, 0, Torch) (fst (target cv), snd (target cv), Torch) m \<longrightarrow> n \<le> m))"

section \<open>Reference\<close>

text \<open>
  The erosion levels of the puzzle, row by row: the row \<open>y\<close> of width \<open>w\<close> from the
  row above it.
\<close>

fun erosion_row_from :: "int \<Rightarrow> cave_point \<Rightarrow> int \<Rightarrow> int \<Rightarrow> int list \<Rightarrow> int \<Rightarrow> int list" where
  "erosion_row_from d t y x [] left = []"
| "erosion_row_from d t y x (up # ups) left =
     (let geo = (if (x, y) = t then 0 else if x = 0 then y * 48271 else left * up);
          e = (geo + d) mod 20183
      in e # erosion_row_from d t y (x + 1) ups e)"

definition first_row :: "int \<Rightarrow> cave_point \<Rightarrow> nat \<Rightarrow> int list" where
  "first_row d t w =
     map (\<lambda>x. ((if x = 0 \<or> (x, 0) = t then 0 else x * 16807) + d) mod 20183) (map int [0..<w])"

fun erosion_rows :: "int \<Rightarrow> cave_point \<Rightarrow> nat \<Rightarrow> nat \<Rightarrow> int list list" where
  "erosion_rows d t w 0 = []"
| "erosion_rows d t w (Suc 0) = [first_row d t w]"
| "erosion_rows d t w (Suc (Suc n)) =
     (let rows = erosion_rows d t w (Suc n)
      in rows @ [erosion_row_from d t (int (Suc n)) 0 (last rows) 0])"

section \<open>Lemmas\<close>

text \<open>A depth of 0 is refused; any target is accepted, \<open>(0, 0)\<close> included.\<close>

lemma generate_grid_depth_zero:
  "depth cv = 0 \<Longrightarrow> generate_grid cv = Inl (Exception ''Need depth and target to generate grid'')"
  by (simp add: generate_grid_def)

lemma erosion_tile_map_mod3: "\<exists>t. erosion_tile_map (e mod 3) = Inr t"
proof -
  have "e mod 3 = 0 \<or> e mod 3 = 1 \<or> e mod 3 = 2" by arith
  then show ?thesis by (auto simp: erosion_tile_map_def)
qed

text \<open>The erosion levels the puzzle text gives for the cave of depth 510 and target (10, 10).\<close>

lemma day22_erosion_example: "erosion_rows 510 (10, 10) 2 2 = [[510, 17317], [8415, 1805]]"
  by code_simp

text \<open>A small cave: depth 510, target (2, 2), a grid of \<open>6 \<times> 6\<close> points.\<close>

lemma day22_small_cave: "py_bind (make_cave 510 (2, 2)) risk_level = Inr 5"
  by code_simp

end
