(* ===== verification/Day17_Reservoir.thy ===== *)
theory Day17_Reservoir
  imports Elf_Instruction "HOL-Library.AList" "HOL-Library.While_Combinator"
begin

text \<open>
  Day 17, \<^verbatim>\<open>src/day_17.py\<close>: water falling from a spring through a scan of clay.
  \<^verbatim>\<open>Reservoir\<close> keeps a \<^verbatim>\<open>defaultdict\<close> from points to characters (default
  \<^verbatim>\<open>'.'\<close>), modelled as an association list in insertion order read with the default.
  A read of a missing key in Python also inserts \<^verbatim>\<open>'.'\<close>; no later read and no count
  can tell such a key from a missing one (every read of it gives \<^verbatim>\<open>'.'\<close>, the counts
  look at \<^verbatim>\<open>'#'\<close>, \<^verbatim>\<open>'|'\<close> and \<^verbatim>\<open>'~'\<close> only, and the bounds are taken
  before \<^verbatim>\<open>fill\<close>), so reads do not change the model's grid.
  The module's \<^verbatim>\<open>number_grabber\<close> is the one of day 16
  (\<open>Elf_Instruction.number_grabber\<close>, the same definition).

  \<^verbatim>\<open>fill\<close> runs a stack of points with three inner loops: the fall down a column, the
  horizontal \<^verbatim>\<open>flow\<close> (\<^verbatim>\<open>while True\<close>) and \<^verbatim>\<open>settle\<close>. The two horizontal
  loops need not end on every grid, so they are \<open>while_option\<close> loops of
  \<^theory_text>\<open>HOL-Library.While_Combinator\<close> (\<open>None\<close> when they run forever), and the
  outer loop is a partial function; the fall down a column ends (the row grows and the
  bounds cap it) and is a function with a termination proof.
\<close>

section \<open>The scan\<close>

type_synonym reservoir_point = "int \<times> int"

record bounds =
  min_y :: int
  max_y :: int
  min_x :: int
  max_x :: int

text \<open>\<^verbatim>\<open>ClayLine.__init__\<close>: the points of one line of the scan.\<close>

definition clay_line :: "int list \<Rightarrow> char \<Rightarrow> reservoir_point list py_result" where
  "clay_line numbers axis =
     py_bind (py_get numbers 0) (\<lambda>a. py_bind (py_get numbers 1) (\<lambda>b. py_bind (py_get numbers 2) (\<lambda>e.
       Inr (if axis = CHR ''x'' then map (\<lambda>i. (a, i)) [b..e] else map (\<lambda>i. (i, a)) [b..e]))))"

type_synonym reservoir_grid = "(reservoir_point \<times> char) list"

definition grid_read :: "reservoir_grid \<Rightarrow> reservoir_point \<Rightarrow> char" where
  "grid_read g p = (case map_of g p of Some c \<Rightarrow> c | None \<Rightarrow> CHR ''.'')"

definition spring :: reservoir_point where
  "spring = (500, 0)"

text \<open>\<^verbatim>\<open>Reservoir._bounds\<close>: the extent of the keys and the spring.\<close>

definition grid_bounds :: "reservoir_grid \<Rightarrow> bounds" where
  "grid_bounds g =
     (let ps = spring # map fst g
      in \<lparr>min_y = Min (set (map snd ps)), max_y = Max (set (map snd ps)),
          min_x = Min (set (map fst ps)), max_x = Max (set (map fst ps))\<rparr>)"

text \<open>
  \<^verbatim>\<open>Reservoir.reservoir_from_file\<close> on the stripped lines: \<^verbatim>\<open>line[0]\<close> of an empty
  line raises \<^verbatim>\<open>IndexError\<close>; the set of clay points is written with \<^verbatim>\<open>'#'\<close>.
\<close>

definition reservoir_from_lines :: "string list \<Rightarrow> (reservoir_grid \<times> bounds) py_result" where
  "reservoir_from_lines lines =
     py_bind (py_map (\<lambda>line. py_bind (py_get line 0) (clay_line (number_grabber line))) (map py_strip lines))
       (\<lambda>clays. let g = map (\<lambda>p. (p, CHR ''#'')) (remdups (concat clays)) in Inr (g, grid_bounds g))"

section \<open>Filling\<close>

definition passable :: "reservoir_grid \<Rightarrow> reservoir_point \<Rightarrow> bool" where
  "passable g p = (grid_read g p = CHR ''|'' \<or> grid_read g p = CHR ''.'')"

definition fill_in_bounds :: "bounds \<Rightarrow> reservoir_point \<Rightarrow> bool" where
  "fill_in_bounds b p = (max_y b + 1 \<ge> snd p \<and> snd p \<ge> min_y b)"

definition valid :: "reservoir_grid \<Rightarrow> bounds \<Rightarrow> reservoir_point \<Rightarrow> bool" where
  "valid g b p = (passable g p \<and> fill_in_bounds b p)"

definition down :: "reservoir_point \<Rightarrow> reservoir_point" where
  "down p = (fst p, snd p + 1)"

definition up :: "reservoir_point \<Rightarrow> reservoir_point" where
  "up p = (fst p, snd p - 1)"

definition point_plus :: "reservoir_point \<Rightarrow> reservoir_point \<Rightarrow> reservoir_point" where
  "point_plus p q = (fst p + fst q, snd p + snd q)"

record fill_state =
  cells :: reservoir_grid
  stack :: "reservoir_point list"
  traversed :: "reservoir_point set"

text \<open>\<^verbatim>\<open>fall(point)\<close>.\<close>

definition fall :: "bounds \<Rightarrow> fill_state \<Rightarrow> reservoir_point \<Rightarrow> fill_state" where
  "fall b st p =
     (let st = st\<lparr>cells := AList.update p (CHR ''|'') (cells st)\<rparr>; d = down p
      in if valid (cells st) b d \<and> d \<notin> traversed st
         then st\<lparr>stack := stack st @ [d], traversed := insert d (traversed st)\<rparr> else st)"

text \<open>
  \<^verbatim>\<open>flow(point, direction)\<close>: the state of the loop is the fill state, the current
  step and the value returned, once there is one.
\<close>

definition flow_body :: "bounds \<Rightarrow> reservoir_point \<Rightarrow> fill_state \<times> reservoir_point \<times> bool option \<Rightarrow> fill_state \<times> reservoir_point \<times> bool option" where
  "flow_body b dir s =
     (let (st, step, r) = s
      in if passable (cells st) (down step) then (fall b st step, step, Some False)
         else if \<not> fill_in_bounds b step then (st, step, Some False)
         else if \<not> passable (cells st) step then (st, step, Some True)
         else (st\<lparr>cells := AList.update step (CHR ''|'') (cells st)\<rparr>, point_plus step dir, None))"

definition flow :: "bounds \<Rightarrow> fill_state \<Rightarrow> reservoir_point \<Rightarrow> reservoir_point \<Rightarrow> (fill_state \<times> bool) option" where
  "flow b st p dir =
     map_option (\<lambda>(st', _, r). (st', r = Some True))
       (while_option (\<lambda>(_, _, r). r = None) (flow_body b dir) (st, p, None))"

text \<open>\<^verbatim>\<open>settle(point, direction)\<close>.\<close>

definition settle :: "bounds \<Rightarrow> reservoir_grid \<Rightarrow> reservoir_point \<Rightarrow> reservoir_point \<Rightarrow> reservoir_grid option" where
  "settle b g p dir =
     map_option fst
       (while_option (\<lambda>(g, step). valid g b step)
          (\<lambda>(g, step). (AList.update step (CHR ''~'') g, point_plus step dir)) (g, p))"

text \<open>The fall down a column: \<^verbatim>\<open>while valid(node)\<close>; it ends below \<open>max_y + 1\<close>.\<close>

function fall_column :: "bounds \<Rightarrow> reservoir_grid \<Rightarrow> reservoir_point \<Rightarrow> reservoir_grid" where
  "fall_column b g node =
     (if valid g b node then fall_column b (AList.update node (CHR ''|'') g) (down node) else g)"
  by pat_completeness auto
termination
  by (relation "measure (\<lambda>(b, g, node). nat (max_y b + 2 - snd node))")
     (auto simp: valid_def fill_in_bounds_def down_def)

text \<open>One turn of \<^verbatim>\<open>while stack\<close>.\<close>

definition fill_turn :: "bounds \<Rightarrow> fill_state \<Rightarrow> fill_state option" where
  "fill_turn b st =
     (let curr = last (stack st);
          st = st\<lparr>stack := butlast (stack st)\<rparr>;
          st = (if passable (cells st) (down curr) then st\<lparr>cells := fall_column b (cells st) curr\<rparr> else st)
      in case flow b st curr (-1, 0) of None \<Rightarrow> None | Some (st, closed_left) \<Rightarrow>
         case flow b st curr (1, 0) of None \<Rightarrow> None | Some (st, closed_right) \<Rightarrow>
           if closed_left \<and> closed_right
           then (case settle b (cells st) curr (-1, 0) of None \<Rightarrow> None | Some g \<Rightarrow>
                 case settle b g (point_plus curr (1, 0)) (1, 0) of None \<Rightarrow> None | Some g \<Rightarrow>
                   Some (st\<lparr>cells := g, stack := stack st @ [up curr]\<rparr>))
           else Some st)"

partial_function (option) fill_loop :: "bounds \<Rightarrow> fill_state \<Rightarrow> reservoir_grid option" where
  "fill_loop b st =
     (if stack st = [] then Some (cells st)
      else case fill_turn b st of None \<Rightarrow> None | Some st' \<Rightarrow> fill_loop b st')"

fun fill_fuel :: "nat \<Rightarrow> bounds \<Rightarrow> fill_state \<Rightarrow> reservoir_grid option" where
  "fill_fuel 0 b st = None"
| "fill_fuel (Suc n) b st =
     (if stack st = [] then Some (cells st)
      else case fill_turn b st of None \<Rightarrow> None | Some st' \<Rightarrow> fill_fuel n b st')"

text \<open>\<^verbatim>\<open>Reservoir.fill\<close>, from the point below the spring.\<close>

definition fill :: "reservoir_grid \<Rightarrow> bounds \<Rightarrow> reservoir_grid option" where
  "fill g b = fill_loop b \<lparr>cells = g, stack = [(fst spring, snd spring + 1)], traversed = {}\<rparr>"

section \<open>Counting\<close>

text \<open>\<^verbatim>\<open>wet_count\<close> and \<^verbatim>\<open>settled_count\<close>: \<^verbatim>\<open>min\<close> of no clay raises \<^verbatim>\<open>ValueError\<close>.\<close>

definition count_water :: "char set \<Rightarrow> reservoir_grid \<Rightarrow> bounds \<Rightarrow> nat py_result" where
  "count_water chars g b =
     (let clay = [snd p. (p, c) \<leftarrow> g, c = CHR ''#'']
      in if clay = [] then Inl ValueError
         else Inr (length [p. (p, c) \<leftarrow> g, c \<in> chars \<and> Min (set clay) \<le> snd p \<and> snd p \<le> max_y b]))"

definition wet_count :: "reservoir_grid \<Rightarrow> bounds \<Rightarrow> nat py_result" where
  "wet_count = count_water {CHR ''|'', CHR ''~''}"

definition settled_count :: "reservoir_grid \<Rightarrow> bounds \<Rightarrow> nat py_result" where
  "settled_count = count_water {CHR ''~''}"

definition day17_example :: "string list" where
  "day17_example =
     [''x=495, y=2..7'', ''y=7, x=495..501'', ''x=501, y=3..7'', ''x=498, y=2..4'',
      ''x=506, y=1..2'', ''x=498, y=10..13'', ''x=504, y=10..13'', ''y=13, x=498..504'']"


section \<open>Lemmas\<close>

subsection \<open>Reading and writing the grid\<close>

lemma map_of_update_other: "k \<noteq> p \<Longrightarrow> map_of (AList.update k v g) p = map_of g p"
  by (simp add: update_conv')

lemma flow_body_continue:
  assumes "flow_body b dir (st, step, None) = (st', step', None)"
  shows "step' = point_plus step dir \<and> (\<forall>q. snd q \<noteq> snd step \<longrightarrow> map_of (cells st') q = map_of (cells st) q)"
  using assms by (cases step) (auto simp: flow_body_def Let_def map_of_update_other split: if_splits)

lemma read_beyond: "p \<notin> fst ` set g \<Longrightarrow> passable g p"
  by (simp add: passable_def grid_read_def map_of_eq_None_iff [symmetric])

lemma flow_body_stops:
  assumes "down step \<notin> fst ` set (cells st)"
  shows "snd (snd (flow_body b dir (st, step, None))) \<noteq> None"
  using read_beyond [OF assms] by (simp add: flow_body_def Let_def)

lemma grid_read_update: "grid_read (AList.update k v g) p = (if p = k then v else grid_read g p)"
  by (simp add: grid_read_def update_conv')

lemma passable_not_clay: "passable g p \<Longrightarrow> grid_read g p \<noteq> CHR ''#''"
  by (auto simp: passable_def)

lemma fall_column_keeps_clay:
  "grid_read (fall_column b g node) p = CHR ''#'' \<longleftrightarrow> grid_read g p = CHR ''#''"
  by (induction b g node rule: fall_column.induct)
     (subst fall_column.simps, auto simp: grid_read_update valid_def dest: passable_not_clay)

lemma settle_keeps_clay:
  assumes "settle b g p dir = Some g'"
  shows "grid_read g' q = CHR ''#'' \<longleftrightarrow> grid_read g q = CHR ''#''"
proof -
  obtain s where s: "while_option (\<lambda>(g, step). valid g b step)
          (\<lambda>(g, step). (AList.update step (CHR ''~'') g, point_plus step dir)) (g, p) = Some s" "g' = fst s"
    using assms by (auto simp: settle_def)
  have "(\<lambda>(h, _). grid_read h q = CHR ''#'' \<longleftrightarrow> grid_read g q = CHR ''#'') s"
    by (rule while_option_rule [OF _ s(1)])
       (auto simp: grid_read_update valid_def split: if_splits dest: passable_not_clay)
  then show ?thesis using s(2) by (cases s) simp
qed

subsection \<open>The horizontal flow returns\<close>

text \<open>
  The flow moves along one row and reads the row below, which it never writes before it
  returns; past the last key of the grid the cell below reads \<^verbatim>\<open>'.'\<close> and the
  flow falls. So the \<^verbatim>\<open>while True\<close> loop of \<^verbatim>\<open>flow\<close> ends on every grid.
\<close>

lemma flow_body_continue_key:
  assumes "flow_body b dir (st, step, None) = (st', step', None)"
  shows "down step \<in> fst ` set (cells st)"
  using flow_body_stops [of step st b dir] assms by auto

lemma flow_returns:
  assumes "snd dir = 0" "fst dir \<noteq> 0"
  shows "flow b st p dir \<noteq> None"
proof -
  define K where "K = fst ` fst ` set (cells st)"
  define y where "y = snd p"
  define f :: "fill_state \<times> reservoir_point \<times> bool option \<Rightarrow> nat" where
    "f = (\<lambda>(st', step, r). if r = None then
           1 + (if 0 < fst dir then nat (Max (insert (fst p) K) + 1 - fst step)
                else nat (fst step + 1 - Min (insert (fst p) K))) else 0)"
  define P :: "fill_state \<times> reservoir_point \<times> bool option \<Rightarrow> bool" where
    "P = (\<lambda>(st', step, r). r = None \<longrightarrow> snd step = y \<and>
           (\<forall>q. snd q \<noteq> y \<longrightarrow> map_of (cells st') q = map_of (cells st) q) \<and>
           (if 0 < fst dir then fst p \<le> fst step else fst step \<le> fst p))"
  have fin: "finite K" by (simp add: K_def)
  have step: "P (flow_body b dir s) \<and> f (flow_body b dir s) < f s"
    if Ps: "P s" and Bs: "(\<lambda>(_, _, r). r = None) s" for s
  proof -
    obtain st1 step1 where s: "s = (st1, step1, None)" using Bs by (cases s) auto
    obtain st2 step2 r2 where c: "flow_body b dir (st1, step1, None) = (st2, step2, r2)"
      by (cases "flow_body b dir (st1, step1, None)") auto
    show ?thesis
    proof (cases r2)
      case None
      note cont = flow_body_continue [OF c [unfolded None]]
      have "down step1 \<in> fst ` set (cells st1)" using flow_body_continue_key [OF c [unfolded None]] .
      then obtain v where "map_of (cells st1) (down step1) = Some v"
        by (metis map_of_eq_None_iff not_Some_eq)
      moreover have "snd (down step1) \<noteq> y" using Ps s by (simp add: P_def down_def)
      moreover have "\<And>q. snd q \<noteq> y \<Longrightarrow> map_of (cells st1) q = map_of (cells st) q"
        using Ps s by (auto simp: P_def)
      ultimately have "map_of (cells st) (down step1) = Some v" by metis
      then have "down step1 \<in> fst ` set (cells st)" by (metis map_of_eq_None_iff option.distinct(1))
      then have "fst step1 \<in> K" unfolding K_def down_def by (metis fst_conv image_eqI)
      then have "fst step1 \<le> Max (insert (fst p) K)" "Min (insert (fst p) K) \<le> fst step1"
        using fin by auto
      then show ?thesis using Ps s c None cont assms
        by (auto simp: P_def f_def point_plus_def)
    next
      case (Some r)
      then show ?thesis using s c by (simp add: P_def f_def)
    qed
  qed
  have "\<exists>t. while_option (\<lambda>(_, _, r). r = None) (flow_body b dir) (st, p, None) = Some t"
    by (rule measure_while_option_Some [where f = f and P = P]) (use step in blast, simp add: P_def y_def)
  then show ?thesis by (auto simp: flow_def)
qed

subsection \<open>The fill loop\<close>

lemma fill_fuel_sound: "fill_fuel n b st = Some g \<Longrightarrow> fill_loop b st = Some g"
proof (induction n arbitrary: st)
  case 0 then show ?case by simp
next
  case (Suc n)
  then show ?case by (subst fill_loop.simps) (auto split: if_splits option.splits)
qed

lemma fill_fuel_fill:
  "fill_fuel n b \<lparr>cells = g, stack = [(fst spring, snd spring + 1)], traversed = {}\<rparr> = Some g'
   \<Longrightarrow> fill g b = Some g'"
  unfolding fill_def by (rule fill_fuel_sound)

lemma day17_example_run:
  "case reservoir_from_lines day17_example of
     Inl e \<Rightarrow> False
   | Inr (g, b) \<Rightarrow>
       (case fill_fuel 200 b \<lparr>cells = g, stack = [(fst spring, snd spring + 1)], traversed = {}\<rparr> of
          None \<Rightarrow> False
        | Some g' \<Rightarrow> wet_count g' b = Inr 57 \<and> settled_count g' b = Inr 29)"
  by code_simp

lemma day17_example_counts:
  "\<exists>g b g'. reservoir_from_lines day17_example = Inr (g, b) \<and> fill g b = Some g' \<and>
           wet_count g' b = Inr 57 \<and> settled_count g' b = Inr 29"
  using day17_example_run by (fastforce split: sum.splits option.splits dest: fill_fuel_fill)


text \<open>
  C39. The \<^verbatim>\<open>while True\<close> loop of \<^verbatim>\<open>flow\<close> returns on every grid, every state
  and every start, in both directions \<^verbatim>\<open>fill\<close> uses.
\<close>

theorem flow_terminates:
  "flow b st p (-1, 0) \<noteq> None \<and> flow b st p (1, 0) \<noteq> None"
  by (simp add: flow_returns)

end
