(* ===== verification/Spec2Isabelle.thy ===== *)
theory Spec2Isabelle
  imports Elf_Jump_Device Day16_Guesser Elf_Drivers Day08_License_Tree Day01_Calibration
    Day05_Polymer Day02_Box_Scan Day03_Fabric Day07_Steps Day04_Guards
    Day25_Constellations Day20_Regular_Map Day18_Lumber Day13_Mine_Carts
    Day11_Fuel_Cells Day23_Nanobots Day06_Coordinates Day10_Stars Day22_Cave
    Day17_Reservoir
begin

text \<open>
  \<^bold>\<open>A verification library for the Advent of Code 2018 solutions of the repository
  (ragona/adventofcode_2018).\<close>

  \<^bold>\<open>The program.\<close> The repository is a set of puzzle scripts
  (\<^verbatim>\<open>src/day_NN.py\<close>) and one shared subsystem, the toy register machine of
  \<^verbatim>\<open>src/elfsembly/\<close> used by days 16, 19 and 21. Its instruction part
  (\<^verbatim>\<open>instruction.py\<close>) decodes text lines into \<^verbatim>\<open>Instruction\<close> objects and
  \<^verbatim>\<open>#ip r\<close> directives; its device part (\<^verbatim>\<open>device.py\<close>) executes them:
  \<^verbatim>\<open>ChronalDevice\<close> dispatches an opcode number through \<^verbatim>\<open>opcode_map\<close> to one
  of sixteen methods, and \<^verbatim>\<open>ChronalDeviceWithJumps\<close> binds a register to the program
  counter and runs a program by a generator that yields after every instruction. The
  drivers of days 16, 19 and 21 sit on top of the machine; the other scripts stand alone.

  \<^bold>\<open>The theories.\<close> Each theory opens with a text saying what it models.
  \<^item> \<open>Elf_Prelude\<close> and \<open>Py_Text\<close>: Python's exceptions (\<open>py_error\<close>), results
    \<open>'a py_result = py_error + 'a\<close> with \<open>py_bind\<close>, list indexing with negative
    indices (\<open>py_get\<close>, \<open>py_set\<close>), \<open>py_map\<close>, and the string functions the
    scripts call (\<open>py_strip\<close>, splitting, \<open>int\<close>), with the \<open>py_simps\<close> lemmas.
  \<^item> \<open>Elf_Instruction\<close>, \<open>Elf_Device\<close>, \<open>Elf_Jump_Device\<close>: the machine, one
    definition per method, the generator as set-up plus one loop turn (\<open>jump_step\<close>),
    the run to completion \<open>run_jump\<close> and the step relation \<open>jump_steps\<close>.
  \<^item> \<open>Day16_Guesser\<close> and \<open>Elf_Drivers\<close>: the opcode guesser of day 16 and the
    drivers of days 19 and 21 (\<open>fastforward_state\<close>).
  \<^item> one theory per puzzle script: \<open>Day01_Calibration\<close>, \<open>Day02_Box_Scan\<close>,
    \<open>Day03_Fabric\<close>, \<open>Day04_Guards\<close>, \<open>Day05_Polymer\<close>,
    \<open>Day06_Coordinates\<close>, \<open>Day07_Steps\<close>, \<open>Day08_License_Tree\<close>,
    \<open>Day10_Stars\<close>, \<open>Day11_Fuel_Cells\<close>, \<open>Day13_Mine_Carts\<close>,
    \<open>Day17_Reservoir\<close>, \<open>Day18_Lumber\<close>, \<open>Day20_Regular_Map\<close>,
    \<open>Day22_Cave\<close>, \<open>Day23_Nanobots\<close>, \<open>Day25_Constellations\<close>, each named after
    \<^verbatim>\<open>src/day_NN.py\<close> and keeping the source's class and function names.
  \<^item> this theory: the example program of day 19 run through the decoder and the device,
    and observations that span both.

  \<^bold>\<open>Modelling choices.\<close> Python ints are \<open>int\<close>. Every exception is a value of
  \<open>py_error\<close> (\<open>IndexError\<close>, \<open>KeyError\<close>, \<open>TypeError\<close>, \<open>ValueError\<close>,
  \<open>ZeroDivisionError\<close>, \<open>AttributeError\<close>, \<open>Exception\<close> with its message).
  Mutation is state passing over records. Dictionaries are maps or association lists;
  an association list is used where the code iterates in insertion order. A
  \<^verbatim>\<open>defaultdict\<close> read inserts the default where a later read or count can see it
  (day 20), and is a plain read with the default where nothing can (day 17).
  Library calls the code only uses are modelled by their meaning: networkx shortest paths
  (day 22) as the least weight of a path, connected components (day 25) as reachability
  classes, heap order on ties (day 23) as any least element.

  \<^bold>\<open>Loops and fuel.\<close> A loop that always ends is a function with a termination
  proof (the divisor loop of day 19, \<open>convergence_loop\<close> of day 10,
  \<open>fall_column\<close> of day 17). A loop that need not end is a
  \<^theory_text>\<open>partial_function (option)\<close>, \<open>None\<close> being non-termination, with a
  fuel twin and a lemma that a run within fuel is a run of the loop; the fuel only serves
  the concrete tests, and where the loop does end that is proved without fuel:
  \<open>run_jump\<close> agrees exactly with its bounded runs, the floods of day 6 end by a
  measure on the unvisited cells of the box, the search of day 23 ends by a multiset
  order on its heap, \<open>flow\<close> of day 17 (a \<open>while_option\<close>) ends on every grid, and
  day 8's parser returns on fuel one more than the number of input numbers. The
  elimination loop of day 16 is proved to diverge on too few opcodes.

  \<^bold>\<open>What is proved\<close> (the properties, by theorem). Machine:
  \<open>execute_then_increment\<close>, \<open>run_jump_adequate\<close>, \<open>execute_refines_spec\<close> (the
  sixteen methods implement the specification's table), \<open>execute_frame\<close>,
  \<open>execute_error\<close>, \<open>halting_boundary\<close>, \<open>negative_pc_indexes_from_end\<close>,
  \<open>missing_binding\<close>, \<open>jump_steps_invariant\<close>, \<open>run_jump_completed_iff\<close>,
  \<open>instruction_str_roundtrip\<close>, \<open>execute_instructions_failure\<close>,
  \<open>decode_errors\<close>, \<open>analysis_run_outcome\<close>. Drivers: \<open>guess_correct\<close>,
  \<open>guess_errors\<close>, \<open>find_unique_sound\<close>, \<open>find_unique_diverges\<close>,
  \<open>fastforward_state_correct\<close>. Puzzles: the license tree round trip and total parser
  (day 8), the first repeated frequency (day 1), full reaction of the polymer stack
  (day 5), fabric overlaps and the rectangle parser round trip (day 3), termination of
  the step order (day 7), the guard log invariants (day 4), the constellation count
  (day 25), the summed-area table search (day 11), the central-location search and the
  strongest bot (day 23), the floods of day 6, the star convergence (day 10), and for
  day 17 the termination of \<^verbatim>\<open>flow\<close> and a scan on which \<^verbatim>\<open>fill\<close> writes water
  over clay. The manifest lists them with their identifiers.

  \<^bold>\<open>Not modelled.\<close> File reading (the models start from the list of lines or the
  text), printing, \<^verbatim>\<open>unittest\<close> harnesses, \<^verbatim>\<open>__repr__\<close>/\<^verbatim>\<open>__str__\<close>
  where no result depends on them, plotting (day 10's matplotlib), the graphviz helper
  \<^verbatim>\<open>src/util/drawing.py\<close>, the execution of networkx's Dijkstra (day 22, modelled by
  its meaning only), and the two largest simulations, day 15 (combat) and day 24
  (immune system battle), which no property depends on.
\<close>

section \<open>The example program of day 19\<close>

text \<open>
  The example of the day 19 puzzle text (\<^verbatim>\<open>src/day_19.py\<close>), which the unit test
  \<^verbatim>\<open>TestDeviceWithJumps\<close> reads from \<^verbatim>\<open>day_19_test.txt\<close>: the directive
  \<^verbatim>\<open>#ip 0\<close> and seven instructions.
\<close>

definition day19_test_lines :: "string list" where
  "day19_test_lines = [''#ip 0'', ''seti 5 0 1'', ''seti 6 0 2'', ''addi 0 1 0'', ''addr 1 2 3'',
     ''setr 1 0 0'', ''seti 8 0 4'', ''seti 9 0 5'']"

definition day19_test_program :: "elf_line list" where
  "day19_test_program =
    [Jump default_instruction 0, Plain \<lparr>opcode = 2, arg_a = 5, arg_b = 0, output_reg = 1\<rparr>,
     Plain \<lparr>opcode = 2, arg_a = 6, arg_b = 0, output_reg = 2\<rparr>,
     Plain \<lparr>opcode = 10, arg_a = 0, arg_b = 1, output_reg = 0\<rparr>,
     Plain \<lparr>opcode = 9, arg_a = 1, arg_b = 2, output_reg = 3\<rparr>,
     Plain \<lparr>opcode = 14, arg_a = 1, arg_b = 0, output_reg = 0\<rparr>,
     Plain \<lparr>opcode = 2, arg_a = 8, arg_b = 0, output_reg = 4\<rparr>,
     Plain \<lparr>opcode = 2, arg_a = 9, arg_b = 0, output_reg = 5\<rparr>]"

section \<open>Lemmas\<close>

lemma day19_decode: "jump_instructions_from_lines day19_test_lines = Inr day19_test_program"
  by (simp add: day19_test_lines_def day19_test_program_def decode_eval py_simps)

lemma int_to_str_table_names:
  "set int_to_str_table = (\<lambda>(n, m). (n, method_name m)) ` set opcode_map_table"
  by (simp add: opcode_map_table_def int_to_str_table_def)

text \<open>
  The day 19 example, decoded from its text and executed from six zero registers by
  \<^verbatim>\<open>ChronalDeviceWithJumps.execute_instructions\<close>, halts with the registers
  \<open>[7, 5, 6, 0, 0, 9]\<close>, as the unit test asserts.
\<close>

theorem day19_example_program:
  "py_bind (jump_instructions_from_lines day19_test_lines) (\<lambda>prog.
     Inr (map_option fst (execute_instructions_jump (chronal_device_with_jumps None None) prog)))
   = Inr (Some (Completed \<lparr>registers = [7, 5, 6, 0, 0, 9], MAX_modulus = None, program_register = 0\<rparr>))"
  by (simp add: day19_decode day19_test_program_def jump_eval execute_eval py_simps eval_nat_numeral)

text \<open>
  The same run through \<^verbatim>\<open>execute_instructions_with_analysis\<close> yields the five
  instructions of the puzzle's trace (at ip 0, 1, 2, 4 and 6: the relative jump
  \<^verbatim>\<open>addi 0 1 0\<close> skips \<^verbatim>\<open>addr 1 2 3\<close>, the absolute jump \<^verbatim>\<open>setr 1 0 0\<close>
  skips \<^verbatim>\<open>seti 8 0 4\<close>), then \<^verbatim>\<open>None\<close>.
\<close>

theorem day19_example_trace:
  "analysis_run 6 (tl day19_test_program) (chronal_device_with_jumps None None) =
   Some ([Some (Plain \<lparr>opcode = 2, arg_a = 5, arg_b = 0, output_reg = 1\<rparr>),
          Some (Plain \<lparr>opcode = 2, arg_a = 6, arg_b = 0, output_reg = 2\<rparr>),
          Some (Plain \<lparr>opcode = 10, arg_a = 0, arg_b = 1, output_reg = 0\<rparr>),
          Some (Plain \<lparr>opcode = 14, arg_a = 1, arg_b = 0, output_reg = 0\<rparr>),
          Some (Plain \<lparr>opcode = 2, arg_a = 9, arg_b = 0, output_reg = 5\<rparr>), None],
         Completed \<lparr>registers = [7, 5, 6, 0, 0, 9], MAX_modulus = None, program_register = 0\<rparr>)"
  by (simp add: day19_test_program_def jump_eval execute_eval py_simps eval_nat_numeral)

text \<open>
  The decoder and the device agree on the meaning of every opcode number: the
  mnemonic \<^verbatim>\<open>Instruction.int_to_str\<close> prints for a number is the name of the method
  \<^verbatim>\<open>ChronalDevice.opcode_map\<close> dispatches it to, and a number outside one table is
  outside the other.
\<close>

theorem opcode_names_agree:
  "int_to_str n = map_option method_name (opcode_map n)"
proof (cases "opcode_map n")
  case None
  then have "n \<notin> fst ` set opcode_map_table" by (simp add: opcode_map_def map_of_eq_None_iff)
  then have "n \<notin> fst ` set int_to_str_table" by (force simp: int_to_str_table_names)
  with None show ?thesis by (simp add: int_to_str_def map_of_eq_None_iff)
next
  case (Some m)
  then have "(n, method_name m) \<in> set int_to_str_table"
    by (force simp: opcode_map_Some_iff int_to_str_table_names)
  with Some show ?thesis by (simp add: int_to_str_Some_iff)
qed

text \<open>
  Nothing stops a second \<^verbatim>\<open>#ip\<close> line: after the first one is popped, a later
  directive is an ordinary program line whose inherited fields are
  \<open>opcode = 0, a = b = output = 0\<close>, so it executes as \<^verbatim>\<open>gtir 0 0 0\<close>. From
  register 0 holding -5, the program \<^verbatim>\<open>#ip 1; seti 7 0 2; #ip 4\<close> sets register 0 to
  1 at its third line instead of rebinding the counter.
\<close>

theorem second_directive_runs_as_gtir:
  "py_bind (jump_instructions_from_lines [''#ip 1'', ''seti 7 0 2'', ''#ip 4'']) (\<lambda>prog.
     Inr (map_option fst (execute_instructions_jump (chronal_device_with_jumps None (Some [-5, 0, 0, 0, 0, 0])) prog)))
   = Inr (Some (Completed \<lparr>registers = [1, 2, 7, 0, 0, 0], MAX_modulus = None, program_register = 1\<rparr>))"
  by (simp add: decode_eval jump_eval execute_eval py_simps)

section \<open>Observations on the code\<close>

text \<open>
  The generator pops the directive from the caller's list: after a run the list
  holds only the plain instructions, and running that same list again raises the
  missing-directive \<^verbatim>\<open>Exception\<close> before executing anything.
\<close>

theorem program_list_consumed:
  "execute_instructions_jump (chronal_device_with_jumps None None) day19_test_program =
     Some (Completed \<lparr>registers = [7, 5, 6, 0, 0, 9], MAX_modulus = None, program_register = 0\<rparr>,
           tl day19_test_program) \<and>
   execute_instructions_jump (chronal_device_with_jumps None None) (tl day19_test_program) =
     Some (Failed (Exception missing_binding_message) (chronal_device_with_jumps None None),
           tl day19_test_program)"
  by (simp add: day19_test_program_def jump_eval execute_eval py_simps eval_nat_numeral)

text \<open>
  The counter's increment bypasses \<^verbatim>\<open>set_register\<close> and the modulus: with
  \<^verbatim>\<open>MAX = 2\<close>, a run of three instructions leaves 3 in the bound register.
\<close>

theorem pc_increment_ignores_modulus:
  "run_jump [Plain \<lparr>opcode = 2, arg_a = 0, arg_b = 0, output_reg = 1\<rparr>,
             Plain \<lparr>opcode = 2, arg_a = 0, arg_b = 0, output_reg = 1\<rparr>,
             Plain \<lparr>opcode = 2, arg_a = 0, arg_b = 0, output_reg = 1\<rparr>]
      \<lparr>registers = [0, 0], MAX_modulus = Some 2, program_register = 0\<rparr>
   = Some (Completed \<lparr>registers = [3, 0], MAX_modulus = Some 2, program_register = 0\<rparr>)"
  by (simp add: jump_eval execute_eval py_simps)

text \<open>
  The first concrete scenario of the specification (\<^verbatim>\<open>addi 2 1 2\<close> on
  \<open>[3, 2, 1, 1]\<close>) gives \<open>[3, 2, 2, 1]\<close>, as day 16's sample says, not the
  \<open>[3, 2, 3, 1]\<close> the specification states.
\<close>

theorem spec_scenario_addi:
  "execute \<lparr>registers = [3, 2, 1, 1], MAX_modulus = None\<rparr> \<lparr>opcode = 10, arg_a = 2, arg_b = 1, output_reg = 2\<rparr>
     = Inr \<lparr>registers = [3, 2, 2, 1], MAX_modulus = None\<rparr>"
  by (simp add: execute_eval py_simps)

end
